theory Spec2Isabelle
  imports Main "HOL-Library.Word" "HOL-Library.AList"
begin

section \<open>Content addresses, blocks and the block store\<close>

text \<open>
  A content address is the hash of a block. The hash is modelled as injective: a defined
  cid is the block it addresses (spec, section 3: two content addresses are equal iff the
  blocks are byte-equal). \<open>Undef\<close> is the zero value \<^verbatim>\<open>cid.Undef\<close>, for which
  \<^verbatim>\<open>Defined()\<close> is false. A block is either a CBOR object written by
  \<^verbatim>\<open>cbornode.WrapObject\<close> (\<open>Node\<close>), the bytes of an opaque file written by
  \<^verbatim>\<open>store.PutFile\<close>, the link table written by \<^verbatim>\<open>Links.EncodeBlock\<close>, or the
  skeleton file written by \<^verbatim>\<open>Skeleton.CBORFile\<close> and \<^verbatim>\<open>store.PutFile\<close>.
\<close>

datatype cid = Undef | Cid block
and block =
    Node val
  | FileBlock "nat list"
  | LinksBlock "(string \<times> cid \<times> bool) list"
  | SkeletonBlock "(string \<times> skel) list"
and val =
    VNull | VInt int | VStr string | VLink cid
  | VList "val list" | VMap "(string \<times> val) list"
and skel = SkeletonInfo cid cid cid "(string \<times> skel) list" bool

fun Defined :: "cid \<Rightarrow> bool" where
  "Defined Undef = False"
| "Defined (Cid b) = True"

datatype error =
    ErrNotFound
  | ErrNoLink
  | Err string
  | Panic string

text \<open>
  A map of Go (\<^verbatim>\<open>base.Links\<close>, \<^verbatim>\<open>Skeleton\<close>, \<^verbatim>\<open>map[string]interface{}\<close>) is an
  association list with one entry per key: an assignment replaces the entry of the key
  or appends a new one, \<^verbatim>\<open>delete\<close> filters the key out.
\<close>

type_synonym Links = "(string \<times> cid \<times> bool) list"
type_synonym Skeleton = "(string \<times> skel) list"

record Link =
  l_Name :: string
  l_Cid :: cid
  l_IsFile :: bool

definition NewLinks :: Links where
  "NewLinks = []"

definition Links_Get :: "Links \<Rightarrow> string \<Rightarrow> Link option" where
  "Links_Get ls name =
     (case map_of ls name of
        None \<Rightarrow> None
      | Some (c, f) \<Rightarrow> Some \<lparr>l_Name = name, l_Cid = c, l_IsFile = f\<rparr>)"

definition Links_Add :: "Links \<Rightarrow> Link \<Rightarrow> Links" where
  "Links_Add ls l = AList.update (l_Name l) (l_Cid l, l_IsFile l) ls"

definition Links_Remove :: "Links \<Rightarrow> string \<Rightarrow> Links" where
  "Links_Remove ls name = AList.delete name ls"

definition Links_Len :: "Links \<Rightarrow> nat" where
  "Links_Len ls = length ls"

fun sk_Cid :: "skel \<Rightarrow> cid" where
  "sk_Cid (SkeletonInfo c u m sub f) = c"

fun sk_Userland :: "skel \<Rightarrow> cid" where
  "sk_Userland (SkeletonInfo c u m sub f) = u"

fun sk_Metadata :: "skel \<Rightarrow> cid" where
  "sk_Metadata (SkeletonInfo c u m sub f) = m"

fun sk_SubSkeleton :: "skel \<Rightarrow> Skeleton" where
  "sk_SubSkeleton (SkeletonInfo c u m sub f) = sub"

fun sk_IsFile :: "skel \<Rightarrow> bool" where
  "sk_IsFile (SkeletonInfo c u m sub f) = f"

text \<open>
  The world: the block stores (a store is the set of the cids it holds; a node names its
  store by a number), the injectable clock behind \<^verbatim>\<open>base.Timestamp()\<close>, read once per
  call, and the byte length the codec gives an encoded object (\<^verbatim>\<open>blk.Size()\<close>).
  Writing to a store never fails in the model.
\<close>

record world =
  stores :: "nat \<Rightarrow> cid set"
  clock :: "nat \<Rightarrow> int"
  ticks :: nat
  blockSize :: "val \<Rightarrow> nat"

definition Timestamp :: "world \<Rightarrow> 64 word \<times> world" where
  "Timestamp w = (word_of_int (clock w (ticks w)), w\<lparr>ticks := Suc (ticks w)\<rparr>)"

definition block_Cid :: "block \<Rightarrow> cid" where
  "block_Cid b = Cid b"

definition PutBlock :: "world \<Rightarrow> nat \<Rightarrow> block \<Rightarrow> world" where
  "PutBlock w st b = w\<lparr>stores := (stores w)(st := insert (block_Cid b) (stores w st))\<rparr>"

definition GetBlock :: "world \<Rightarrow> nat \<Rightarrow> cid \<Rightarrow> error + block" where
  "GetBlock w st c =
     (case c of
        Undef \<Rightarrow> Inl ErrNotFound
      | Cid b \<Rightarrow> if c \<in> stores w st then Inr b else Inl ErrNotFound)"

record PutFileResult =
  pf_Cid :: cid
  pf_Size :: "64 word"

definition PutFile :: "world \<Rightarrow> nat \<Rightarrow> nat list \<Rightarrow> PutFileResult \<times> world" where
  "PutFile w st bytes =
     (\<lparr>pf_Cid = block_Cid (FileBlock bytes), pf_Size = of_nat (length bytes)\<rparr>,
      PutBlock w st (FileBlock bytes))"

definition GetFile :: "world \<Rightarrow> nat \<Rightarrow> cid \<Rightarrow> error + nat list" where
  "GetFile w st c =
     (case GetBlock w st c of
        Inl e \<Rightarrow> Inl e
      | Inr (FileBlock bytes) \<Rightarrow> Inr bytes
      | Inr _ \<Rightarrow> Inl (Err ''not a file''))"

section \<open>Info and Header\<close>

text \<open>
  Modelled from the spec: the node-type tags of the absent \<^verbatim>\<open>base\<close> package
  (spec, section 6: Dir = 1, File = 2, LDFile = 3), its \<^verbatim>\<open>LatestVersion\<close> and
  \<^verbatim>\<open>ModeDefault\<close>.
\<close>

type_synonym NodeType = "8 word"

definition NTDir :: NodeType where "NTDir = 1"
definition NTFile :: NodeType where "NTFile = 2"
definition NTLDFile :: NodeType where "NTLDFile = 3"

definition LatestVersion :: string where "LatestVersion = ''2.0.0''"
definition ModeDefault :: "32 word" where "ModeDefault = 420"

record Info =
  i_WNFS :: string
  i_Type :: NodeType
  i_Mode :: "32 word"
  i_Ctime :: "64 word"
  i_Mtime :: "64 word"
  i_Size :: "64 word"

definition NewInfo :: "world \<Rightarrow> NodeType \<Rightarrow> Info \<times> world" where
  "NewInfo w t =
     (case Timestamp w of (ts, w') \<Rightarrow>
        (\<lparr>i_WNFS = LatestVersion, i_Type = t, i_Mode = ModeDefault,
          i_Ctime = ts, i_Mtime = ts, i_Size = 0\<rparr>, w'))"

definition Info_Map :: "Info \<Rightarrow> (string \<times> val) list" where
  "Info_Map i =
     [(''wnfs'', VStr (i_WNFS i)),
      (''type'', VInt (uint (i_Type i))),
      (''mode'', VInt (uint (i_Mode i))),
      (''ctime'', VInt (sint (i_Ctime i))),
      (''mtime'', VInt (sint (i_Mtime i))),
      (''size'', VInt (sint (i_Size i)))]"

definition zeroInfo :: Info where
  "zeroInfo = \<lparr>i_WNFS = [], i_Type = 0, i_Mode = 0, i_Ctime = 0, i_Mtime = 0, i_Size = 0\<rparr>"

definition InfoFromMap :: "(string \<times> val) list \<Rightarrow> Info" where
  "InfoFromMap m =
     (let i0 = zeroInfo;
          i1 = (case map_of m ''wnfs'' of Some (VStr version) \<Rightarrow> i0\<lparr>i_WNFS := version\<rparr> | _ \<Rightarrow> i0);
          i2 = (case map_of m ''type'' of Some (VInt t) \<Rightarrow> i1\<lparr>i_Type := word_of_int t\<rparr> | _ \<Rightarrow> i1);
          i3 = (case map_of m ''mode'' of Some (VInt mode) \<Rightarrow> i2\<lparr>i_Mode := word_of_int mode\<rparr> | _ \<Rightarrow> i2);
          i4 = (case map_of m ''ctime'' of Some (VInt ctime) \<Rightarrow> i3\<lparr>i_Ctime := word_of_int ctime\<rparr> | _ \<Rightarrow> i3);
          i5 = (case map_of m ''mtime'' of Some (VInt mtime) \<Rightarrow> i4\<lparr>i_Mtime := word_of_int mtime\<rparr> | _ \<Rightarrow> i4);
          i6 = (case map_of m ''size'' of Some (VInt sz) \<Rightarrow> i5\<lparr>i_Size := word_of_int sz\<rparr> | _ \<Rightarrow> i5)
      in i6)"

record Header =
  h_Info :: "Info option"
  h_Previous :: "cid option"
  h_Merge :: "cid option"
  h_Metadata :: "cid option"
  h_Skeleton :: "cid option"
  h_Userland :: "cid option"

text \<open>
  The values \<^verbatim>\<open>Header.encodeBlock\<close> stores in its \<^verbatim>\<open>map[string]interface{}\<close>: a
  \<^verbatim>\<open>*cid.Cid\<close>, which may be the nil pointer, or the map of \<^verbatim>\<open>Info.Map()\<close>.
  \<^verbatim>\<open>cbornode.WrapObject\<close> (the codec, a library) writes a nil pointer as the CBOR null
  and a cid as a link.
\<close>

datatype goval = GoCidPtr "cid option" | GoMap "(string \<times> val) list" | GoVal val

fun encodeVal :: "goval \<Rightarrow> val" where
  "encodeVal (GoCidPtr None) = VNull"
| "encodeVal (GoCidPtr (Some c)) = VLink c"
| "encodeVal (GoMap m) = VMap m"
| "encodeVal (GoVal v) = v"

definition WrapObject :: "(string \<times> goval) list \<Rightarrow> block" where
  "WrapObject m = Node (VMap (map (\<lambda>(k, v). (k, encodeVal v)) m))"

definition Header_encodeMap :: "Header \<Rightarrow> (string \<times> goval) list" where
  "Header_encodeMap h =
     (let LDFile = [(''metadata'', GoCidPtr (h_Metadata h)),
                    (''previous'', GoCidPtr (h_Previous h)),
                    (''merge'', GoCidPtr (h_Merge h)),
                    (''skeleton'', GoCidPtr (h_Skeleton h)),
                    (''userland'', GoCidPtr (h_Userland h))]
      in case h_Info h of
           Some i \<Rightarrow> AList.update ''info'' (GoMap (Info_Map i)) LDFile
         | None \<Rightarrow> LDFile)"

definition Header_encodeBlock :: "Header \<Rightarrow> block" where
  "Header_encodeBlock h = WrapObject (Header_encodeMap h)"

text \<open>
  \<^verbatim>\<open>nd.Links()\<close> lists the entries of the decoded object that are links; a null entry
  is none. \<^verbatim>\<open>decodeHeaderBlock\<close> keeps those with one of the five names.
\<close>

definition linkNamed :: "(string \<times> val) list \<Rightarrow> string \<Rightarrow> cid option" where
  "linkNamed env name = (case map_of env name of Some (VLink c) \<Rightarrow> Some c | _ \<Rightarrow> None)"

definition decodeHeaderBlock :: "block \<Rightarrow> error + Header" where
  "decodeHeaderBlock blk =
     (case blk of
        Node (VMap env) \<Rightarrow>
          (case map_of env ''info'' of
             Some (VMap info) \<Rightarrow>
               Inr \<lparr>h_Info = Some (InfoFromMap info),
                    h_Previous = linkNamed env ''previous'',
                    h_Merge = linkNamed env ''merge'',
                    h_Metadata = linkNamed env ''metadata'',
                    h_Skeleton = linkNamed env ''skeleton'',
                    h_Userland = linkNamed env ''userland''\<rparr>
           | _ \<Rightarrow> Inl (Err ''header block is missing info field''))
      | _ \<Rightarrow> Inl (Err ''cannot decode block as a map''))"

definition loadHeader :: "world \<Rightarrow> nat \<Rightarrow> cid \<Rightarrow> error + Header" where
  "loadHeader w st c =
     (case GetBlock w st c of
        Inl e \<Rightarrow> Inl e
      | Inr blk \<Rightarrow> decodeHeaderBlock blk)"


section \<open>Results of a Put\<close>

text \<open>
  Modelled from the spec: \<^verbatim>\<open>PutResult\<close> and its methods \<^verbatim>\<open>ToLink\<close> and
  \<^verbatim>\<open>ToSkeletonInfo\<close> are declared outside the files at hand (spec, section 4.5:
  \<open>PutResult{cid, size, userland_ca, skeleton_entry, node_type}\<close>; section 3: a link is
  \<open>{name, target, is_file}\<close>, a skeleton entry
  \<open>{target, userland, metadata, sub_skeleton, is_file}\<close>). Both read the file flag off
  the node type in the same way.
\<close>

record PutResult =
  pr_Cid :: cid
  pr_Size :: "64 word"
  pr_Type :: NodeType
  pr_Userland :: cid
  pr_Metadata :: cid
  pr_Skeleton :: Skeleton

definition zeroPutResult :: PutResult where
  "zeroPutResult = \<lparr>pr_Cid = Undef, pr_Size = 0, pr_Type = 0, pr_Userland = Undef,
                      pr_Metadata = Undef, pr_Skeleton = []\<rparr>"

definition isFileType :: "NodeType \<Rightarrow> bool" where
  "isFileType t = (t = NTFile \<or> t = NTLDFile)"

definition ToLink :: "PutResult \<Rightarrow> string \<Rightarrow> Link" where
  "ToLink r name = \<lparr>l_Name = name, l_Cid = pr_Cid r, l_IsFile = isFileType (pr_Type r)\<rparr>"

definition ToSkeletonInfo :: "PutResult \<Rightarrow> skel" where
  "ToSkeletonInfo r =
     SkeletonInfo (pr_Cid r) (pr_Userland r) (pr_Metadata r) (pr_Skeleton r)
       (isFileType (pr_Type r))"

section \<open>Linked-data files\<close>

record LDFile =
  ld_store :: nat
  ld_name :: string
  ld_cid :: cid
  ld_bare :: bool
  ld_info :: "Info option"
  ld_metadata :: "cid option"
  ld_previous :: "cid option"
  ld_content :: val

definition MetadataLinkName :: string where "MetadataLinkName = ''metadata''"

definition NewLDFile :: "world \<Rightarrow> nat \<Rightarrow> string \<Rightarrow> val \<Rightarrow> LDFile \<times> world" where
  "NewLDFile w st name content =
     (case NewInfo w NTLDFile of (i, w') \<Rightarrow>
        (\<lparr>ld_store = st, ld_name = name, ld_cid = Undef, ld_bare = False,
          ld_info = Some i, ld_metadata = None, ld_previous = None,
          ld_content = content\<rparr>, w'))"

definition NewBareLDFile :: "nat \<Rightarrow> string \<Rightarrow> val \<Rightarrow> LDFile" where
  "NewBareLDFile st name content =
     \<lparr>ld_store = st, ld_name = name, ld_cid = Undef, ld_bare = True,
      ld_info = None, ld_metadata = None, ld_previous = None, ld_content = content\<rparr>"

definition decodeLDFileBlock :: "LDFile \<Rightarrow> block \<Rightarrow> error + LDFile" where
  "decodeLDFileBlock df blk =
     (case blk of
        Node (VMap env) \<Rightarrow>
          (case map_of env ''info'' of
             Some (VMap info) \<Rightarrow>
               (if i_WNFS (InfoFromMap info) = []
                then Inr (df\<lparr>ld_info := None, ld_content := VMap env\<rparr>)
                else Inr (df\<lparr>ld_info := Some (InfoFromMap info),
                             ld_content := (case map_of env ''content'' of
                                              Some v \<Rightarrow> v | None \<Rightarrow> VNull)\<rparr>))
           | _ \<Rightarrow> Inr (df\<lparr>ld_content := VMap env, ld_bare := True\<rparr>))
      | _ \<Rightarrow> Inl (Err ''cannot decode block as a map''))"

definition LoadLDFile :: "world \<Rightarrow> nat \<Rightarrow> string \<Rightarrow> cid \<Rightarrow> error + LDFile" where
  "LoadLDFile w st name c =
     (let df = \<lparr>ld_store = st, ld_name = name, ld_cid = c, ld_bare = False,
                ld_info = None, ld_metadata = None, ld_previous = None,
                ld_content = VNull\<rparr>
      in case GetBlock w st c of
           Inl e \<Rightarrow> Inl e
         | Inr blk \<Rightarrow> decodeLDFileBlock df blk)"

definition LDFile_encodeBlock :: "LDFile \<Rightarrow> block" where
  "LDFile_encodeBlock df =
     (let LDFile = [(''metadata'', GoCidPtr (ld_metadata df)),
                    (''previous'', GoCidPtr (ld_previous df)),
                    (''content'', GoVal (ld_content df))]
      in WrapObject (case ld_info df of
                       Some i \<Rightarrow> AList.update ''info'' (GoMap (Info_Map i)) LDFile
                     | None \<Rightarrow> LDFile))"

text \<open>
  \<^verbatim>\<open>LDFile.Put\<close> and \<^verbatim>\<open>File.Put\<close> set the previous pointer to the address of the
  cid field of the node (\<^verbatim>\<open>&df.cid\<close>, \<^verbatim>\<open>&f.cid\<close>), encode the block, and then
  overwrite that field with the new cid: the block holds the old cid as \<open>previous\<close>,
  and the previous pointer of the node in memory reads the new cid afterwards.
  (\<^verbatim>\<open>Tree.Put\<close> copies the cid first.)
\<close>

definition LDFile_Put :: "world \<Rightarrow> LDFile \<Rightarrow> PutResult \<times> LDFile \<times> world" where
  "LDFile_Put w df =
     (if ld_bare df then
        (let blk = Node (ld_content df);
             sz = blockSize w (ld_content df);
             w' = PutBlock w (ld_store df) blk
         in (zeroPutResult\<lparr>pr_Cid := block_Cid blk, pr_Size := of_nat sz,
                           pr_Userland := block_Cid blk, pr_Type := NTLDFile\<rparr>,
             df\<lparr>ld_cid := block_Cid blk\<rparr>, w'))
      else
        (let df1 = (if Defined (ld_cid df) then df\<lparr>ld_previous := Some (ld_cid df)\<rparr> else df);
             i = (case ld_info df1 of Some i \<Rightarrow> i | None \<Rightarrow> zeroInfo);
             df2 = df1\<lparr>ld_info := Some i\<rparr>;
             blk = LDFile_encodeBlock df2;
             df3 = df2\<lparr>ld_cid := block_Cid blk,
                        ld_previous := (if Defined (ld_cid df) then Some (block_Cid blk)
                                        else ld_previous df2)\<rparr>;
             w' = PutBlock w (ld_store df) blk
         in (zeroPutResult\<lparr>pr_Cid := ld_cid df3, pr_Size := i_Size i,
                           pr_Userland := ld_cid df3, pr_Type := i_Type i\<rparr>,
             df3, w')))"

section \<open>Files\<close>

text \<open>
  The content of a file is the bytes its reader yields; \<open>None\<close> is the nil reader of a
  file loaded from the store and not read yet. A file handed to \<^verbatim>\<open>Add\<close> is either an
  opaque byte file (with the value of its \<^verbatim>\<open>metaWrap\<close> when it is wrapped) or a
  linked-data file with its content.
\<close>

datatype infile = OpaqueIn "nat list" "val option option" | LDIn val

record File =
  f_store :: nat
  f_name :: string
  f_cid :: cid
  f_h :: Header
  f_metadata :: "LDFile option"
  f_content :: "nat list option"

definition emptyHeader :: "Info \<Rightarrow> Header" where
  "emptyHeader i = \<lparr>h_Info = Some i, h_Previous = None, h_Merge = None, h_Metadata = None,
                     h_Skeleton = None, h_Userland = None\<rparr>"

definition NewFileMetadata ::
  "world \<Rightarrow> nat \<Rightarrow> string \<Rightarrow> nat list \<Rightarrow> val option \<Rightarrow> File \<times> world" where
  "NewFileMetadata w st name content meta =
     (let md = (case meta of Some m \<Rightarrow> Some (NewBareLDFile st MetadataLinkName m)
                           | None \<Rightarrow> None)
      in case NewInfo w NTFile of (i, w') \<Rightarrow>
           (\<lparr>f_store = st, f_name = name, f_cid = Undef, f_h = emptyHeader i,
             f_metadata = md, f_content = Some content\<rparr>, w'))"

text \<open>
  \<^verbatim>\<open>metaWrap.Metadata()\<close> builds a linked-data file with \<^verbatim>\<open>NewLDFile\<close>, which reads
  the clock; its \<^verbatim>\<open>Data()\<close> is the wrapped value.
\<close>

definition NewFile :: "world \<Rightarrow> nat \<Rightarrow> string \<Rightarrow> nat list \<Rightarrow> val option option \<Rightarrow> File \<times> world" where
  "NewFile w st name content wrapped =
     (case wrapped of
        Some m \<Rightarrow>
          (case NewLDFile w 0 MetadataLinkName (case m of Some v \<Rightarrow> v | None \<Rightarrow> VNull) of
             (md, w') \<Rightarrow> NewFileMetadata w' st name content m)
      | None \<Rightarrow> NewFileMetadata w st name content None)"

definition fileFromHeader ::
  "world \<Rightarrow> nat \<Rightarrow> Header \<Rightarrow> string \<Rightarrow> cid \<Rightarrow> error + File" where
  "fileFromHeader w st h name c =
     (case (case h_Metadata h of
              Some m \<Rightarrow> (case LoadLDFile w st MetadataLinkName m of
                           Inl e \<Rightarrow> Inl e | Inr md \<Rightarrow> Inr (Some md))
            | None \<Rightarrow> Inr None) of
        Inl e \<Rightarrow> Inl e
      | Inr md \<Rightarrow>
          (if h_Userland h = None then Inl (Err ''Header is missing userland link'')
           else Inr \<lparr>f_store = st, f_name = name, f_cid = c, f_h = h,
                     f_metadata = md, f_content = None\<rparr>))"

definition LoadFile :: "world \<Rightarrow> nat \<Rightarrow> string \<Rightarrow> cid \<Rightarrow> error + File" where
  "LoadFile w st name c =
     (case loadHeader w st c of
        Inl e \<Rightarrow> Inl e
      | Inr h \<Rightarrow> fileFromHeader w st h name c)"

definition File_SetFile :: "world \<Rightarrow> File \<Rightarrow> nat list \<Rightarrow> val option option \<Rightarrow> File \<times> world" where
  "File_SetFile w f content wrapped =
     (let f1 = f\<lparr>f_content := Some content\<rparr>
      in case wrapped of
           Some m \<Rightarrow>
             (case NewLDFile w 0 MetadataLinkName (case m of Some v \<Rightarrow> v | None \<Rightarrow> VNull) of
                (md, w') \<Rightarrow>
                  (f1\<lparr>f_metadata := Some (NewBareLDFile (f_store f) MetadataLinkName
                                            (ld_content md))\<rparr>, w'))
         | None \<Rightarrow> (f1, w))"

definition File_Put :: "world \<Rightarrow> File \<Rightarrow> error + (PutResult \<times> File \<times> world)" where
  "File_Put w f =
     (case f_content f of
        None \<Rightarrow> Inl (Panic ''nil reader'')
      | Some bytes \<Rightarrow>
          (case PutFile w (f_store f) bytes of (userlandRes, w1) \<Rightarrow>
             (let h1 = (f_h f)\<lparr>h_Userland := Some (pf_Cid userlandRes)\<rparr>
              in case (case f_metadata f of
                         Some md \<Rightarrow> (case LDFile_Put w1 md of (res, md', w2) \<Rightarrow>
                                       (h1\<lparr>h_Metadata := Some (pr_Cid res)\<rparr>, Some md', w2))
                       | None \<Rightarrow> (h1, None, w1)) of
                   (h2, md2, w2) \<Rightarrow>
                     (let h3 = (if Defined (f_cid f) then h2\<lparr>h_Previous := Some (f_cid f)\<rparr>
                                else h2);
                          blk = Header_encodeBlock h3;
                          f' = f\<lparr>f_h := (if Defined (f_cid f)
                                        then h3\<lparr>h_Previous := Some (block_Cid blk)\<rparr> else h3),
                                 f_metadata := md2, f_cid := block_Cid blk\<rparr>;
                          w3 = PutBlock w2 (f_store f) blk
                      in case h_Info h3 of
                           None \<Rightarrow> Inl (Panic ''nil Info'')
                         | Some i \<Rightarrow>
                             Inr (zeroPutResult\<lparr>pr_Cid := f_cid f', pr_Size := i_Size i,
                                                 pr_Userland := pf_Cid userlandRes,
                                                 pr_Type := i_Type i\<rparr>, f', w3)))))"

section \<open>Trees\<close>

record Tree =
  t_store :: nat
  t_name :: string
  t_cid :: cid
  t_h :: Header
  t_metadata :: "LDFile option"
  t_skeleton :: Skeleton
  t_userland :: Links

datatype node = TreeNode Tree | FileNode File | LDFileNode LDFile

definition NewEmptyTree :: "world \<Rightarrow> nat \<Rightarrow> string \<Rightarrow> Tree \<times> world" where
  "NewEmptyTree w st name =
     (case NewInfo w NTDir of (i, w') \<Rightarrow>
        (\<lparr>t_store = st, t_name = name, t_cid = Undef, t_h = emptyHeader i,
          t_metadata = None, t_skeleton = [], t_userland = NewLinks\<rparr>, w'))"

text \<open>
  Modelled from the spec: \<^verbatim>\<open>LoadSkeleton\<close> and \<^verbatim>\<open>base.DecodeLinksBlock\<close> are
  declared outside the files at hand. The skeleton is read back from the file
  \<^verbatim>\<open>Put\<close> wrote; decoding a link block fails when names collide or a name is empty
  (spec, section 4.1).
\<close>

definition LoadSkeleton :: "world \<Rightarrow> nat \<Rightarrow> cid \<Rightarrow> error + Skeleton" where
  "LoadSkeleton w st c =
     (case GetBlock w st c of
        Inl e \<Rightarrow> Inl e
      | Inr (SkeletonBlock sk) \<Rightarrow> Inr sk
      | Inr _ \<Rightarrow> Inl (Err ''malformed skeleton''))"

definition DecodeLinksBlock :: "block \<Rightarrow> error + Links" where
  "DecodeLinksBlock blk =
     (case blk of
        LinksBlock ls \<Rightarrow>
          (if distinct (map fst ls) \<and> [] \<notin> set (map fst ls) then Inr ls
           else Inl (Err ''malformed link block''))
      | _ \<Rightarrow> Inl (Err ''malformed link block''))"

definition treeFromHeader ::
  "world \<Rightarrow> nat \<Rightarrow> Header \<Rightarrow> string \<Rightarrow> cid \<Rightarrow> error + Tree" where
  "treeFromHeader w st h name c =
     (case h_Info h of
        None \<Rightarrow> Inl (Panic ''nil Info'')
      | Some i \<Rightarrow>
          if i_Type i \<noteq> NTDir then Inl (Err ''expected file to be a tree'')
          else case h_Skeleton h of
            None \<Rightarrow> Inl (Err ''header is missing skeleton link'')
          | Some skc \<Rightarrow>
              (case LoadSkeleton w st skc of
                 Inl e \<Rightarrow> Inl e
               | Inr sk \<Rightarrow>
                   (case h_Userland h of
                      None \<Rightarrow> Inl (Err ''header is missing userland link'')
                    | Some uc \<Rightarrow>
                        (case GetBlock w st uc of
                           Inl e \<Rightarrow> Inl e
                         | Inr blk \<Rightarrow>
                             (case DecodeLinksBlock blk of
                                Inl e \<Rightarrow> Inl e
                              | Inr userland \<Rightarrow>
                                  Inr \<lparr>t_store = st, t_name = name, t_cid = c, t_h = h,
                                       t_metadata = None, t_skeleton = sk,
                                       t_userland = userland\<rparr>)))))"

definition LoadTree :: "world \<Rightarrow> nat \<Rightarrow> string \<Rightarrow> cid \<Rightarrow> error + Tree" where
  "LoadTree w st name c =
     (case loadHeader w st c of
        Inl e \<Rightarrow> Inl e
      | Inr h \<Rightarrow> treeFromHeader w st h name c)"

definition loadNode :: "world \<Rightarrow> nat \<Rightarrow> string \<Rightarrow> cid \<Rightarrow> error + node" where
  "loadNode w st name c =
     (case loadHeader w st c of
        Inl e \<Rightarrow> Inl e
      | Inr h \<Rightarrow>
          (case h_Info h of
             None \<Rightarrow> Inl (Err ''not a valid wnfs Header'')
           | Some i \<Rightarrow>
               if i_Type i = NTFile then
                 (case fileFromHeader w st h name c of
                    Inl e \<Rightarrow> Inl e | Inr f \<Rightarrow> Inr (FileNode f))
               else if i_Type i = NTLDFile then
                 (case GetBlock w st c of
                    Inl e \<Rightarrow> Inl e
                  | Inr blk \<Rightarrow>
                      (case decodeLDFileBlock
                              \<lparr>ld_store = st, ld_name = name, ld_cid = c, ld_bare = False,
                               ld_info = None, ld_metadata = None, ld_previous = None,
                               ld_content = VNull\<rparr> blk of
                         Inl e \<Rightarrow> Inl e | Inr df \<Rightarrow> Inr (LDFileNode df)))
               else if i_Type i = NTDir then
                 (case treeFromHeader w st h name c of
                    Inl e \<Rightarrow> Inl e | Inr t \<Rightarrow> Inr (TreeNode t))
               else Inl (Err ''unrecognized node type'')))"

definition loadNodeFromSkeletonInfo :: "world \<Rightarrow> nat \<Rightarrow> string \<Rightarrow> skel \<Rightarrow> error + node" where
  "loadNodeFromSkeletonInfo w st name info =
     (if sk_IsFile info then
        (case LoadFile w st name (sk_Cid info) of
           Inl e \<Rightarrow> Inl e | Inr f \<Rightarrow> Inr (FileNode f))
      else
        (case LoadTree w st name (sk_Cid info) of
           Inl e \<Rightarrow> Inl e | Inr t \<Rightarrow> Inr (TreeNode t)))"

text \<open>
  The accessors of \<^verbatim>\<open>fs.FileInfo\<close>. \<^verbatim>\<open>time.Unix(sec, 0)\<close> is the pair of its
  arguments; reading a field of the nil \<^verbatim>\<open>Info\<close> panics.
\<close>

datatype Time = Unix "64 word" "64 word"

definition Tree_ModTime :: "Tree \<Rightarrow> error + Time" where
  "Tree_ModTime t =
     (case h_Info (t_h t) of
        None \<Rightarrow> Inl (Panic ''nil Info'')
      | Some i \<Rightarrow> Inr (Unix (i_Ctime i) 0))"

definition File_ModTime :: "File \<Rightarrow> error + Time" where
  "File_ModTime f =
     (case h_Info (f_h f) of
        None \<Rightarrow> Inl (Panic ''nil Info'')
      | Some i \<Rightarrow> Inr (Unix (i_Mtime i) 0))"

definition Tree_Size :: "Tree \<Rightarrow> error + 64 word" where
  "Tree_Size t =
     (case h_Info (t_h t) of
        None \<Rightarrow> Inl (Panic ''nil Info'')
      | Some i \<Rightarrow> Inr (i_Size i))"

definition File_Size :: "File \<Rightarrow> error + 64 word" where
  "File_Size f =
     (case h_Info (f_h f) of
        None \<Rightarrow> Inl (Panic ''nil Info'')
      | Some i \<Rightarrow> Inr (i_Size i))"

text \<open>
  Modelled from the spec: \<^verbatim>\<open>base.Path\<close> is a list of segments and \<^verbatim>\<open>Shift\<close> splits
  it into its head and tail (spec, section 4.5); the head of the empty path is the empty
  string and the tail of a path of one segment is nil.
\<close>

type_synonym Path = "string list"

definition Shift :: "Path \<Rightarrow> string \<times> Path option" where
  "Shift path =
     (case path of
        [] \<Rightarrow> ([], None)
      | [h] \<Rightarrow> (h, None)
      | h # x # xs \<Rightarrow> (h, Some (x # xs)))"

function Tree_Get :: "world \<Rightarrow> Tree \<Rightarrow> Path \<Rightarrow> error + node" where
  "Tree_Get w t path =
     (case Shift path of (head, tail) \<Rightarrow>
        if head = [] then Inr (TreeNode t)
        else case Links_Get (t_userland t) head of
          None \<Rightarrow> Inl ErrNotFound
        | Some link \<Rightarrow>
            (case tail of
               Some rest \<Rightarrow>
                 (case LoadTree w (t_store t) head (l_Cid link) of
                    Inl e \<Rightarrow> Inl e
                  | Inr ch \<Rightarrow> Tree_Get w ch rest)
             | None \<Rightarrow> loadNode w (t_store t) (l_Name link) (l_Cid link)))"
  by pat_completeness auto
termination
  by (relation "measure (\<lambda>(w, t, path). length path)")
     (auto simp: Shift_def split: list.splits)

definition updateUserlandLink :: "world \<Rightarrow> Tree \<Rightarrow> string \<Rightarrow> PutResult \<Rightarrow> Tree \<times> world" where
  "updateUserlandLink w t name res =
     (case Timestamp w of (ts, w') \<Rightarrow>
        (t\<lparr>t_userland := Links_Add (t_userland t) (ToLink res name),
           t_skeleton := AList.update name (ToSkeletonInfo res) (t_skeleton t),
           t_h := (t_h t)\<lparr>h_Info := map_option (\<lambda>i. i\<lparr>i_Mtime := ts\<rparr>) (h_Info (t_h t)),
                          h_Merge := None\<rparr>\<rparr>, w'))"

definition removeUserlandLink :: "world \<Rightarrow> Tree \<Rightarrow> string \<Rightarrow> Tree \<times> world" where
  "removeUserlandLink w t name =
     (case Timestamp w of (ts, w') \<Rightarrow>
        (t\<lparr>t_userland := Links_Remove (t_userland t) name,
           t_skeleton := AList.delete name (t_skeleton t),
           t_h := (t_h t)\<lparr>h_Info := map_option (\<lambda>i. i\<lparr>i_Mtime := ts\<rparr>) (h_Info (t_h t)),
                          h_Merge := None\<rparr>\<rparr>, w'))"

definition Tree_Put :: "world \<Rightarrow> Tree \<Rightarrow> error + (PutResult \<times> Tree \<times> world)" where
  "Tree_Put w t =
     (let blk = LinksBlock (t_userland t);
          w1 = PutBlock w (t_store t) blk;
          h1 = (t_h t)\<lparr>h_Userland := Some (block_Cid blk)\<rparr>
      in case (case t_metadata t of
                 Some md \<Rightarrow> (case LDFile_Put w1 md of (res, md', w2) \<Rightarrow>
                               (h1\<lparr>h_Metadata := Some (ld_cid md')\<rparr>, Some md', w2))
               | None \<Rightarrow> (h1, None, w1)) of
           (h2, md2, w2) \<Rightarrow>
             (let skf = SkeletonBlock (t_skeleton t);
                  w3 = PutBlock w2 (t_store t) skf;
                  h3 = h2\<lparr>h_Skeleton := Some (block_Cid skf)\<rparr>;
                  h4 = (if Defined (t_cid t) then h3\<lparr>h_Previous := Some (t_cid t)\<rparr> else h3);
                  blk' = Header_encodeBlock h4;
                  w4 = PutBlock w3 (t_store t) blk';
                  t' = t\<lparr>t_h := h4, t_metadata := md2, t_cid := block_Cid blk'\<rparr>
              in case h_Info h4 of
                   None \<Rightarrow> Inl (Panic ''nil Info'')
                 | Some i \<Rightarrow>
                     Inr (zeroPutResult\<lparr>pr_Cid := t_cid t', pr_Size := i_Size i,
                                         pr_Userland := block_Cid blk,
                                         pr_Skeleton := t_skeleton t'\<rparr>, t', w4)))"

definition getOrCreateDirectChildTree ::
  "world \<Rightarrow> Tree \<Rightarrow> string \<Rightarrow> error + (Tree \<times> world)" where
  "getOrCreateDirectChildTree w t name =
     (case Links_Get (t_userland t) name of
        None \<Rightarrow> Inr (NewEmptyTree w (t_store t) name)
      | Some link \<Rightarrow>
          (case LoadTree w (t_store t) name (l_Cid link) of
             Inl e \<Rightarrow> Inl e
           | Inr ch \<Rightarrow> Inr (ch, w)))"

function Tree_Mkdir :: "world \<Rightarrow> Tree \<Rightarrow> Path \<Rightarrow> error + (PutResult \<times> Tree \<times> world)" where
  "Tree_Mkdir w t path =
     (if length path < 1 then Inl (Err ''invalid path: empty'')
      else case Shift path of (head, tail) \<Rightarrow>
        (case getOrCreateDirectChildTree w t head of
           Inl e \<Rightarrow> Inl e
         | Inr (childDir, w1) \<Rightarrow>
             (case (case tail of
                      None \<Rightarrow>
                        (case Tree_Put w1 childDir of
                           Inl e \<Rightarrow> Inl e
                         | Inr (res, childDir', w2) \<Rightarrow> Inr (res, t, w2))
                    | Some rest \<Rightarrow> Tree_Mkdir w1 t rest) of
                Inl e \<Rightarrow> Inl e
              | Inr (res, t1, w2) \<Rightarrow>
                  (case updateUserlandLink w2 t1 head res of (t2, w3) \<Rightarrow>
                     Tree_Put w3 t2))))"
  by pat_completeness auto
termination
  by (relation "measure (\<lambda>(w, t, path). length path)")
     (auto simp: Shift_def split: list.splits)

function Tree_Rm :: "world \<Rightarrow> Tree \<Rightarrow> Path \<Rightarrow> error + (PutResult \<times> Tree \<times> world)" where
  "Tree_Rm w t path =
     (case Shift path of (head, tail) \<Rightarrow>
        if head = [] then Inl (Err ''invalid path: empty'')
        else
          (case (case tail of
                   None \<Rightarrow> Inr (removeUserlandLink w t head)
                 | Some rest \<Rightarrow>
                     (case Links_Get (t_userland t) head of
                        None \<Rightarrow> Inl ErrNotFound
                      | Some link \<Rightarrow>
                          (case LoadTree w (t_store t) head (l_Cid link) of
                             Inl e \<Rightarrow> Inl e
                           | Inr child \<Rightarrow>
                               (case Tree_Rm w child rest of
                                  Inl e \<Rightarrow> Inl e
                                | Inr (res, child', w1) \<Rightarrow>
                                    Inr (updateUserlandLink w1 t head res))))) of
             Inl e \<Rightarrow> Inl e
           | Inr (t1, w2) \<Rightarrow> Tree_Put w2 t1))"
  by pat_completeness auto
termination
  by (relation "measure (\<lambda>(w, t, path). length path)")
     (auto simp: Shift_def split: list.splits)

section \<open>History\<close>

record HistoryEntry =
  he_Cid :: cid
  he_Previous :: "cid option"
  he_Size :: "64 word"
  he_Type :: NodeType
  he_Mtime :: "64 word"

definition entryOf :: "cid \<Rightarrow> Header \<Rightarrow> error + HistoryEntry" where
  "entryOf c h =
     (case h_Info h of
        None \<Rightarrow> Inl (Panic ''nil Info'')
      | Some i \<Rightarrow>
          Inr \<lparr>he_Cid = c, he_Previous = h_Previous h, he_Size = i_Size i,
               he_Type = i_Type i, he_Mtime = i_Mtime i\<rparr>)"

definition Tree_AsHistoryEntry :: "Tree \<Rightarrow> error + HistoryEntry" where
  "Tree_AsHistoryEntry t = entryOf (t_cid t) (t_h t)"

definition File_AsHistoryEntry :: "File \<Rightarrow> error + HistoryEntry" where
  "File_AsHistoryEntry f = entryOf (f_cid f) (f_h f)"

definition loadHistoryEntry :: "world \<Rightarrow> nat \<Rightarrow> cid \<Rightarrow> error + HistoryEntry" where
  "loadHistoryEntry w st c =
     (case loadHeader w st c of
        Inl e \<Rightarrow> Inl e
      | Inr h \<Rightarrow> entryOf c h)"

lemma map_of_size:
  "map_of env k = Some v \<Longrightarrow> size v < size_list (size_prod (\<lambda>_. 0) size) env"
  by (induction env) (auto split: if_splits)

lemma linkNamed_size:
  "linkNamed env k = Some q \<Longrightarrow> size q < size_list (size_prod (\<lambda>_. 0) size) env"
  unfolding linkNamed_def
  by (auto split: option.splits val.splits dest!: map_of_size)

lemma loadHeader_Previous_size:
  "loadHeader w st p = Inr h \<Longrightarrow> h_Previous h = Some q \<Longrightarrow> size q < size p"
  unfolding loadHeader_def GetBlock_def decodeHeaderBlock_def
  by (auto split: cid.splits if_splits sum.splits block.splits val.splits option.splits
           dest!: linkNamed_size)

lemma loadHistoryEntry_Previous_size:
  "loadHistoryEntry w st p = Inr ent \<Longrightarrow> he_Previous ent = Some q \<Longrightarrow> size q < size p"
  unfolding loadHistoryEntry_def entryOf_def
  by (auto split: sum.splits option.splits dest: loadHeader_Previous_size)

text \<open>
  The loop of \<^verbatim>\<open>history\<close>: \<open>log\<close> and \<open>prev\<close> are its two variables. It ends
  because a block holds the cid of its predecessor, which is therefore smaller.
\<close>

function history_loop ::
  "world \<Rightarrow> nat \<Rightarrow> HistoryEntry list \<Rightarrow> cid option \<Rightarrow> int \<Rightarrow> error + HistoryEntry list" where
  "history_loop w st log prev maxN =
     (case prev of
        None \<Rightarrow> Inr log
      | Some p \<Rightarrow>
          (case loadHistoryEntry w st p of
             Inl e \<Rightarrow> Inl e
           | Inr ent \<Rightarrow>
               (let log' = log @ [ent]
                in if int (length log') = maxN then Inr log'
                   else history_loop w st log' (he_Previous ent) maxN)))"
  by pat_completeness auto
termination
  by (relation "measure (\<lambda>(w, st, log, prev, maxN). case prev of None \<Rightarrow> 0 | Some p \<Rightarrow> Suc (size p))")
     (auto split: option.splits dest: loadHistoryEntry_Previous_size)

definition history :: "world \<Rightarrow> nat \<Rightarrow> error + HistoryEntry \<Rightarrow> int \<Rightarrow> error + HistoryEntry list" where
  "history w st first maxN =
     (case first of
        Inl e \<Rightarrow> Inl e
      | Inr ent \<Rightarrow> history_loop w st [ent] (he_Previous ent) maxN)"

definition Tree_History :: "world \<Rightarrow> Tree \<Rightarrow> int \<Rightarrow> error + HistoryEntry list" where
  "Tree_History w t maxN = history w (t_store t) (Tree_AsHistoryEntry t) maxN"

definition File_History :: "world \<Rightarrow> File \<Rightarrow> int \<Rightarrow> error + HistoryEntry list" where
  "File_History w f maxN = history w (f_store f) (File_AsHistoryEntry f) maxN"

definition blockEntries :: "block \<Rightarrow> (string \<times> val) list" where
  "blockEntries blk = (case blk of Node (VMap m) \<Rightarrow> m | _ \<Rightarrow> [])"

definition ptrVal :: "cid option \<Rightarrow> val" where
  "ptrVal p = (case p of None \<Rightarrow> VNull | Some c \<Rightarrow> VLink c)"

section \<open>Add and Copy\<close>

declare Tree_Get.simps [simp del] Tree_Mkdir.simps [simp del] Tree_Rm.simps [simp del]
  history_loop.simps [simp del]

definition createOrUpdateChildLDFile ::
  "world \<Rightarrow> Tree \<Rightarrow> string \<Rightarrow> val \<Rightarrow> error + (PutResult \<times> world)" where
  "createOrUpdateChildLDFile w t name content =
     (case Links_Get (t_userland t) name of
        Some link \<Rightarrow>
          (case LoadLDFile w (t_store t) name (l_Cid link) of
             Inl e \<Rightarrow> Inl e
           | Inr prev \<Rightarrow>
               (case LDFile_Put w (prev\<lparr>ld_content := content\<rparr>) of
                  (res, prev', w') \<Rightarrow> Inr (res, w')))
      | None \<Rightarrow>
          (case NewLDFile w (t_store t) name content of
             (df, w1) \<Rightarrow> (case LDFile_Put w1 df of (res, df', w') \<Rightarrow> Inr (res, w'))))"

definition createOrUpdateChildFile ::
  "world \<Rightarrow> Tree \<Rightarrow> string \<Rightarrow> infile \<Rightarrow> error + (PutResult \<times> world)" where
  "createOrUpdateChildFile w t name f =
     (case f of
        LDIn content \<Rightarrow> createOrUpdateChildLDFile w t name content
      | OpaqueIn bytes wrapped \<Rightarrow>
          (case Links_Get (t_userland t) name of
             Some link \<Rightarrow>
               (case LoadFile w (t_store t) name (l_Cid link) of
                  Inl e \<Rightarrow> Inl e
                | Inr previousFile \<Rightarrow>
                    (case File_SetFile w previousFile bytes wrapped of
                       (pf, w1) \<Rightarrow>
                         (case File_Put w1 pf of
                            Inl e \<Rightarrow> Inl e
                          | Inr (res, pf', w') \<Rightarrow> Inr (res, w'))))
           | None \<Rightarrow>
               (case NewFile w (t_store t) name bytes wrapped of
                  (ch, w1) \<Rightarrow>
                    (case File_Put w1 ch of
                       Inl e \<Rightarrow> Inl e
                     | Inr (res, ch', w') \<Rightarrow> Inr (res, w')))))"

function Tree_Add ::
  "world \<Rightarrow> Tree \<Rightarrow> Path \<Rightarrow> infile \<Rightarrow> error + (PutResult \<times> Tree \<times> world)" where
  "Tree_Add w t path f =
     (if length path = 0 then Inl (Err ''invalid path: empty'')
      else case Shift path of (head, tail) \<Rightarrow>
        (case (case tail of
                 None \<Rightarrow> createOrUpdateChildFile w t head f
               | Some rest \<Rightarrow>
                   (case getOrCreateDirectChildTree w t head of
                      Inl e \<Rightarrow> Inl e
                    | Inr (childDir, w1) \<Rightarrow>
                        (case Tree_Add w1 childDir rest f of
                           Inl e \<Rightarrow> Inl e
                         | Inr (res, childDir', w2) \<Rightarrow> Inr (res, w2)))) of
           Inl e \<Rightarrow> Inl e
         | Inr (res, w2) \<Rightarrow>
             (case updateUserlandLink w2 t head res of (t2, w3) \<Rightarrow> Tree_Put w3 t2)))"
  by pat_completeness auto
termination
  by (relation "measure (\<lambda>(w, t, path, f). length path)")
     (auto simp: Shift_def split: list.splits)

declare Tree_Add.simps [simp del]

text \<open>
  The source of a \<^verbatim>\<open>Copy\<close>: what \<^verbatim>\<open>srcFS.Open\<close> returns at a path, a file or a
  directory with its entries (\<^verbatim>\<open>ReadDir(-1)\<close>), each entry with the node that
  \<^verbatim>\<open>srcFS.Open\<close> returns at the joined path; \<open>None\<close> when \<^verbatim>\<open>Open\<close> fails.
  \<^verbatim>\<open>createOrUpdateChildDirectory\<close> returns the result of its last entry, the nil
  \<^verbatim>\<open>PutResult\<close> when the directory is empty; \<^verbatim>\<open>updateUserlandLink\<close> then calls a
  method of nil.
\<close>

datatype srcnode = SrcFile infile | SrcDir "(string \<times> srcnode) list"

function Tree_Copy ::
    "world \<Rightarrow> Tree \<Rightarrow> Path \<Rightarrow> srcnode option \<Rightarrow> error + (PutResult \<times> Tree \<times> world)"
  and createOrUpdateChild ::
    "world \<Rightarrow> Tree \<Rightarrow> string \<Rightarrow> srcnode \<Rightarrow> error + (PutResult option \<times> world)"
  and copyEntries ::
    "world \<Rightarrow> Tree \<Rightarrow> (string \<times> srcnode) list \<Rightarrow> PutResult option \<Rightarrow>
       error + (PutResult option \<times> world)" where
  "Tree_Copy w t path src =
     (if length path = 0 then Inl (Err ''invalid path: empty'')
      else case Shift path of (head, tail) \<Rightarrow>
        (case (case tail of
                 None \<Rightarrow>
                   (case src of
                      None \<Rightarrow> Inl (Err ''open'')
                    | Some f \<Rightarrow> createOrUpdateChild w t head f)
               | Some rest \<Rightarrow>
                   (case getOrCreateDirectChildTree w t head of
                      Inl e \<Rightarrow> Inl e
                    | Inr (childDir, w1) \<Rightarrow>
                        (case Tree_Copy w1 childDir rest src of
                           Inl e \<Rightarrow> Inl e
                         | Inr (res, childDir', w2) \<Rightarrow> Inr (Some res, w2)))) of
           Inl e \<Rightarrow> Inl e
         | Inr (None, w2) \<Rightarrow> Inl (Panic ''nil PutResult'')
         | Inr (Some res, w2) \<Rightarrow>
             (case updateUserlandLink w2 t head res of (t2, w3) \<Rightarrow> Tree_Put w3 t2)))"
| "createOrUpdateChild w t name (SrcFile f) =
     (case createOrUpdateChildFile w t name f of
        Inl e \<Rightarrow> Inl e
      | Inr (res, w') \<Rightarrow> Inr (Some res, w'))"
| "createOrUpdateChild w t name (SrcDir ents) =
     (case (case Links_Get (t_userland t) name of
              Some link \<Rightarrow>
                (case LoadTree w (t_store t) name (l_Cid link) of
                   Inl e \<Rightarrow> Inl e
                 | Inr tree \<Rightarrow> Inr (tree, w))
            | None \<Rightarrow> Inr (NewEmptyTree w (t_store t) name)) of
        Inl e \<Rightarrow> Inl e
      | Inr (tree, w1) \<Rightarrow> copyEntries w1 tree ents None)"
| "copyEntries w tree [] res = Inr (res, w)"
| "copyEntries w tree (ent # ents) res =
     (case Tree_Copy w tree [fst ent] (Some (snd ent)) of
        Inl e \<Rightarrow> Inl e
      | Inr (res', tree', w') \<Rightarrow> copyEntries w' tree' ents (Some res'))"
  by pat_completeness auto
termination
  by (relation "inv_image (less_than <*lex*> less_than)
        (\<lambda>x. case x of
           Inl (w, t, path, src) \<Rightarrow> (case src of None \<Rightarrow> 0 | Some f \<Rightarrow> size f, length path + 1)
         | Inr (Inl (w, t, name, f)) \<Rightarrow> (size f, 0)
         | Inr (Inr (w, tree, ents, res)) \<Rightarrow> (size_list (size_prod (\<lambda>_. 0) size) ents, 0))")
     (auto simp: Shift_def split: list.splits)

declare Tree_Copy.simps [simp del]

section \<open>Merge\<close>

text \<open>
  \<^verbatim>\<open>merge.go\<close> is written against declarations that are outside the files at hand
  (\<^verbatim>\<open>PublicTree\<close>, \<^verbatim>\<open>header\<close>, \<^verbatim>\<open>base.MergeResult\<close>, \<^verbatim>\<open>base.LessCID\<close>,
  \<^verbatim>\<open>mdstore.CopyBlocks\<close>, \<^verbatim>\<open>AsLink\<close>). Its functions are modelled over the trees and
  files above: \<^verbatim>\<open>a.h.cid\<close> is the cid of the node, \<^verbatim>\<open>a.fs\<close> its store, and the
  modification time of \<^verbatim>\<open>a.metadata.UnixMeta\<close> the \<open>mtime\<close> of its info. The order
  \<^verbatim>\<open>base.LessCID\<close> on cids is a parameter \<open>lt\<close>.
\<close>

datatype MergeType = MTInSync | MTMergeCommit | MTFastForward | MTLocalAhead

record MergeResult =
  mr_Type :: MergeType
  mr_Cid :: cid
  mr_Userland :: cid
  mr_Metadata :: cid
  mr_Size :: "64 word"
  mr_IsFile :: bool

definition zeroMergeResult :: MergeResult where
  "zeroMergeResult = \<lparr>mr_Type = MTInSync, mr_Cid = Undef, mr_Userland = Undef,
                        mr_Metadata = Undef, mr_Size = 0, mr_IsFile = False\<rparr>"

definition mergeResultToSkeletonInfo :: "MergeResult \<Rightarrow> skel" where
  "mergeResultToSkeletonInfo mr =
     SkeletonInfo (mr_Cid mr) (mr_Userland mr) (mr_Metadata mr) [] (mr_IsFile mr)"

definition mergeResultToLink :: "MergeResult \<Rightarrow> string \<Rightarrow> Link" where
  "mergeResultToLink mr name = \<lparr>l_Name = name, l_Cid = mr_Cid mr, l_IsFile = mr_IsFile mr\<rparr>"

definition LDFile_AsHistoryEntry :: "LDFile \<Rightarrow> error + HistoryEntry" where
  "LDFile_AsHistoryEntry df =
     (case ld_info df of
        None \<Rightarrow> Inl (Panic ''nil Info'')
      | Some i \<Rightarrow>
          Inr \<lparr>he_Cid = ld_cid df, he_Previous = ld_previous df, he_Size = i_Size i,
               he_Type = i_Type i, he_Mtime = i_Mtime i\<rparr>)"

fun node_AsHistoryEntry :: "node \<Rightarrow> error + HistoryEntry" where
  "node_AsHistoryEntry (TreeNode t) = Tree_AsHistoryEntry t"
| "node_AsHistoryEntry (FileNode f) = File_AsHistoryEntry f"
| "node_AsHistoryEntry (LDFileNode df) = LDFile_AsHistoryEntry df"

fun node_Cid :: "node \<Rightarrow> cid" where
  "node_Cid (TreeNode t) = t_cid t"
| "node_Cid (FileNode f) = f_cid f"
| "node_Cid (LDFileNode df) = ld_cid df"

fun node_name :: "node \<Rightarrow> string" where
  "node_name (TreeNode t) = t_name t"
| "node_name (FileNode f) = f_name f"
| "node_name (LDFileNode df) = ld_name df"

fun node_store :: "node \<Rightarrow> nat" where
  "node_store (TreeNode t) = t_store t"
| "node_store (FileNode f) = f_store f"
| "node_store (LDFileNode df) = ld_store df"

fun node_IsDir :: "node \<Rightarrow> bool" where
  "node_IsDir (TreeNode t) = True"
| "node_IsDir (FileNode f) = False"
| "node_IsDir (LDFileNode df) = False"

definition AsLink :: "node \<Rightarrow> Link" where
  "AsLink n = \<lparr>l_Name = node_name n, l_Cid = node_Cid n, l_IsFile = (\<not> node_IsDir n)\<rparr>"

text \<open>
  Modelled from the spec: \<^verbatim>\<open>mdstore.CopyBlocks\<close> copies the blocks of a subtree from
  one store to another (spec, section 4.9.1): the block of the cid and the blocks its
  links lead to. It fails when the source store lacks one of them.
\<close>

fun blocksOf_cid :: "cid \<Rightarrow> cid set"
  and blocksOf_block :: "block \<Rightarrow> cid set"
  and blocksOf_val :: "val \<Rightarrow> cid set" where
  "blocksOf_cid Undef = {}"
| "blocksOf_cid (Cid b) = insert (Cid b) (blocksOf_block b)"
| "blocksOf_block (Node v) = blocksOf_val v"
| "blocksOf_block (FileBlock bytes) = {}"
| "blocksOf_block (LinksBlock ls) = (\<Union>x \<in> set ls. blocksOf_cid (fst (snd x)))"
| "blocksOf_block (SkeletonBlock sk) = {}"
| "blocksOf_val VNull = {}"
| "blocksOf_val (VInt i) = {}"
| "blocksOf_val (VStr s) = {}"
| "blocksOf_val (VLink c) = blocksOf_cid c"
| "blocksOf_val (VList vs) = (\<Union>v \<in> set vs. blocksOf_val v)"
| "blocksOf_val (VMap m) = (\<Union>x \<in> set m. blocksOf_val (snd x))"

definition CopyBlocks :: "world \<Rightarrow> cid \<Rightarrow> nat \<Rightarrow> nat \<Rightarrow> error + world" where
  "CopyBlocks w c src dst =
     (if blocksOf_cid c \<subseteq> stores w src
      then Inr (w\<lparr>stores := (stores w)(dst := stores w dst \<union> blocksOf_cid c)\<rparr>)
      else Inl ErrNotFound)"

lemma fileFromHeader_Inr:
  "fileFromHeader w st h name c = Inr f \<Longrightarrow>
     f_h f = h \<and> f_cid f = c \<and> f_store f = st \<and> f_name f = name \<and> f_content f = None"
  unfolding fileFromHeader_def
  by (cases "h_Metadata h"; cases "h_Userland h") (auto split: sum.splits)

lemma treeFromHeader_Inr:
  "treeFromHeader w st h name c = Inr t \<Longrightarrow>
     t_h t = h \<and> t_cid t = c \<and> t_store t = st \<and> t_name t = name \<and> t_metadata t = None"
  unfolding treeFromHeader_def
  by (cases "h_Info h"; cases "h_Skeleton h"; cases "h_Userland h")
     (auto split: sum.splits if_splits)

lemma decodeLDFileBlock_Inr:
  "decodeLDFileBlock df blk = Inr df' \<Longrightarrow>
     ld_previous df' = ld_previous df \<and> ld_cid df' = ld_cid df \<and> ld_store df' = ld_store df \<and>
     ld_name df' = ld_name df"
  unfolding decodeLDFileBlock_def
  by (cases blk) (auto split: val.splits option.splits if_splits)

lemma loadNode_Inr:
  assumes "loadNode w st name p = Inr n"
  shows "\<exists>h. loadHeader w st p = Inr h \<and> node_Cid n = p \<and> node_store n = st \<and>
             node_name n = name \<and>
             (case n of TreeNode t \<Rightarrow> t_h t = h \<and> t_metadata t = None
                      | FileNode f \<Rightarrow> f_h f = h \<and> f_content f = None
                      | LDFileNode df \<Rightarrow> ld_previous df = None)"
proof -
  from assms obtain h where h: "loadHeader w st p = Inr h"
    by (auto simp: loadNode_def split: sum.splits)
  from assms h obtain i where i: "h_Info h = Some i"
    by (auto simp: loadNode_def split: option.splits)
  consider (f) "i_Type i = NTFile" | (l) "i_Type i \<noteq> NTFile" "i_Type i = NTLDFile"
    | (d) "i_Type i \<noteq> NTFile" "i_Type i \<noteq> NTLDFile" "i_Type i = NTDir"
    | (o) "i_Type i \<noteq> NTFile" "i_Type i \<noteq> NTLDFile" "i_Type i \<noteq> NTDir"
    by blast
  then show ?thesis
  proof cases
    case f
    with assms h i obtain fl where "fileFromHeader w st h name p = Inr fl" "n = FileNode fl"
      by (auto simp: loadNode_def split: sum.splits)
    with h show ?thesis by (auto dest: fileFromHeader_Inr)
  next
    case l
    with assms h i obtain blk df where "GetBlock w st p = Inr blk"
      "decodeLDFileBlock \<lparr>ld_store = st, ld_name = name, ld_cid = p, ld_bare = False,
         ld_info = None, ld_metadata = None, ld_previous = None, ld_content = VNull\<rparr> blk = Inr df"
      "n = LDFileNode df"
      by (auto simp: loadNode_def split: sum.splits)
    with h show ?thesis by (auto dest: decodeLDFileBlock_Inr)
  next
    case d
    with assms h i obtain t where "treeFromHeader w st h name p = Inr t" "n = TreeNode t"
      by (auto simp: loadNode_def split: sum.splits)
    with h show ?thesis by (auto dest: treeFromHeader_Inr)
  next
    case o
    with assms h i show ?thesis by (simp add: loadNode_def)
  qed
qed

lemma loadNode_Previous_size:
  assumes "loadNode w st name p = Inr n" "node_AsHistoryEntry n = Inr h" "he_Previous h = Some q"
  shows "size q < size p"
proof -
  from loadNode_Inr[OF assms(1)] obtain hd where hd: "loadHeader w st p = Inr hd"
    and c: "case n of TreeNode t \<Rightarrow> t_h t = hd \<and> t_metadata t = None
                    | FileNode f \<Rightarrow> f_h f = hd \<and> f_content f = None
                    | LDFileNode df \<Rightarrow> ld_previous df = None" by blast
  have "h_Previous hd = Some q"
    using assms(2,3) c
    by (cases n)
       (auto simp: Tree_AsHistoryEntry_def File_AsHistoryEntry_def LDFile_AsHistoryEntry_def
             entryOf_def split: option.splits)
  with hd show ?thesis by (rule loadHeader_Previous_size)
qed

text \<open>
  The ancestry search of \<^verbatim>\<open>merge\<close>. \<open>scanB\<close> is the inner loop: it walks the chain of
  \<open>b\<close> from \<open>bHist\<close> at generation \<open>bGen\<close>, looking for the cid of the current
  candidate of \<open>a\<close>; \<open>scanA\<close> is the outer loop over the chain of \<open>a\<close>. Both end with
  the two generation counts.
\<close>

datatype scan = Match nat | NoMatch nat

datatype ancestry = Found nat nat | NoCommon nat nat

function scanB ::
  "world \<Rightarrow> nat \<Rightarrow> string \<Rightarrow> cid \<Rightarrow> HistoryEntry \<Rightarrow> nat \<Rightarrow> error + scan" where
  "scanB w bfs name acid bHist bGen =
     (if acid = he_Cid bHist then Inr (Match bGen)
      else case he_Previous bHist of
        None \<Rightarrow> Inr (NoMatch bGen)
      | Some p \<Rightarrow>
          (case loadNode w bfs name p of
             Inl e \<Rightarrow> Inl e
           | Inr bCur \<Rightarrow>
               (case node_AsHistoryEntry bCur of
                  Inl e \<Rightarrow> Inl e
                | Inr bHist' \<Rightarrow> scanB w bfs name acid bHist' (bGen + 1))))"
  by pat_completeness auto
termination
  by (relation "measure (\<lambda>(w, bfs, name, acid, bHist, bGen).
                   case he_Previous bHist of None \<Rightarrow> 0 | Some p \<Rightarrow> Suc (size p))")
     (auto split: option.splits dest: loadNode_Previous_size)

function scanA ::
  "world \<Rightarrow> nat \<Rightarrow> nat \<Rightarrow> string \<Rightarrow> string \<Rightarrow> HistoryEntry \<Rightarrow> HistoryEntry \<Rightarrow> nat \<Rightarrow>
     error + ancestry" where
  "scanA w afs bfs aname bname bHist aHist aGen =
     (case scanB w bfs bname (he_Cid aHist) bHist 0 of
        Inl e \<Rightarrow> Inl e
      | Inr (Match bGen) \<Rightarrow> Inr (Found aGen bGen)
      | Inr (NoMatch bGen) \<Rightarrow>
          (case he_Previous aHist of
             None \<Rightarrow> Inr (NoCommon aGen bGen)
           | Some p \<Rightarrow>
               (case loadNode w afs aname p of
                  Inl e \<Rightarrow> Inl e
                | Inr aCur \<Rightarrow>
                    (case node_AsHistoryEntry aCur of
                       Inl e \<Rightarrow> Inl e
                     | Inr aHist' \<Rightarrow> scanA w afs bfs aname bname bHist aHist' (aGen + 1)))))"
  by pat_completeness auto
termination
  by (relation "measure (\<lambda>(w, afs, bfs, aname, bname, bHist, aHist, aGen).
                   case he_Previous aHist of None \<Rightarrow> 0 | Some p \<Rightarrow> Suc (size p))")
     (auto split: option.splits dest: loadNode_Previous_size)

declare scanB.simps [simp del] scanA.simps [simp del]

text \<open>
  \<^verbatim>\<open>mergeNode\<close>: a new revision shaped like the winner \<open>a\<close>, with \<open>previous\<close> the cid
  of \<open>a\<close> and \<open>merge\<close> the cid of \<open>b\<close>, written to the destination; the result is
  its cid.
\<close>

definition mergeNode :: "world \<Rightarrow> nat \<Rightarrow> node \<Rightarrow> node \<Rightarrow> error + (cid \<times> world)" where
  "mergeNode w destFS a b =
     (let bid = node_Cid b
      in case a of
           TreeNode at \<Rightarrow>
             (let h = (t_h at)\<lparr>h_Merge := Some bid, h_Previous := Some (t_cid at)\<rparr>;
                  w1 = PutBlock w destFS (Header_encodeBlock h)
              in case Tree_Put w1 at of
                   Inl e \<Rightarrow> Inl e
                 | Inr (res, at', w2) \<Rightarrow> Inr (block_Cid (Header_encodeBlock h), w2))
         | FileNode af \<Rightarrow>
             (let h = (f_h af)\<lparr>h_Merge := Some bid, h_Previous := Some (f_cid af)\<rparr>;
                  w1 = PutBlock w destFS (Header_encodeBlock h)
              in case f_content af of
                   Some bytes \<Rightarrow> Inr (block_Cid (Header_encodeBlock h), w1)
                 | None \<Rightarrow>
                     (case h_Userland (f_h af) of
                        None \<Rightarrow> Inl (Panic ''nil Userland'')
                      | Some u \<Rightarrow>
                          (case GetFile w1 (f_store af) u of
                             Inl e \<Rightarrow> Inl e
                           | Inr bytes \<Rightarrow> Inr (block_Cid (Header_encodeBlock h), w1))))
         | LDFileNode df \<Rightarrow> Inl (Err ''unknown type merging node''))"

type_synonym mergeRec =
  "world \<Rightarrow> nat \<Rightarrow> node \<Rightarrow> node \<Rightarrow> (error + (MergeResult \<times> world)) option"

text \<open>
  The first loop of \<^verbatim>\<open>mergeTrees\<close>, over the skeleton of the loser \<open>b\<close>; \<open>a\<close> is
  the winner as mutated so far and \<open>rec\<close> the recursive call of \<^verbatim>\<open>merge\<close>. The result
  \<open>None\<close> says that the recursion of \<^verbatim>\<open>merge\<close> into subdirectories was cut off.
\<close>

fun mergeEntries ::
  "mergeRec \<Rightarrow> world \<Rightarrow> nat \<Rightarrow> nat \<Rightarrow> Tree \<Rightarrow> (string \<times> skel) list \<Rightarrow>
     (error + (Tree \<times> world)) option" where
  "mergeEntries rec w destFS bfs a [] = Some (Inr (a, w))"
| "mergeEntries rec w destFS bfs a (ent # ents) =
     (let remName = fst ent; remInfo = snd ent
      in case map_of (t_skeleton a) remName of
           None \<Rightarrow>
             (case loadNodeFromSkeletonInfo w bfs remName remInfo of
                Inl e \<Rightarrow> Some (Inl e)
              | Inr n \<Rightarrow>
                  (case CopyBlocks w (node_Cid n) bfs destFS of
                     Inl e \<Rightarrow> Some (Inl e)
                   | Inr w1 \<Rightarrow>
                       mergeEntries rec w1 destFS bfs
                         (a\<lparr>t_skeleton := AList.update remName remInfo (t_skeleton a),
                            t_userland := Links_Add (t_userland a) (AsLink n)\<rparr>) ents))
         | Some localInfo \<Rightarrow>
             if sk_Cid localInfo = sk_Cid remInfo then mergeEntries rec w destFS bfs a ents
             else
               (case loadNodeFromSkeletonInfo w (t_store a) remName localInfo of
                  Inl e \<Rightarrow> Some (Inl e)
                | Inr lcl \<Rightarrow>
                    (case loadNodeFromSkeletonInfo w bfs remName remInfo of
                       Inl e \<Rightarrow> Some (Inl e)
                     | Inr rem \<Rightarrow>
                         (case rec w destFS lcl rem of
                            None \<Rightarrow> None
                          | Some (Inl e) \<Rightarrow> Some (Inl e)
                          | Some (Inr (res, w1)) \<Rightarrow>
                              mergeEntries rec w1 destFS bfs
                                (a\<lparr>t_skeleton := AList.update remName
                                                   (mergeResultToSkeletonInfo res) (t_skeleton a),
                                   t_userland := Links_Add (t_userland a)
                                                   (mergeResultToLink res remName)\<rparr>) ents))))"

text \<open>The second loop of \<^verbatim>\<open>mergeTrees\<close>, over the names of \<open>a\<close> the first left out.\<close>

fun copyUnchecked :: "world \<Rightarrow> nat \<Rightarrow> nat \<Rightarrow> (string \<times> skel) list \<Rightarrow> error + world" where
  "copyUnchecked w destFS afs [] = Inr w"
| "copyUnchecked w destFS afs (ent # ents) =
     (case CopyBlocks w (sk_Cid (snd ent)) afs destFS of
        Inl e \<Rightarrow> Inl e
      | Inr w1 \<Rightarrow> copyUnchecked w1 destFS afs ents)"

definition mergeTrees ::
  "mergeRec \<Rightarrow> world \<Rightarrow> nat \<Rightarrow> Tree \<Rightarrow> Tree \<Rightarrow> (error + (Tree \<times> world)) option" where
  "mergeTrees rec w destFS a b =
     (case mergeEntries rec w destFS (t_store b) a (AList.clearjunk (t_skeleton b)) of
        None \<Rightarrow> None
      | Some (Inl e) \<Rightarrow> Some (Inl e)
      | Some (Inr (a1, w1)) \<Rightarrow>
          (case copyUnchecked w1 destFS (t_store a1)
                  (filter (\<lambda>ent. fst ent \<notin> fst ` set (t_skeleton b)) (t_skeleton a1)) of
             Inl e \<Rightarrow> Some (Inl e)
           | Inr w2 \<Rightarrow>
               (case Timestamp w2 of (ts, w3) \<Rightarrow>
                  (case h_Info (t_h a1) of
                     None \<Rightarrow> Some (Inl (Panic ''nil Info''))
                   | Some i \<Rightarrow>
                       (let a2 = a1\<lparr>t_h := (t_h a1)\<lparr>h_Merge := Some (t_cid b),
                                                      h_Info := Some (i\<lparr>i_Mtime := ts\<rparr>)\<rparr>,
                                      t_store := destFS\<rparr>
                        in case Tree_Put w3 a2 of
                             Inl e \<Rightarrow> Some (Inl e)
                           | Inr (res, a3, w4) \<Rightarrow> Some (Inr (a3, w4)))))))"

definition mergeNodes ::
  "mergeRec \<Rightarrow> (cid \<Rightarrow> cid \<Rightarrow> bool) \<Rightarrow> world \<Rightarrow> nat \<Rightarrow> node \<Rightarrow> node \<Rightarrow> nat \<Rightarrow> nat \<Rightarrow>
     (error + (cid \<times> world)) option" where
  "mergeNodes rec lt w destFS a b aGen bGen =
     (case (if aGen < bGen \<or> (aGen = bGen \<and> lt (node_Cid b) (node_Cid a))
            then (b, a) else (a, b)) of
        (TreeNode aTree, TreeNode bTree) \<Rightarrow>
          (case mergeTrees rec w destFS aTree bTree of
             None \<Rightarrow> None
           | Some (Inl e) \<Rightarrow> Some (Inl e)
           | Some (Inr (merged, w')) \<Rightarrow> Some (Inr (t_cid merged, w')))
      | (a', b') \<Rightarrow> Some (mergeNode w destFS a' b'))"

definition mergeCommit ::
  "mergeRec \<Rightarrow> (cid \<Rightarrow> cid \<Rightarrow> bool) \<Rightarrow> world \<Rightarrow> nat \<Rightarrow> node \<Rightarrow> node \<Rightarrow> nat \<Rightarrow> nat \<Rightarrow>
     (error + (MergeResult \<times> world)) option" where
  "mergeCommit rec lt w destFS a b aGen bGen =
     (case mergeNodes rec lt w destFS a b aGen bGen of
        None \<Rightarrow> None
      | Some (Inl e) \<Rightarrow> Some (Inl e)
      | Some (Inr (c, w')) \<Rightarrow>
          Some (Inr (zeroMergeResult\<lparr>mr_Type := MTMergeCommit, mr_Cid := c,
                                      mr_IsFile := (\<not> node_IsDir a)\<rparr>, w')))"

definition mergeBody ::
  "mergeRec \<Rightarrow> (cid \<Rightarrow> cid \<Rightarrow> bool) \<Rightarrow> mergeRec" where
  "mergeBody rec lt w destFS a b =
     (case node_AsHistoryEntry a of
        Inl e \<Rightarrow> Some (Inl e)
      | Inr aHist \<Rightarrow>
          (case node_AsHistoryEntry b of
             Inl e \<Rightarrow> Some (Inl e)
           | Inr bHist \<Rightarrow>
               if he_Cid aHist = he_Cid bHist then
                 Some (Inr (zeroMergeResult\<lparr>mr_Type := MTInSync, mr_Cid := he_Cid aHist,
                                             mr_Size := he_Size aHist,
                                             mr_IsFile := isFileType (he_Type aHist)\<rparr>, w))
               else
                 (case scanA w (node_store a) (node_store b) (node_name a) (node_name b)
                         bHist aHist 0 of
                    Inl e \<Rightarrow> Some (Inl e)
                  | Inr (Found aGen bGen) \<Rightarrow>
                      if aGen = 0 \<and> bGen > 0 then
                        Some (Inr (zeroMergeResult\<lparr>mr_Type := MTFastForward,
                                                    mr_Cid := he_Cid bHist,
                                                    mr_Size := he_Size bHist,
                                                    mr_IsFile := isFileType (he_Type bHist)\<rparr>, w))
                      else if aGen > 0 \<and> bGen = 0 then
                        Some (Inr (zeroMergeResult\<lparr>mr_Type := MTLocalAhead,
                                                    mr_Cid := he_Cid aHist,
                                                    mr_Size := he_Size aHist,
                                                    mr_IsFile := isFileType (he_Type aHist)\<rparr>, w))
                      else mergeCommit rec lt w destFS a b aGen bGen
                  | Inr (NoCommon aGen bGen) \<Rightarrow> mergeCommit rec lt w destFS a b aGen bGen)))"

text \<open>
  \<^verbatim>\<open>merge\<close>, with the depth to which it may recurse into subdirectories: at depth 0
  the recursive call is cut off (\<open>None\<close>).
\<close>

fun merge :: "nat \<Rightarrow> (cid \<Rightarrow> cid \<Rightarrow> bool) \<Rightarrow> mergeRec" where
  "merge 0 lt = mergeBody (\<lambda>w destFS a b. None) lt"
| "merge (Suc n) lt = mergeBody (merge n lt) lt"

definition Merge ::
  "nat \<Rightarrow> (cid \<Rightarrow> cid \<Rightarrow> bool) \<Rightarrow> world \<Rightarrow> node \<Rightarrow> node \<Rightarrow>
     (error + (MergeResult \<times> world)) option" where
  "Merge n lt w a b = merge n lt w (node_store a) a b"

section \<open>Auxiliary definitions\<close>

text \<open>The metadata step of Put, as a function of its own.\<close>

definition putMeta ::
  "world \<Rightarrow> Header \<Rightarrow> LDFile option \<Rightarrow> Header \<times> LDFile option \<times> world" where
  "putMeta w1 h1 mdo = (case mdo of
                 Some md \<Rightarrow> (case LDFile_Put w1 md of (res, md', w2) \<Rightarrow>
                               (h1\<lparr>h_Metadata := Some (ld_cid md')\<rparr>, Some md', w2))
               | None \<Rightarrow> (h1, None, w1))"


text \<open>
  Persist a tree, load it back from the cid and persist it again: does the second Put
  return the cid of the first?
\<close>

definition putStable :: "world \<Rightarrow> Tree \<Rightarrow> string \<Rightarrow> error + bool" where
  "putStable w t name =
     (case Tree_Put w t of
        Inl e \<Rightarrow> Inl e
      | Inr (r1, t1, w1) \<Rightarrow>
          (case LoadTree w1 (t_store t1) name (pr_Cid r1) of
             Inl e \<Rightarrow> Inl e
           | Inr t2 \<Rightarrow>
               (case Tree_Put w1 t2 of
                  Inl e \<Rightarrow> Inl e
                | Inr (r2, t3, w3) \<Rightarrow> Inr (pr_Cid r2 = pr_Cid r1))))"


text \<open>An example world (empty stores, a clock that starts at 1000) and a fresh root.\<close>

definition ex_world :: world where
  "ex_world = \<lparr>stores = (\<lambda>_. {}), clock = (\<lambda>n. 1000 + int n), ticks = 0, blockSize = size\<rparr>"

definition ex_root :: Tree where
  "ex_root = fst (NewEmptyTree ex_world 0 ''root'')"

definition ex_world1 :: world where
  "ex_world1 = snd (NewEmptyTree ex_world 0 ''root'')"



text \<open>
  A property of trees that \<open>updateUserlandLink\<close>, \<open>removeUserlandLink\<close> and \<open>Put\<close>
  keep is kept by every operation: each one changes its receiver through these three only.
\<close>

definition keptBySteps :: "(Tree \<Rightarrow> bool) \<Rightarrow> bool" where
  "keptBySteps P =
     ((\<forall>w t name res. P t \<longrightarrow> P (fst (updateUserlandLink w t name res))) \<and>
      (\<forall>w t name. P t \<longrightarrow> P (fst (removeUserlandLink w t name))) \<and>
      (\<forall>w t res t' w'. P t \<longrightarrow> Tree_Put w t = Inr (res, t', w') \<longrightarrow> P t'))"


text \<open>The size a Put of a file returns, and an example file of five bytes.\<close>

definition File_Put_Size :: "world \<Rightarrow> File \<Rightarrow> error + 64 word" where
  "File_Put_Size w f = (case File_Put w f of Inl e \<Rightarrow> Inl e | Inr (res, f', w') \<Rightarrow> Inr (pr_Size res))"

definition ex_file :: File where
  "ex_file = fst (NewFile ex_world 0 ''hello.txt'' [104, 101, 108, 108, 111] None)"


text \<open>The creation time in the info of a tree, if it has an info.\<close>

definition ctimeOf :: "Tree \<Rightarrow> 64 word option" where
  "ctimeOf t = map_option i_Ctime (h_Info (t_h t))"


text \<open>
  Link/skeleton consistency: every name of the userland has a skeleton entry with the
  same cid and the same file flag.
\<close>

definition consistent :: "Tree \<Rightarrow> bool" where
  "consistent t =
     list_all (\<lambda>name. case Links_Get (t_userland t) name of
                        None \<Rightarrow> True
                      | Some l \<Rightarrow>
                          (case map_of (t_skeleton t) name of
                             None \<Rightarrow> False
                           | Some s \<Rightarrow> sk_Cid s = l_Cid l \<and> sk_IsFile s = l_IsFile l))
       (map fst (t_userland t))"


text \<open>
  \<open>ancestorAt w st name h k c\<close> says that walking \<open>k\<close> previous pointers from the
  entry \<open>h\<close>, loading each revision from the store the way \<^verbatim>\<open>merge\<close> does, arrives
  at the cid \<open>c\<close>.
\<close>

inductive ancestorAt :: "world \<Rightarrow> nat \<Rightarrow> string \<Rightarrow> HistoryEntry \<Rightarrow> nat \<Rightarrow> cid \<Rightarrow> bool" where
  anc_here: "ancestorAt w st name h 0 (he_Cid h)"
| anc_back: "he_Previous h = Some p \<Longrightarrow> loadNode w st name p = Inr n \<Longrightarrow>
         node_AsHistoryEntry n = Inr h' \<Longrightarrow> ancestorAt w st name h' k c \<Longrightarrow>
         ancestorAt w st name h (Suc k) c"









text \<open>
  The previous chain as \<^verbatim>\<open>merge\<close> sees it. \<open>prevOf c\<close> is the previous pointer that
  \<^verbatim>\<open>loadNode\<close> gives the node it builds from the block of \<open>c\<close> (none for a
  linked-data file), \<open>chainFrom c\<close> the cids of the revisions from \<open>c\<close> back, and
  \<open>chainOf h\<close> the chain of a node with history entry \<open>h\<close>: its own cid, then the
  chain from its previous pointer.
\<close>

definition prevOf :: "cid \<Rightarrow> cid option" where
  "prevOf c =
     (case c of
        Undef \<Rightarrow> None
      | Cid blk \<Rightarrow>
          (case decodeHeaderBlock blk of
             Inl e \<Rightarrow> None
           | Inr h \<Rightarrow>
               (case h_Info h of
                  None \<Rightarrow> None
                | Some i \<Rightarrow> if i_Type i = NTLDFile then None else h_Previous h)))"

lemma prevOf_size: "prevOf c = Some p \<Longrightarrow> size p < size c"
proof -
  assume a: "prevOf c = Some p"
  then obtain blk h where c: "c = Cid blk" and d: "decodeHeaderBlock blk = Inr h"
    and p: "h_Previous h = Some p"
    by (auto simp: prevOf_def split: cid.splits sum.splits option.splits if_splits)
  from d obtain env where "blk = Node (VMap env)" "h_Previous h = linkNamed env ''previous''"
    by (auto simp: decodeHeaderBlock_def split: block.splits val.splits option.splits)
  with p c show ?thesis using linkNamed_size[of env "''previous''" p] by simp
qed

function chainFrom :: "cid \<Rightarrow> cid list" where
  "chainFrom c = c # (case prevOf c of None \<Rightarrow> [] | Some p \<Rightarrow> chainFrom p)"
  by pat_completeness auto
termination
  by (relation "measure size") (auto dest: prevOf_size)

declare chainFrom.simps [simp del]

definition chainOf :: "HistoryEntry \<Rightarrow> cid list" where
  "chainOf h = he_Cid h # (case he_Previous h of None \<Rightarrow> [] | Some p \<Rightarrow> chainFrom p)"

text \<open>
  The first position of an element in a list, and the first element of a list that
  occurs in another, with its position in each: what the two loops of \<^verbatim>\<open>merge\<close>
  compute on the two chains.
\<close>

fun indexOf :: "'a \<Rightarrow> 'a list \<Rightarrow> nat option" where
  "indexOf x [] = None"
| "indexOf x (y # ys) = (if x = y then Some 0 else map_option Suc (indexOf x ys))"

fun firstCommon :: "'a list \<Rightarrow> 'a list \<Rightarrow> (nat \<times> nat) option" where
  "firstCommon [] ys = None"
| "firstCommon (x # xs) ys =
     (case indexOf x ys of
        Some j \<Rightarrow> Some (0, j)
      | None \<Rightarrow> map_option (\<lambda>(i, j). (Suc i, j)) (firstCommon xs ys))"

text \<open>
  The previous pointer of a node in memory is well formed when it is a cid that the
  block of the node holds (so a smaller term), or the cid of the node itself, which is
  what \<^verbatim>\<open>File.Put\<close> and \<^verbatim>\<open>LDFile.Put\<close> leave behind. A list of cids is descending
  when every element is larger than each later one, or equal to it.
\<close>

definition wfHead :: "HistoryEntry \<Rightarrow> bool" where
  "wfHead h = (case he_Previous h of
                 None \<Rightarrow> True
               | Some p \<Rightarrow> size p < size (he_Cid h) \<or> p = he_Cid h)"

fun descending :: "cid list \<Rightarrow> bool" where
  "descending [] = True"
| "descending (x # xs) = ((\<forall>y \<in> set xs. size y < size x \<or> y = x) \<and> descending xs)"

text \<open>
  An order on cids (by the size of the term), a Put that returns the tree and the
  world only, and three revisions of the root of the example world: \<open>ex_m0\<close> is written
  to store 0, then the tree is seated on store 1 (as \<^verbatim>\<open>mergeTrees\<close> seats the winner
  on the destination) and written there twice, \<open>ex_ma\<close> and \<open>ex_mb\<close>. Store 1 holds the
  blocks of \<open>ex_ma\<close> and \<open>ex_mb\<close>, and not the revision before them.
\<close>

definition sizeOrder :: "cid \<Rightarrow> cid \<Rightarrow> bool" where
  "sizeOrder c d = (size c < size d)"

definition putTree :: "world \<Rightarrow> Tree \<Rightarrow> Tree \<times> world" where
  "putTree w t = (case Tree_Put w t of Inl e \<Rightarrow> (t, w) | Inr (res, t', w') \<Rightarrow> (t', w'))"

definition ex_m0 :: "Tree \<times> world" where
  "ex_m0 = putTree ex_world1 ex_root"

definition ex_ma :: "Tree \<times> world" where
  "ex_ma = putTree (snd ex_m0) ((fst ex_m0)\<lparr>t_store := 1\<rparr>)"

definition ex_mb :: "Tree \<times> world" where
  "ex_mb = putTree (snd ex_ma) (fst ex_ma)"


section \<open>Properties of the header codec\<close>

lemma encodeVal_ptr: "encodeVal (GoCidPtr p) = ptrVal p"
  by (cases p) (simp_all add: ptrVal_def)

text \<open>
  C8, as the code has it. \<^verbatim>\<open>Header.encodeBlock\<close> always puts the five keys
  \<open>previous\<close>, \<open>merge\<close>, \<open>metadata\<close>, \<open>skeleton\<close> and \<open>userland\<close> in the map it
  encodes: a field that is present is a link, a field that is absent is the null value.
  Only \<open>info\<close> is left out when it is absent.
\<close>

theorem Header_encodeBlock_entries:
  "map_of (blockEntries (Header_encodeBlock h)) ''previous'' = Some (ptrVal (h_Previous h)) \<and>
   map_of (blockEntries (Header_encodeBlock h)) ''merge'' = Some (ptrVal (h_Merge h)) \<and>
   map_of (blockEntries (Header_encodeBlock h)) ''metadata'' = Some (ptrVal (h_Metadata h)) \<and>
   map_of (blockEntries (Header_encodeBlock h)) ''skeleton'' = Some (ptrVal (h_Skeleton h)) \<and>
   map_of (blockEntries (Header_encodeBlock h)) ''userland'' = Some (ptrVal (h_Userland h)) \<and>
   map_of (blockEntries (Header_encodeBlock h)) ''info'' =
     map_option (\<lambda>i. VMap (Info_Map i)) (h_Info h)"
  by (cases "h_Info h")
     (simp_all add: blockEntries_def Header_encodeBlock_def Header_encodeMap_def WrapObject_def
        encodeVal_ptr)

text \<open>
  C8, as the claim states it, fails: the header of a fresh node has no \<open>merge\<close> field,
  and its encoded block has an entry named \<open>merge\<close>.
\<close>

theorem Header_encodeBlock_null_counterexample:
  "\<not> (h_Merge (emptyHeader zeroInfo) = None \<longrightarrow>
       ''merge'' \<notin> fst ` set (blockEntries (Header_encodeBlock (emptyHeader zeroInfo))))"
  by (simp add: blockEntries_def Header_encodeBlock_def Header_encodeMap_def WrapObject_def
        emptyHeader_def)

section \<open>Properties of Put and of loading\<close>

lemma InfoFromMap_Map: "InfoFromMap (Info_Map i) = i"
  by (simp add: InfoFromMap_def Info_Map_def zeroInfo_def)

lemma decode_encode:
  "h_Info h = Some i \<Longrightarrow> decodeHeaderBlock (Header_encodeBlock h) = Inr h"
  by (cases "h_Previous h"; cases "h_Merge h"; cases "h_Metadata h"; cases "h_Skeleton h"; cases "h_Userland h")
     (simp_all add: decodeHeaderBlock_def Header_encodeBlock_def Header_encodeMap_def WrapObject_def
      linkNamed_def InfoFromMap_Map)

lemma PutBlock_stores:
  "stores (PutBlock w st b) st' = (if st' = st then insert (Cid b) (stores w st) else stores w st')"
  "ticks (PutBlock w st b) = ticks w" "clock (PutBlock w st b) = clock w"
  "blockSize (PutBlock w st b) = blockSize w"
  by (simp_all add: PutBlock_def block_Cid_def)

lemma LDFile_Put_stores:
  "LDFile_Put w md = (res, md', w') \<Longrightarrow>
     (\<forall>st. stores w st \<subseteq> stores w' st) \<and> ticks w' = ticks w \<and> clock w' = clock w \<and> blockSize w' = blockSize w"
  by (auto simp: LDFile_Put_def PutBlock_stores Let_def split: if_splits)

lemma putMeta_facts:
  "putMeta w1 h1 mdo = (h2, md2, w2) \<Longrightarrow>
    (\<forall>st. stores w1 st \<subseteq> stores w2 st) \<and> ticks w2 = ticks w1 \<and> clock w2 = clock w1 \<and> blockSize w2 = blockSize w1
    \<and> h_Info h2 = h_Info h1 \<and> h_Previous h2 = h_Previous h1 \<and> h_Merge h2 = h_Merge h1
    \<and> h_Userland h2 = h_Userland h1 \<and> h_Skeleton h2 = h_Skeleton h1
    \<and> (mdo = None \<longrightarrow> h2 = h1 \<and> w2 = w1 \<and> md2 = None)"
  unfolding putMeta_def
  by (cases mdo) (auto split: prod.splits dest!: LDFile_Put_stores)

lemma Tree_Put_unfold:
  "Tree_Put w t =
     (case putMeta (PutBlock w (t_store t) (LinksBlock (t_userland t)))
             ((t_h t)\<lparr>h_Userland := Some (Cid (LinksBlock (t_userland t)))\<rparr>) (t_metadata t) of
        (h2, md2, w2) \<Rightarrow>
          (let h4 = (if Defined (t_cid t) then h2\<lparr>h_Skeleton := Some (Cid (SkeletonBlock (t_skeleton t))), h_Previous := Some (t_cid t)\<rparr>
                     else h2\<lparr>h_Skeleton := Some (Cid (SkeletonBlock (t_skeleton t)))\<rparr>);
               t' = t\<lparr>t_h := h4, t_metadata := md2, t_cid := Cid (Header_encodeBlock h4)\<rparr>
           in case h_Info h4 of None \<Rightarrow> Inl (Panic ''nil Info'')
              | Some i \<Rightarrow> Inr (zeroPutResult\<lparr>pr_Cid := t_cid t', pr_Size := i_Size i,
                                         pr_Userland := Cid (LinksBlock (t_userland t)),
                                         pr_Skeleton := t_skeleton t\<rparr>, t',
                         PutBlock (PutBlock w2 (t_store t) (SkeletonBlock (t_skeleton t))) (t_store t) (Header_encodeBlock h4))))"
  by (simp add: Tree_Put_def putMeta_def Let_def block_Cid_def split: option.splits prod.splits)


lemma Tree_Put_Inr:
  "h_Info (t_h t) = Some i \<Longrightarrow> \<exists>res t' w'. Tree_Put w t = Inr (res, t', w')"
proof -
  assume i: "h_Info (t_h t) = Some i"
  obtain h2 md2 w2 where m: "putMeta (PutBlock w (t_store t) (LinksBlock (t_userland t)))
             ((t_h t)\<lparr>h_Userland := Some (Cid (LinksBlock (t_userland t)))\<rparr>) (t_metadata t) = (h2, md2, w2)"
    using prod_cases3 by blast
  from putMeta_facts[OF m] i have "h_Info h2 = Some i" by simp
  then show ?thesis
    by (simp add: Tree_Put_unfold m Let_def)
qed

lemma Tree_Put_fields:
  assumes "Tree_Put w t = Inr (res, t', w')"
  shows "t_userland t' = t_userland t" "t_skeleton t' = t_skeleton t"
    "t_store t' = t_store t" "t_name t' = t_name t"
    "h_Info (t_h t') = h_Info (t_h t)" "h_Merge (t_h t') = h_Merge (t_h t)"
    "t_cid t' = Cid (Header_encodeBlock (t_h t'))" "pr_Cid res = t_cid t'"
    "h_Userland (t_h t') = Some (Cid (LinksBlock (t_userland t)))"
    "h_Skeleton (t_h t') = Some (Cid (SkeletonBlock (t_skeleton t)))"
    "h_Previous (t_h t') = (if Defined (t_cid t) then Some (t_cid t) else h_Previous (t_h t))"
    "pr_Userland res = Cid (LinksBlock (t_userland t))"
    "pr_Skeleton res = t_skeleton t" "pr_Type res = 0" "pr_Metadata res = Undef"
    "\<exists>i. h_Info (t_h t) = Some i \<and> pr_Size res = i_Size i"
proof -
  obtain h2 md2 w2 where m: "putMeta (PutBlock w (t_store t) (LinksBlock (t_userland t)))
             ((t_h t)\<lparr>h_Userland := Some (Cid (LinksBlock (t_userland t)))\<rparr>) (t_metadata t) = (h2, md2, w2)"
    using prod_cases3 by blast
  note f = putMeta_facts[OF m]
  show "t_userland t' = t_userland t" "t_skeleton t' = t_skeleton t"
    "t_store t' = t_store t" "t_name t' = t_name t"
    "h_Info (t_h t') = h_Info (t_h t)" "h_Merge (t_h t') = h_Merge (t_h t)"
    "t_cid t' = Cid (Header_encodeBlock (t_h t'))" "pr_Cid res = t_cid t'"
    "h_Userland (t_h t') = Some (Cid (LinksBlock (t_userland t)))"
    "h_Skeleton (t_h t') = Some (Cid (SkeletonBlock (t_skeleton t)))"
    "h_Previous (t_h t') = (if Defined (t_cid t) then Some (t_cid t) else h_Previous (t_h t))"
    "pr_Userland res = Cid (LinksBlock (t_userland t))"
    "pr_Skeleton res = t_skeleton t" "pr_Type res = 0" "pr_Metadata res = Undef"
    "\<exists>i. h_Info (t_h t) = Some i \<and> pr_Size res = i_Size i"
    using assms f
    by (auto simp: Tree_Put_unfold m Let_def zeroPutResult_def split: option.splits if_splits)
qed

lemma Tree_Put_world:
  assumes "Tree_Put w t = Inr (res, t', w')"
  shows "ticks w' = ticks w" "clock w' = clock w" "blockSize w' = blockSize w"
    "stores w st \<subseteq> stores w' st"
    "t_cid t' \<in> stores w' (t_store t)"
    "Cid (LinksBlock (t_userland t)) \<in> stores w' (t_store t)"
    "Cid (SkeletonBlock (t_skeleton t)) \<in> stores w' (t_store t)"
proof -
  obtain h2 md2 w2 where m: "putMeta (PutBlock w (t_store t) (LinksBlock (t_userland t)))
             ((t_h t)\<lparr>h_Userland := Some (Cid (LinksBlock (t_userland t)))\<rparr>) (t_metadata t) = (h2, md2, w2)"
    using prod_cases3 by blast
  note f = putMeta_facts[OF m]
  have w': "w' = PutBlock (PutBlock w2 (t_store t) (SkeletonBlock (t_skeleton t))) (t_store t)
                  (Header_encodeBlock (t_h t'))"
    and c: "t_cid t' = Cid (Header_encodeBlock (t_h t'))"
    using assms by (auto simp: Tree_Put_unfold m Let_def split: option.splits if_splits)
  have sub: "\<And>st. stores w st \<subseteq> stores w2 st" and l: "Cid (LinksBlock (t_userland t)) \<in> stores w2 (t_store t)"
    using f by (auto simp: PutBlock_stores split: if_splits)
  show "ticks w' = ticks w" "clock w' = clock w" "blockSize w' = blockSize w"
    using f by (simp_all add: w' PutBlock_stores)
  show "stores w st \<subseteq> stores w' st"
    using sub[of st] by (auto simp: w' PutBlock_stores)
  show "t_cid t' \<in> stores w' (t_store t)"
    by (simp add: w' c PutBlock_stores)
  show "Cid (LinksBlock (t_userland t)) \<in> stores w' (t_store t)"
    using l by (simp add: w' PutBlock_stores)
  show "Cid (SkeletonBlock (t_skeleton t)) \<in> stores w' (t_store t)"
    by (simp add: w' PutBlock_stores)
qed


lemma GetBlock_in: "Cid b \<in> stores w st \<Longrightarrow> GetBlock w st (Cid b) = Inr b"
  by (simp add: GetBlock_def)

lemma loadHeader_encoded:
  "Cid (Header_encodeBlock h) \<in> stores w st \<Longrightarrow> h_Info h = Some i \<Longrightarrow>
   loadHeader w st (Cid (Header_encodeBlock h)) = Inr h"
  by (simp add: loadHeader_def GetBlock_in decode_encode)

lemma Header_Previous_size:
  "h_Previous h = Some c \<Longrightarrow> size c < size (Cid (Header_encodeBlock h))"
proof -
  assume "h_Previous h = Some c"
  then have "map_of (blockEntries (Header_encodeBlock h)) ''previous'' = Some (VLink c)"
    using Header_encodeBlock_entries[of h] by (simp add: ptrVal_def)
  from map_of_size[OF this] show ?thesis
    by (simp add: blockEntries_def Header_encodeBlock_def WrapObject_def)
qed

lemma Tree_Put_new_cid:
  assumes "Tree_Put w t = Inr (res, t', w')"
  shows "t_cid t' \<noteq> t_cid t"
proof (cases "Defined (t_cid t)")
  case True
  then have "h_Previous (t_h t') = Some (t_cid t)"
    using Tree_Put_fields(11)[OF assms] by simp
  from Header_Previous_size[OF this] have "size (t_cid t) < size (t_cid t')"
    by (simp only: Tree_Put_fields(7)[OF assms])
  then show ?thesis by auto
next
  case False
  then have "t_cid t = Undef" by (cases "t_cid t") simp_all
  then show ?thesis using Tree_Put_fields(7)[OF assms] by simp
qed

lemma LoadTree_after_Put:
  assumes p: "Tree_Put w t = Inr (res, t', w')"
    and i: "h_Info (t_h t) = Some i" "i_Type i = NTDir"
    and u: "distinct (map fst (t_userland t))" "[] \<notin> set (map fst (t_userland t))"
    and s: "stores w' (t_store t) \<subseteq> stores w'' (t_store t)"
  shows "LoadTree w'' (t_store t) name (t_cid t') =
           Inr \<lparr>t_store = t_store t, t_name = name, t_cid = t_cid t', t_h = t_h t',
                t_metadata = None, t_skeleton = t_skeleton t, t_userland = t_userland t\<rparr>"
proof -
  note f = Tree_Put_fields[OF p] and g = Tree_Put_world[OF p]
  have hi: "h_Info (t_h t') = Some i" using f(5) i by simp
  have "t_cid t' \<in> stores w'' (t_store t)" using g(5) s by blast
  then have lh: "loadHeader w'' (t_store t) (t_cid t') = Inr (t_h t')"
    using loadHeader_encoded[OF _ hi] f(7) by simp
  have sk: "LoadSkeleton w'' (t_store t) (Cid (SkeletonBlock (t_skeleton t))) = Inr (t_skeleton t)"
    using g(7) s by (auto simp: LoadSkeleton_def GetBlock_def)
  have ul: "GetBlock w'' (t_store t) (Cid (LinksBlock (t_userland t))) = Inr (LinksBlock (t_userland t))"
    using g(6) s by (auto simp: GetBlock_def)
  show ?thesis
    using u by (simp add: LoadTree_def lh treeFromHeader_def hi i f(9,10) sk ul DecodeLinksBlock_def)
qed

text \<open>
  C4, as the code has it. \<^verbatim>\<open>Put\<close> rotates the previous pointer whenever the tree has
  a cid, so persisting a tree, loading it back from its cid and persisting it again
  without any mutation gives a new revision with a different cid: its header is the
  header of the first Put with \<open>previous\<close> set to the cid of the first Put, over the
  same userland and skeleton.
\<close>

theorem Put_reload_Put:
  assumes p: "Tree_Put w t = Inr (r1, t1, w1)"
    and i: "h_Info (t_h t) = Some i" "i_Type i = NTDir"
    and u: "distinct (map fst (t_userland t))" "[] \<notin> set (map fst (t_userland t))"
  shows "\<exists>t2 r2 t3 w3.
           LoadTree w1 (t_store t) name (pr_Cid r1) = Inr t2 \<and>
           Tree_Put w1 t2 = Inr (r2, t3, w3) \<and>
           pr_Cid r2 \<noteq> pr_Cid r1 \<and>
           t_h t3 = (t_h t1)\<lparr>h_Previous := Some (pr_Cid r1)\<rparr> \<and>
           t_userland t3 = t_userland t \<and> t_skeleton t3 = t_skeleton t"
proof -
  note f = Tree_Put_fields[OF p]
  define t2 where "t2 = \<lparr>t_store = t_store t, t_name = name, t_cid = t_cid t1, t_h = t_h t1,
                t_metadata = None, t_skeleton = t_skeleton t, t_userland = t_userland t\<rparr>"
  have l: "LoadTree w1 (t_store t) name (pr_Cid r1) = Inr t2"
    using LoadTree_after_Put[OF p i u subset_refl] f(8) by (simp add: t2_def)
  have "h_Info (t_h t2) = Some i" using f(5) i by (simp add: t2_def)
  from Tree_Put_Inr[OF this] obtain r2 t3 w3 where p2: "Tree_Put w1 t2 = Inr (r2, t3, w3)"
    by blast
  note f2 = Tree_Put_fields[OF p2]
  have d: "Defined (t_cid t2)" using f(7) by (simp add: t2_def)
  have ne: "pr_Cid r2 \<noteq> pr_Cid r1"
    using Tree_Put_new_cid[OF p2] f2(8) f(8) by (simp add: t2_def)
  have h: "t_h t3 = (t_h t1)\<lparr>h_Previous := Some (pr_Cid r1)\<rparr>"
    using p2 d f(8,9,10)
    by (auto simp: Tree_Put_unfold putMeta_def Let_def t2_def split: option.splits)
  show ?thesis using l p2 ne h f2(1,2) by (simp add: t2_def)
qed

section \<open>Properties of the tree operations\<close>

lemma ex_root_simps:
  "t_userland ex_root = []" "t_skeleton ex_root = []" "t_cid ex_root = Undef" "t_store ex_root = 0"
  "t_metadata ex_root = None"
  "h_Info (t_h ex_root) = Some \<lparr>i_WNFS = LatestVersion, i_Type = NTDir, i_Mode = ModeDefault,
          i_Ctime = 1000, i_Mtime = 1000, i_Size = 0\<rparr>"
  "h_Previous (t_h ex_root) = None"
  by (simp_all add: ex_root_def ex_world_def NewEmptyTree_def NewInfo_def Timestamp_def emptyHeader_def NewLinks_def)

lemma Tree_Rm_leaf:
  "Tree_Rm w t [name] =
     (if name = [] then Inl (Err ''invalid path: empty'')
      else case removeUserlandLink w t name of (t1, w2) \<Rightarrow> Tree_Put w2 t1)"
  by (subst Tree_Rm.simps) (simp add: Shift_def split: prod.splits)

lemma Tree_Rm_interior_absent:
  "name \<noteq> [] \<Longrightarrow> Links_Get (t_userland t) name = None \<Longrightarrow>
   Tree_Rm w t (name # x # xs) = Inl ErrNotFound"
  by (subst Tree_Rm.simps) (simp add: Shift_def)

text \<open>
  C2 at the leaf step. \<^verbatim>\<open>Rm\<close> of a path of one segment calls
  \<^verbatim>\<open>removeUserlandLink\<close> without looking the name up: when the name is not in the
  userland of the tree, \<^verbatim>\<open>Rm\<close> still succeeds and \<^verbatim>\<open>Put\<close> writes a new revision
  with a new cid, where the claim expects \<open>NotFound\<close> and no new revision. (At an
  interior step an absent name is \<open>NotFound\<close>: lemma \<open>Tree_Rm_interior_absent\<close>.)
\<close>

theorem Rm_absent_leaf_new_revision:
  assumes "name \<noteq> []" "h_Info (t_h t) = Some i" "Links_Get (t_userland t) name = None"
  shows "\<exists>res t' w'. Tree_Rm w t [name] = Inr (res, t', w') \<and> pr_Cid res = t_cid t' \<and>
           t_cid t' \<noteq> t_cid t"
proof -
  obtain t1 w2 where r: "removeUserlandLink w t name = (t1, w2)" by fastforce
  then have c: "t_cid t1 = t_cid t" and "h_Info (t_h t1) = Some (i\<lparr>i_Mtime := fst (Timestamp w)\<rparr>)"
    using assms(2) by (auto simp: removeUserlandLink_def split: prod.splits)
  from Tree_Put_Inr[OF this(2)] obtain res t' w' where p: "Tree_Put w2 t1 = Inr (res, t', w')"
    by blast
  show ?thesis
    using assms(1) r p Tree_Put_fields(8)[OF p] Tree_Put_new_cid[OF p] c
    by (simp add: Tree_Rm_leaf)
qed

text \<open>
  Removing the name \<open>nope\<close> from the fresh, empty root of the example world.
\<close>

theorem Rm_absent_leaf_new_revision_witness:
  "\<exists>res t' w'. Tree_Rm ex_world1 ex_root [''nope''] = Inr (res, t', w') \<and> pr_Cid res = t_cid t' \<and>
           t_cid t' \<noteq> t_cid ex_root"
  using Rm_absent_leaf_new_revision[of "''nope''" ex_root _ ex_world1]
  by (simp add: ex_root_simps Links_Get_def)


lemma Tree_Mkdir_leaf:
  "Tree_Mkdir w t [name] =
     (case getOrCreateDirectChildTree w t name of
        Inl e \<Rightarrow> Inl e
      | Inr (childDir, w1) \<Rightarrow>
          (case Tree_Put w1 childDir of
             Inl e \<Rightarrow> Inl e
           | Inr (res, childDir', w2) \<Rightarrow>
               (case updateUserlandLink w2 t name res of (t2, w3) \<Rightarrow> Tree_Put w3 t2)))"
  by (subst Tree_Mkdir.simps) (simp add: Shift_def split: sum.splits prod.splits)

lemma Tree_Mkdir_interior:
  "Tree_Mkdir w t (name # x # xs) =
     (case getOrCreateDirectChildTree w t name of
        Inl e \<Rightarrow> Inl e
      | Inr (childDir, w1) \<Rightarrow>
          (case Tree_Mkdir w1 t (x # xs) of
             Inl e \<Rightarrow> Inl e
           | Inr (res, t1, w2) \<Rightarrow>
               (case updateUserlandLink w2 t1 name res of (t2, w3) \<Rightarrow> Tree_Put w3 t2)))"
  by (subst Tree_Mkdir.simps) (simp add: Shift_def split: sum.splits prod.splits)

lemma isFileType_zero: "\<not> isFileType 0"
  by (simp add: isFileType_def NTFile_def NTLDFile_def)

lemma Links_Get_Add:
  "Links_Get (Links_Add ls l) name =
     (if name = l_Name l then Some \<lparr>l_Name = name, l_Cid = l_Cid l, l_IsFile = l_IsFile l\<rparr>
      else Links_Get ls name)"
  by (simp add: Links_Get_def Links_Add_def update_conv')

lemma updateUserlandLink_fields:
  assumes "updateUserlandLink w t name res = (t', w')"
  shows "t_userland t' = Links_Add (t_userland t) (ToLink res name)"
    "t_skeleton t' = AList.update name (ToSkeletonInfo res) (t_skeleton t)"
    "t_cid t' = t_cid t" "t_store t' = t_store t" "t_name t' = t_name t"
    "t_metadata t' = t_metadata t"
    "h_Info (t_h t') = map_option (\<lambda>i. i\<lparr>i_Mtime := word_of_int (clock w (ticks w))\<rparr>) (h_Info (t_h t))"
    "h_Merge (t_h t') = None" "h_Previous (t_h t') = h_Previous (t_h t)"
    "ticks w' = Suc (ticks w)" "clock w' = clock w" "stores w' = stores w" "blockSize w' = blockSize w"
  using assms by (auto simp: updateUserlandLink_def Timestamp_def)

lemma Tree_Mkdir_leaf_absent:
  assumes i: "h_Info (t_h t) = Some i" and a: "Links_Get (t_userland t) name = None"
  shows "\<exists>res t' w' c. Tree_Mkdir w t [name] = Inr (res, t', w') \<and> pr_Cid res = t_cid t' \<and>
           pr_Type res = 0 \<and>
           t_userland t' = Links_Add (t_userland t) \<lparr>l_Name = name, l_Cid = c, l_IsFile = False\<rparr> \<and>
           h_Info (t_h t') \<noteq> None"
proof -
  obtain ch w1 where n: "NewEmptyTree w (t_store t) name = (ch, w1)" by fastforce
  then have "h_Info (t_h ch) \<noteq> None"
    by (auto simp: NewEmptyTree_def NewInfo_def emptyHeader_def split: prod.splits)
  then obtain res ch' w2 where p: "Tree_Put w1 ch = Inr (res, ch', w2)"
    using Tree_Put_Inr by fastforce
  obtain t2 w3 where u: "updateUserlandLink w2 t name res = (t2, w3)" by fastforce
  note uf = updateUserlandLink_fields[OF u]
  have "h_Info (t_h t2) \<noteq> None" using uf(7) i by simp
  then obtain res' t' w' where p': "Tree_Put w3 t2 = Inr (res', t', w')"
    using Tree_Put_Inr by fastforce
  note f' = Tree_Put_fields[OF p']
  have "Tree_Mkdir w t [name] = Inr (res', t', w')"
    using a n p u p' by (simp add: Tree_Mkdir_leaf getOrCreateDirectChildTree_def)
  moreover have "t_userland t' = Links_Add (t_userland t) \<lparr>l_Name = name, l_Cid = pr_Cid res, l_IsFile = False\<rparr>"
    using f'(1) uf(1) Tree_Put_fields(14)[OF p] by (simp add: ToLink_def isFileType_zero)
  ultimately show ?thesis using f'(8,14,5) uf(7) i by auto
qed

text \<open>
  C7 at \<open>max = 1\<close>. The loop of \<^verbatim>\<open>history\<close> compares the length of the log with
  \<open>max\<close> only after it has appended an entry, when the log has two entries or more, so
  the bound 1 is never met: a tree persisted twice has a chain of two revisions, and
  \<open>History 1\<close> returns both.
\<close>

theorem Tree_History_max_one:
  assumes i: "h_Info (t_h t0) = Some i" and u: "\<not> Defined (t_cid t0)" "h_Previous (t_h t0) = None"
  shows "\<exists>r1 t1 w1 r2 t2 w2 e2 e1.
           Tree_Put w t0 = Inr (r1, t1, w1) \<and> Tree_Put w1 t1 = Inr (r2, t2, w2) \<and>
           Tree_History w2 t2 1 = Inr [e2, e1]"
proof -
  from Tree_Put_Inr[OF i] obtain r1 t1 w1 where p1: "Tree_Put w t0 = Inr (r1, t1, w1)" by blast
  note f1 = Tree_Put_fields[OF p1] and g1 = Tree_Put_world[OF p1]
  have i1: "h_Info (t_h t1) = Some i" using f1(5) i by simp
  from Tree_Put_Inr[OF i1] obtain r2 t2 w2 where p2: "Tree_Put w1 t1 = Inr (r2, t2, w2)" by blast
  note f2 = Tree_Put_fields[OF p2] and g2 = Tree_Put_world[OF p2]
  have i2: "h_Info (t_h t2) = Some i" using f2(5) i1 by simp
  have pr1: "h_Previous (t_h t1) = None" using f1(11) u by simp
  have pr2: "h_Previous (t_h t2) = Some (t_cid t1)" using f2(11) f1(7) by simp
  have "t_cid t1 \<in> stores w2 (t_store t1)" using g1(5) g2(4)[of "t_store t0"] f1(3) by auto
  then have "loadHeader w2 (t_store t1) (t_cid t1) = Inr (t_h t1)"
    using loadHeader_encoded[OF _ i1] f1(7) by simp
  then have l: "loadHistoryEntry w2 (t_store t2) (t_cid t1) =
       Inr \<lparr>he_Cid = t_cid t1, he_Previous = None, he_Size = i_Size i, he_Type = i_Type i,
            he_Mtime = i_Mtime i\<rparr>"
    using f2(3) by (simp add: loadHistoryEntry_def entryOf_def i1 pr1)
  have "Tree_History w2 t2 1 =
      Inr [\<lparr>he_Cid = t_cid t2, he_Previous = Some (t_cid t1), he_Size = i_Size i, he_Type = i_Type i,
            he_Mtime = i_Mtime i\<rparr>,
           \<lparr>he_Cid = t_cid t1, he_Previous = None, he_Size = i_Size i, he_Type = i_Type i,
            he_Mtime = i_Mtime i\<rparr>]"
    apply (simp add: Tree_History_def history_def Tree_AsHistoryEntry_def entryOf_def i2 pr2)
    apply (subst history_loop.simps)
    apply (simp add: l)
    apply (subst history_loop.simps)
    apply simp
    done
  then show ?thesis using p1 p2 by blast
qed

text \<open>
  The fresh root of the example world, persisted twice.
\<close>

theorem Tree_History_max_one_witness:
  "\<exists>r1 t1 w1 r2 t2 w2 e2 e1.
           Tree_Put ex_world1 ex_root = Inr (r1, t1, w1) \<and> Tree_Put w1 t1 = Inr (r2, t2, w2) \<and>
           Tree_History w2 t2 1 = Inr [e2, e1]"
  using Tree_History_max_one[of ex_root _ ex_world1]
  by (simp add: ex_root_simps)

text \<open>
  The hypotheses of \<open>Put_reload_Put\<close> hold of the fresh root of the example world.
\<close>

theorem Put_reload_Put_witness:
  "\<exists>r1 t1 w1 t2 r2 t3 w3.
           Tree_Put ex_world1 ex_root = Inr (r1, t1, w1) \<and>
           LoadTree w1 (t_store ex_root) ''root'' (pr_Cid r1) = Inr t2 \<and>
           Tree_Put w1 t2 = Inr (r2, t3, w3) \<and>
           pr_Cid r2 \<noteq> pr_Cid r1 \<and>
           t_h t3 = (t_h t1)\<lparr>h_Previous := Some (pr_Cid r1)\<rparr> \<and>
           t_userland t3 = t_userland ex_root \<and> t_skeleton t3 = t_skeleton ex_root"
proof -
  obtain r1 t1 w1 where p: "Tree_Put ex_world1 ex_root = Inr (r1, t1, w1)"
    using Tree_Put_Inr[OF ex_root_simps(6)] by blast
  from Put_reload_Put[OF p ex_root_simps(6), of "''root''"] show ?thesis
    using p by (simp add: ex_root_simps)
qed

text \<open>
  C4, as the claim states it, fails: for the fresh root of the example world the second
  Put does not return the cid of the first.
\<close>

theorem putStable_counterexample:
  "putStable ex_world1 ex_root ''root'' = Inr False"
proof -
  obtain r1 t1 w1 where p: "Tree_Put ex_world1 ex_root = Inr (r1, t1, w1)"
    using Tree_Put_Inr[OF ex_root_simps(6)] by blast
  from Put_reload_Put[OF p ex_root_simps(6), of "''root''"] show ?thesis
    using p Tree_Put_fields(3)[OF p] by (auto simp: ex_root_simps putStable_def)
qed

section \<open>Properties kept by every operation\<close>

lemma Tree_Add_leaf:
  "Tree_Add w t [name] f =
     (case createOrUpdateChildFile w t name f of
        Inl e \<Rightarrow> Inl e
      | Inr (res, w2) \<Rightarrow>
          (case updateUserlandLink w2 t name res of (t2, w3) \<Rightarrow> Tree_Put w3 t2))"
  by (subst Tree_Add.simps) (simp add: Shift_def)

lemma Tree_Add_interior:
  "Tree_Add w t (name # x # xs) f =
     (case getOrCreateDirectChildTree w t name of
        Inl e \<Rightarrow> Inl e
      | Inr (childDir, w1) \<Rightarrow>
          (case Tree_Add w1 childDir (x # xs) f of
             Inl e \<Rightarrow> Inl e
           | Inr (res, childDir', w2) \<Rightarrow>
               (case updateUserlandLink w2 t name res of (t2, w3) \<Rightarrow> Tree_Put w3 t2)))"
  by (subst Tree_Add.simps) (simp add: Shift_def split: sum.splits prod.splits)

lemma Tree_Copy_leaf:
  "Tree_Copy w t [name] src =
     (case (case src of None \<Rightarrow> Inl (Err ''open'')
            | Some f \<Rightarrow> createOrUpdateChild w t name f) of
        Inl e \<Rightarrow> Inl e
      | Inr (None, w2) \<Rightarrow> Inl (Panic ''nil PutResult'')
      | Inr (Some res, w2) \<Rightarrow>
          (case updateUserlandLink w2 t name res of (t2, w3) \<Rightarrow> Tree_Put w3 t2))"
  by (subst Tree_Copy.simps) (simp add: Shift_def)

lemma Tree_Copy_interior:
  "Tree_Copy w t (name # x # xs) src =
     (case getOrCreateDirectChildTree w t name of
        Inl e \<Rightarrow> Inl e
      | Inr (childDir, w1) \<Rightarrow>
          (case Tree_Copy w1 childDir (x # xs) src of
             Inl e \<Rightarrow> Inl e
           | Inr (res, childDir', w2) \<Rightarrow>
               (case updateUserlandLink w2 t name res of (t2, w3) \<Rightarrow> Tree_Put w3 t2)))"
  by (subst Tree_Copy.simps) (simp add: Shift_def split: sum.splits prod.splits)

lemma Tree_Rm_interior:
  "Tree_Rm w t (name # x # xs) =
     (if name = [] then Inl (Err ''invalid path: empty'')
      else case Links_Get (t_userland t) name of
        None \<Rightarrow> Inl ErrNotFound
      | Some link \<Rightarrow>
          (case LoadTree w (t_store t) name (l_Cid link) of
             Inl e \<Rightarrow> Inl e
           | Inr child \<Rightarrow>
               (case Tree_Rm w child (x # xs) of
                  Inl e \<Rightarrow> Inl e
                | Inr (res, child', w1) \<Rightarrow>
                    (case updateUserlandLink w1 t name res of (t1, w2) \<Rightarrow> Tree_Put w2 t1))))"
  by (subst Tree_Rm.simps) (simp add: Shift_def split: sum.splits prod.splits option.splits)

lemma Tree_Rm_Nil: "Tree_Rm w t [] = Inl (Err ''invalid path: empty'')"
  by (subst Tree_Rm.simps) (simp add: Shift_def)

lemma Tree_Mkdir_Nil: "Tree_Mkdir w t [] = Inl (Err ''invalid path: empty'')"
  by (subst Tree_Mkdir.simps) simp

lemma Tree_Add_Nil: "Tree_Add w t [] f = Inl (Err ''invalid path: empty'')"
  by (subst Tree_Add.simps) simp

lemma Tree_Copy_Nil: "Tree_Copy w t [] src = Inl (Err ''invalid path: empty'')"
  by (subst Tree_Copy.simps) simp

lemma kept_update: "keptBySteps P \<Longrightarrow> P t \<Longrightarrow> updateUserlandLink w t name res = (t', w') \<Longrightarrow> P t'"
  unfolding keptBySteps_def by (metis fst_conv)

lemma kept_remove: "keptBySteps P \<Longrightarrow> P t \<Longrightarrow> removeUserlandLink w t name = (t', w') \<Longrightarrow> P t'"
  unfolding keptBySteps_def by (metis fst_conv)

lemma kept_Put: "keptBySteps P \<Longrightarrow> P t \<Longrightarrow> Tree_Put w t = Inr (res, t', w') \<Longrightarrow> P t'"
  unfolding keptBySteps_def by blast

lemma kept_update_Put:
  assumes k: "keptBySteps P" and p: "P t"
    and r: "(case updateUserlandLink w t name res of (t2, w3) \<Rightarrow> Tree_Put w3 t2) = Inr (res', t', w')"
  shows "P t'"
proof -
  obtain t2 w3 where u: "updateUserlandLink w t name res = (t2, w3)" by fastforce
  with r have "Tree_Put w3 t2 = Inr (res', t', w')" by simp
  with kept_update[OF k p u] show ?thesis using kept_Put[OF k] by blast
qed

lemma Tree_Mkdir_kept:
  assumes k: "keptBySteps P"
  shows "P t \<Longrightarrow> Tree_Mkdir w t path = Inr (res, t', w') \<Longrightarrow> P t'"
proof (induction path arbitrary: w t res t' w')
  case Nil
  then show ?case by (simp add: Tree_Mkdir_Nil)
next
  case (Cons name rest)
  show ?case
  proof (cases rest)
    case Nil
    with Cons.prems(2) obtain res1 w2 where
      "(case updateUserlandLink w2 t name res1 of (t2, w3) \<Rightarrow> Tree_Put w3 t2) = Inr (res, t', w')"
      by (auto simp: Tree_Mkdir_leaf split: sum.splits prod.splits)
    then show ?thesis using kept_update_Put[OF k Cons.prems(1)] by blast
  next
    case (Cons x xs)
    with Cons.prems(2) obtain w1 res1 t1 w2 where
      m: "Tree_Mkdir w1 t rest = Inr (res1, t1, w2)"
      and u: "(case updateUserlandLink w2 t1 name res1 of (t2, w3) \<Rightarrow> Tree_Put w3 t2) = Inr (res, t', w')"
      by (auto simp: Tree_Mkdir_interior split: sum.splits prod.splits)
    from Cons.IH[OF Cons.prems(1) m] have "P t1" .
    then show ?thesis using kept_update_Put[OF k _ u] by blast
  qed
qed

lemma Tree_Rm_kept:
  assumes k: "keptBySteps P" and p: "P t" and r: "Tree_Rm w t path = Inr (res, t', w')"
  shows "P t'"
proof (cases path)
  case Nil
  with r show ?thesis by (simp add: Tree_Rm_Nil)
next
  case (Cons name rest)
  show ?thesis
  proof (cases rest)
    case Nil
    with Cons r obtain t1 w2 where "removeUserlandLink w t name = (t1, w2)"
      "Tree_Put w2 t1 = Inr (res, t', w')"
      by (auto simp: Tree_Rm_leaf split: if_splits prod.splits)
    then show ?thesis using kept_remove[OF k p] kept_Put[OF k] by blast
  next
    case (Cons x xs)
    with \<open>path = name # rest\<close> r obtain res1 w1 where
      "(case updateUserlandLink w1 t name res1 of (t2, w3) \<Rightarrow> Tree_Put w3 t2) = Inr (res, t', w')"
      by (auto simp: Tree_Rm_interior split: if_splits sum.splits option.splits)
    then show ?thesis using kept_update_Put[OF k p] by blast
  qed
qed

lemma Tree_Add_kept:
  assumes k: "keptBySteps P" and p: "P t" and r: "Tree_Add w t path f = Inr (res, t', w')"
  shows "P t'"
proof -
  have "\<exists>res1 w2. (case updateUserlandLink w2 t name res1 of (t2, w3) \<Rightarrow> Tree_Put w3 t2) = Inr (res, t', w')"
    if "path = name # rest" for name rest
  proof (cases rest)
    case Nil
    with that r show ?thesis by (fastforce simp: Tree_Add_leaf split: sum.splits)
  next
    case (Cons x xs)
    with that r show ?thesis by (fastforce simp: Tree_Add_interior split: sum.splits)
  qed
  then show ?thesis
    using r kept_update_Put[OF k p] by (cases path) (auto simp: Tree_Add_Nil)
qed

lemma Tree_Copy_kept:
  assumes k: "keptBySteps P" and p: "P t" and r: "Tree_Copy w t path src = Inr (res, t', w')"
  shows "P t'"
proof -
  have "\<exists>res1 w2. (case updateUserlandLink w2 t name res1 of (t2, w3) \<Rightarrow> Tree_Put w3 t2) = Inr (res, t', w')"
    if "path = name # rest" for name rest
  proof (cases rest)
    case Nil
    with that r show ?thesis by (fastforce simp: Tree_Copy_leaf split: sum.splits option.splits)
  next
    case (Cons x xs)
    with that r show ?thesis by (fastforce simp: Tree_Copy_interior split: sum.splits)
  qed
  then show ?thesis
    using r kept_update_Put[OF k p] by (cases path) (auto simp: Tree_Copy_Nil)
qed

section \<open>Size bookkeeping\<close>

lemma File_Put_Inr:
  assumes "f_content f = Some bytes" "h_Info (f_h f) = Some i"
  shows "\<exists>res f' w'. File_Put w f = Inr (res, f', w') \<and> pr_Size res = i_Size i \<and>
           pr_Type res = i_Type i \<and> h_Info (f_h f') = Some i \<and> pr_Cid res = f_cid f' \<and>
           pr_Userland res = Cid (FileBlock bytes)"
  using assms
  by (cases "f_metadata f")
     (auto simp: File_Put_def PutFile_def Let_def zeroPutResult_def block_Cid_def split: prod.splits)

lemma File_Put_size:
  assumes "File_Put w f = Inr (res, f', w')"
  shows "\<exists>i. h_Info (f_h f) = Some i \<and> h_Info (f_h f') = Some i \<and> pr_Size res = i_Size i"
proof -
  from assms obtain bytes where b: "f_content f = Some bytes"
    by (auto simp: File_Put_def split: option.splits)
  from assms b obtain i where i: "h_Info (f_h f) = Some i"
    by (cases "f_metadata f"; cases "h_Info (f_h f)")
       (auto simp: File_Put_def PutFile_def Let_def split: prod.splits if_splits)
  from File_Put_Inr[OF b i, of w] assms show ?thesis using i by auto
qed

lemma NewFile_fields:
  assumes "NewFile w st name bytes wrapped = (f, w')"
  shows "f_content f = Some bytes" "f_cid f = Undef" "f_store f = st"
    "\<exists>i. h_Info (f_h f) = Some i \<and> i_Size i = 0 \<and> i_Type i = NTFile"
  using assms
  by (auto simp: NewFile_def NewFileMetadata_def NewInfo_def NewLDFile_def Timestamp_def
        emptyHeader_def Let_def split: option.splits prod.splits)

text \<open>
  C6, as the code has it. No \<^verbatim>\<open>Put\<close> computes a size: the size in the info of a file
  or tree after a successful \<^verbatim>\<open>Put\<close>, and in the \<^verbatim>\<open>PutResult\<close>, is the size the
  header carried before it; \<^verbatim>\<open>updateUserlandLink\<close> leaves the size of the directory as it
  is; and the size of a node made by \<^verbatim>\<open>NewFile\<close> or \<^verbatim>\<open>NewEmptyTree\<close> is 0.
\<close>

theorem Put_size_carried:
  assumes "File_Put w f = Inr (res, f', w')" and "Tree_Put w2 t = Inr (res2, t', w2')"
  shows "(\<exists>i. h_Info (f_h f) = Some i \<and> h_Info (f_h f') = Some i \<and> pr_Size res = i_Size i) \<and>
         (\<exists>i. h_Info (t_h t) = Some i \<and> h_Info (t_h t') = Some i \<and> pr_Size res2 = i_Size i) \<and>
         map_option i_Size (h_Info (t_h (fst (updateUserlandLink w3 t name res3)))) =
           map_option i_Size (h_Info (t_h t)) \<and>
         map_option i_Size (h_Info (f_h (fst (NewFile w4 st n bytes wrapped)))) = Some 0 \<and>
         map_option i_Size (h_Info (t_h (fst (NewEmptyTree w4 st n)))) = Some 0"
proof -
  have a: "\<exists>i. h_Info (f_h f) = Some i \<and> h_Info (f_h f') = Some i \<and> pr_Size res = i_Size i"
    using File_Put_size[OF assms(1)] .
  have b: "\<exists>i. h_Info (t_h t) = Some i \<and> h_Info (t_h t') = Some i \<and> pr_Size res2 = i_Size i"
    using Tree_Put_fields(5,16)[OF assms(2)] by auto
  have c: "map_option i_Size (h_Info (t_h (fst (updateUserlandLink w3 t name res3)))) =
           map_option i_Size (h_Info (t_h t))"
    by (cases "h_Info (t_h t)") (simp_all add: updateUserlandLink_def Timestamp_def)
  obtain f0 w0 where n: "NewFile w4 st n bytes wrapped = (f0, w0)" by fastforce
  have d: "map_option i_Size (h_Info (f_h (fst (NewFile w4 st n bytes wrapped)))) = Some 0"
    using NewFile_fields(4)[OF n] n by auto
  have e: "map_option i_Size (h_Info (t_h (fst (NewEmptyTree w4 st n)))) = Some 0"
    by (simp add: NewEmptyTree_def NewInfo_def Timestamp_def emptyHeader_def)
  show ?thesis using a b c d e by blast
qed

lemma ex_file_simps:
  "f_content ex_file = Some [104, 101, 108, 108, 111]"
  "h_Info (f_h ex_file) = Some \<lparr>i_WNFS = LatestVersion, i_Type = NTFile, i_Mode = ModeDefault,
          i_Ctime = 1000, i_Mtime = 1000, i_Size = 0\<rparr>"
  "f_store ex_file = 0" "f_metadata ex_file = None" "f_cid ex_file = Undef"
  by (simp_all add: ex_file_def ex_world_def NewFile_def NewFileMetadata_def NewInfo_def
        Timestamp_def emptyHeader_def)

text \<open>
  The example file and the fresh root are both put with size 0.
\<close>

theorem Put_size_carried_witness:
  "\<exists>res f' w' res2 t' w2'.
     File_Put ex_world ex_file = Inr (res, f', w') \<and> Tree_Put ex_world1 ex_root = Inr (res2, t', w2') \<and>
     pr_Size res = 0 \<and> pr_Size res2 = 0"
proof -
  obtain res f' w' where f: "File_Put ex_world ex_file = Inr (res, f', w')"
    using File_Put_Inr[OF ex_file_simps(1,2)] by blast
  obtain res2 t' w2' where t: "Tree_Put ex_world1 ex_root = Inr (res2, t', w2')"
    using Tree_Put_Inr[OF ex_root_simps(6)] by blast
  from Put_size_carried[OF f t] show ?thesis
    using f t by (auto simp: ex_file_simps ex_root_simps)
qed

text \<open>
  C6, as the claim states it, fails: the file-writer reports five bytes for the example
  file, and its \<^verbatim>\<open>Put\<close> returns another size (0).
\<close>

theorem File_Put_Size_counterexample:
  "\<not> (File_Put_Size ex_world ex_file =
        Inr (pf_Size (fst (PutFile ex_world (f_store ex_file) [104, 101, 108, 108, 111]))))"
proof -
  obtain res f' w' where f: "File_Put ex_world ex_file = Inr (res, f', w')" and "pr_Size res = 0"
    using File_Put_Inr[OF ex_file_simps(1,2), of ex_world] by auto
  then show ?thesis by (simp add: File_Put_Size_def PutFile_def)
qed

section \<open>Modification time\<close>

lemma Tree_ModTime_ctimeOf:
  "Tree_ModTime t = (case ctimeOf t of None \<Rightarrow> Inl (Panic ''nil Info'') | Some c \<Rightarrow> Inr (Unix c 0))"
  by (simp add: Tree_ModTime_def ctimeOf_def split: option.splits)

lemma removeUserlandLink_fields:
  assumes "removeUserlandLink w t name = (t', w')"
  shows "t_userland t' = Links_Remove (t_userland t) name"
    "t_skeleton t' = AList.delete name (t_skeleton t)"
    "t_cid t' = t_cid t" "t_store t' = t_store t" "t_name t' = t_name t"
    "t_metadata t' = t_metadata t"
    "h_Info (t_h t') = map_option (\<lambda>i. i\<lparr>i_Mtime := word_of_int (clock w (ticks w))\<rparr>) (h_Info (t_h t))"
    "h_Merge (t_h t') = None" "h_Previous (t_h t') = h_Previous (t_h t)"
    "ticks w' = Suc (ticks w)" "clock w' = clock w" "stores w' = stores w" "blockSize w' = blockSize w"
  using assms by (auto simp: removeUserlandLink_def Timestamp_def)

lemma keptBySteps_ctime: "keptBySteps (\<lambda>t. ctimeOf t = c)"
  unfolding keptBySteps_def
proof (intro conjI allI impI)
  fix w t name res assume "ctimeOf t = c"
  then show "ctimeOf (fst (updateUserlandLink w t name res)) = c"
    by (cases "h_Info (t_h t)") (auto simp: ctimeOf_def updateUserlandLink_def Timestamp_def)
next
  fix w t name assume "ctimeOf t = c"
  then show "ctimeOf (fst (removeUserlandLink w t name)) = c"
    by (cases "h_Info (t_h t)") (auto simp: ctimeOf_def removeUserlandLink_def Timestamp_def)
next
  fix w t res t' w' assume "ctimeOf t = c" "Tree_Put w t = Inr (res, t', w')"
  then show "ctimeOf t' = c" using Tree_Put_fields(5) by (simp add: ctimeOf_def)
qed

text \<open>
  C10. \<^verbatim>\<open>Tree.ModTime\<close> is \<^verbatim>\<open>time.Unix\<close> of the \<open>ctime\<close> of the info, where
  \<^verbatim>\<open>File.ModTime\<close> is that of the \<open>mtime\<close>. \<^verbatim>\<open>updateUserlandLink\<close> and
  \<^verbatim>\<open>removeUserlandLink\<close> set \<open>mtime\<close> to the current timestamp, and the
  modification time a tree reports is the same before and after them and after every
  successful \<^verbatim>\<open>Mkdir\<close>, \<^verbatim>\<open>Rm\<close>, \<^verbatim>\<open>Add\<close> and \<^verbatim>\<open>Copy\<close>.
\<close>

theorem Tree_ModTime_ctime:
  assumes i: "h_Info (t_h t) = Some i" and j: "h_Info (f_h f) = Some j"
  shows "Tree_ModTime t = Inr (Unix (i_Ctime i) 0) \<and>
         File_ModTime f = Inr (Unix (i_Mtime j) 0) \<and>
         h_Info (t_h (fst (updateUserlandLink w t name r))) = Some (i\<lparr>i_Mtime := fst (Timestamp w)\<rparr>) \<and>
         h_Info (t_h (fst (removeUserlandLink w t name))) = Some (i\<lparr>i_Mtime := fst (Timestamp w)\<rparr>) \<and>
         Tree_ModTime (fst (updateUserlandLink w t name r)) = Tree_ModTime t \<and>
         Tree_ModTime (fst (removeUserlandLink w t name)) = Tree_ModTime t \<and>
         (Tree_Mkdir w t path = Inr (res, t', w') \<longrightarrow> Tree_ModTime t' = Tree_ModTime t) \<and>
         (Tree_Rm w t path = Inr (res, t', w') \<longrightarrow> Tree_ModTime t' = Tree_ModTime t) \<and>
         (Tree_Add w t path file = Inr (res, t', w') \<longrightarrow> Tree_ModTime t' = Tree_ModTime t) \<and>
         (Tree_Copy w t path src = Inr (res, t', w') \<longrightarrow> Tree_ModTime t' = Tree_ModTime t)"
proof -
  note k = keptBySteps_ctime[of "ctimeOf t"]
  have 1: "Tree_ModTime t = Inr (Unix (i_Ctime i) 0)" using i by (simp add: Tree_ModTime_def)
  have 2: "File_ModTime f = Inr (Unix (i_Mtime j) 0)" using j by (simp add: File_ModTime_def)
  have 3: "h_Info (t_h (fst (updateUserlandLink w t name r))) = Some (i\<lparr>i_Mtime := fst (Timestamp w)\<rparr>)"
    using i by (simp add: updateUserlandLink_def Timestamp_def)
  have 4: "h_Info (t_h (fst (removeUserlandLink w t name))) = Some (i\<lparr>i_Mtime := fst (Timestamp w)\<rparr>)"
    using i by (simp add: removeUserlandLink_def Timestamp_def)
  have 5: "Tree_ModTime (fst (updateUserlandLink w t name r)) = Tree_ModTime t"
    using 3 i by (simp add: Tree_ModTime_def)
  have 6: "Tree_ModTime (fst (removeUserlandLink w t name)) = Tree_ModTime t"
    using 4 i by (simp add: Tree_ModTime_def)
  have 7: "Tree_ModTime t' = Tree_ModTime t" if "Tree_Mkdir w t path = Inr (res, t', w')"
    using Tree_Mkdir_kept[OF k refl that] by (simp add: Tree_ModTime_ctimeOf)
  have 8: "Tree_ModTime t' = Tree_ModTime t" if "Tree_Rm w t path = Inr (res, t', w')"
    using Tree_Rm_kept[OF k refl that] by (simp add: Tree_ModTime_ctimeOf)
  have 9: "Tree_ModTime t' = Tree_ModTime t" if "Tree_Add w t path file = Inr (res, t', w')"
    using Tree_Add_kept[OF k refl that] by (simp add: Tree_ModTime_ctimeOf)
  have 10: "Tree_ModTime t' = Tree_ModTime t" if "Tree_Copy w t path src = Inr (res, t', w')"
    using Tree_Copy_kept[OF k refl that] by (simp add: Tree_ModTime_ctimeOf)
  show ?thesis using 1 2 3 4 5 6 7 8 9 10 by blast
qed

text \<open>Operations that succeed on a tree with an info, at a path of one absent segment.\<close>

lemma updateUserlandLink_Put_Inr:
  assumes "h_Info (t_h t) = Some i"
  shows "\<exists>res' t' w'. (case updateUserlandLink w t name res of (t2, w3) \<Rightarrow> Tree_Put w3 t2) = Inr (res', t', w')"
proof -
  obtain t2 w3 where u: "updateUserlandLink w t name res = (t2, w3)" by fastforce
  have "h_Info (t_h t2) \<noteq> None" using updateUserlandLink_fields(7)[OF u] assms by simp
  then show ?thesis using u Tree_Put_Inr[of t2 _ w3] by auto
qed

lemma Tree_Rm_leaf_Inr:
  assumes "name \<noteq> []" "h_Info (t_h t) = Some i"
  shows "\<exists>res t' w'. Tree_Rm w t [name] = Inr (res, t', w')"
proof -
  obtain t1 w2 where r: "removeUserlandLink w t name = (t1, w2)" by fastforce
  have "h_Info (t_h t1) \<noteq> None" using removeUserlandLink_fields(7)[OF r] assms by simp
  then show ?thesis using r assms(1) Tree_Put_Inr[of t1 _ w2] by (auto simp: Tree_Rm_leaf)
qed

lemma createOrUpdateChildFile_new_Inr:
  assumes "Links_Get (t_userland t) name = None"
  shows "\<exists>res w'. createOrUpdateChildFile w t name (OpaqueIn bytes wrapped) = Inr (res, w')"
proof -
  obtain ch w1 where n: "NewFile w (t_store t) name bytes wrapped = (ch, w1)" by fastforce
  from NewFile_fields(1,4)[OF n] File_Put_Inr[of ch bytes _ w1]
  obtain res ch' w' where "File_Put w1 ch = Inr (res, ch', w')" by blast
  then show ?thesis using assms n by (simp add: createOrUpdateChildFile_def)
qed

lemma Tree_Add_leaf_Inr:
  assumes "h_Info (t_h t) = Some i" "Links_Get (t_userland t) name = None"
  shows "\<exists>res t' w'. Tree_Add w t [name] (OpaqueIn bytes wrapped) = Inr (res, t', w')"
proof -
  from createOrUpdateChildFile_new_Inr[OF assms(2)] obtain res1 w1 where
    c: "createOrUpdateChildFile w t name (OpaqueIn bytes wrapped) = Inr (res1, w1)" by blast
  from updateUserlandLink_Put_Inr[OF assms(1), of w1 name res1]
  show ?thesis using c by (simp add: Tree_Add_leaf)
qed

lemma Tree_Copy_leaf_Inr:
  assumes "h_Info (t_h t) = Some i" "Links_Get (t_userland t) name = None"
  shows "\<exists>res t' w'. Tree_Copy w t [name] (Some (SrcFile (OpaqueIn bytes wrapped))) = Inr (res, t', w')"
proof -
  from createOrUpdateChildFile_new_Inr[OF assms(2)] obtain res1 w1 where
    c: "createOrUpdateChildFile w t name (OpaqueIn bytes wrapped) = Inr (res1, w1)" by blast
  from updateUserlandLink_Put_Inr[OF assms(1), of w1 name res1]
  show ?thesis using c by (simp add: Tree_Copy_leaf)
qed

text \<open>
  On the fresh root of the example world, created at time 1000: after each of the four
  operations the tree still reports 1000, while \<open>mtime\<close> has moved on.
\<close>

theorem Tree_ModTime_ctime_witness:
  "Tree_ModTime ex_root = Inr (Unix 1000 0) \<and>
   File_ModTime ex_file = Inr (Unix 1000 0) \<and>
   (\<exists>res t' w'. Tree_Mkdir ex_world1 ex_root [''a''] = Inr (res, t', w') \<and>
       Tree_ModTime t' = Inr (Unix 1000 0) \<and> map_option i_Mtime (h_Info (t_h t')) = Some 1002) \<and>
   (\<exists>res t' w'. Tree_Rm ex_world1 ex_root [''a''] = Inr (res, t', w') \<and>
       Tree_ModTime t' = Inr (Unix 1000 0)) \<and>
   (\<exists>res t' w'. Tree_Add ex_world1 ex_root [''a''] (OpaqueIn [104, 105] None) = Inr (res, t', w') \<and>
       Tree_ModTime t' = Inr (Unix 1000 0)) \<and>
   (\<exists>res t' w'. Tree_Copy ex_world1 ex_root [''a''] (Some (SrcFile (OpaqueIn [104, 105] None))) =
       Inr (res, t', w') \<and> Tree_ModTime t' = Inr (Unix 1000 0))"
proof -
  note i = ex_root_simps(6) and j = ex_file_simps(2)
  have l: "Links_Get (t_userland ex_root) ''a'' = None" by (simp add: ex_root_simps Links_Get_def)
  obtain r1 t1 w1 where m: "Tree_Mkdir ex_world1 ex_root [''a''] = Inr (r1, t1, w1)"
    using Tree_Mkdir_leaf_absent[OF i l] by blast
  obtain r2 t2 w2 where r: "Tree_Rm ex_world1 ex_root [''a''] = Inr (r2, t2, w2)"
    using Tree_Rm_leaf_Inr[OF _ i, of "''a''" ex_world1] by auto
  obtain r3 t3 w3 where a: "Tree_Add ex_world1 ex_root [''a''] (OpaqueIn [104, 105] None) = Inr (r3, t3, w3)"
    using Tree_Add_leaf_Inr[OF i l] by blast
  obtain r4 t4 w4 where c: "Tree_Copy ex_world1 ex_root [''a''] (Some (SrcFile (OpaqueIn [104, 105] None))) = Inr (r4, t4, w4)"
    using Tree_Copy_leaf_Inr[OF i l] by blast
  have mt: "map_option i_Mtime (h_Info (t_h t1)) = Some 1002"
  proof -
    obtain ch wa where n: "NewEmptyTree ex_world1 0 ''a'' = (ch, wa)" by fastforce
    then have ta: "ticks wa = 2" "clock wa = clock ex_world"
      by (auto simp: NewEmptyTree_def NewInfo_def Timestamp_def ex_world1_def ex_world_def)
    have g: "getOrCreateDirectChildTree ex_world1 ex_root ''a'' = Inr (ch, wa)"
      using n l by (simp add: getOrCreateDirectChildTree_def ex_root_simps)
    obtain rc ch' wb where p: "Tree_Put wa ch = Inr (rc, ch', wb)"
      using m by (auto simp: Tree_Mkdir_leaf g split: sum.splits)
    obtain tu wc where u: "updateUserlandLink wb ex_root ''a'' rc = (tu, wc)" by fastforce
    from m have p2: "Tree_Put wc tu = Inr (r1, t1, w1)"
      by (simp add: Tree_Mkdir_leaf g p u)
    have "h_Info (t_h tu) = map_option (\<lambda>i. i\<lparr>i_Mtime := word_of_int (clock wb (ticks wb))\<rparr>) (h_Info (t_h ex_root))"
      using updateUserlandLink_fields(7)[OF u] .
    moreover have "ticks wb = 2" "clock wb = clock ex_world"
      using Tree_Put_world(1,2)[OF p] ta by auto
    ultimately show ?thesis using Tree_Put_fields(5)[OF p2]
      by (simp add: ex_root_simps ex_world_def)
  qed
  from Tree_ModTime_ctime[OF i j, where path="[''a'']" and w=ex_world1 and res=r1 and t'=t1 and w'=w1] m
  have 1: "Tree_ModTime ex_root = Inr (Unix 1000 0)" "File_ModTime ex_file = Inr (Unix 1000 0)"
    "Tree_ModTime t1 = Inr (Unix 1000 0)" by auto
  from Tree_ModTime_ctime[OF i j, where path="[''a'']" and w=ex_world1 and res=r2 and t'=t2 and w'=w2] r 1
  have 2: "Tree_ModTime t2 = Inr (Unix 1000 0)" by auto
  from Tree_ModTime_ctime[OF i j, where path="[''a'']" and w=ex_world1 and res=r3 and t'=t3 and w'=w3] a 1
  have 3: "Tree_ModTime t3 = Inr (Unix 1000 0)" by auto
  from Tree_ModTime_ctime[OF i j, where path="[''a'']" and w=ex_world1 and res=r4 and t'=t4 and w'=w4] c 1
  have 4: "Tree_ModTime t4 = Inr (Unix 1000 0)" by auto
  show ?thesis using 1 2 3 4 m r a c mt by blast
qed

section \<open>Link/skeleton consistency\<close>

lemma consistent_iff:
  "consistent t \<longleftrightarrow>
     (\<forall>name l. Links_Get (t_userland t) name = Some l \<longrightarrow>
        (\<exists>s. map_of (t_skeleton t) name = Some s \<and> sk_Cid s = l_Cid l \<and> sk_IsFile s = l_IsFile l))"
proof
  assume c: "consistent t"
  show "\<forall>name l. Links_Get (t_userland t) name = Some l \<longrightarrow>
        (\<exists>s. map_of (t_skeleton t) name = Some s \<and> sk_Cid s = l_Cid l \<and> sk_IsFile s = l_IsFile l)"
  proof (intro allI impI)
    fix name l assume g: "Links_Get (t_userland t) name = Some l"
    then have "map_of (t_userland t) name \<noteq> None"
      by (auto simp: Links_Get_def split: option.splits)
    then have n: "name \<in> set (map fst (t_userland t))"
      by (simp add: map_of_eq_None_iff)
    from c have "\<forall>n \<in> set (map fst (t_userland t)).
        (case Links_Get (t_userland t) n of
           None \<Rightarrow> True
         | Some l \<Rightarrow>
             (case map_of (t_skeleton t) n of
                None \<Rightarrow> False
              | Some s \<Rightarrow> sk_Cid s = l_Cid l \<and> sk_IsFile s = l_IsFile l))"
      by (simp add: consistent_def list_all_iff)
    with n have "case map_of (t_skeleton t) name of
                None \<Rightarrow> False
              | Some s \<Rightarrow> sk_Cid s = l_Cid l \<and> sk_IsFile s = l_IsFile l"
      using g by fastforce
    then show "\<exists>s. map_of (t_skeleton t) name = Some s \<and> sk_Cid s = l_Cid l \<and> sk_IsFile s = l_IsFile l"
      by (cases "map_of (t_skeleton t) name") simp_all
  qed
next
  assume "\<forall>name l. Links_Get (t_userland t) name = Some l \<longrightarrow>
        (\<exists>s. map_of (t_skeleton t) name = Some s \<and> sk_Cid s = l_Cid l \<and> sk_IsFile s = l_IsFile l)"
  then have "\<And>n l. Links_Get (t_userland t) n = Some l \<Longrightarrow>
      (case map_of (t_skeleton t) n of
         None \<Rightarrow> False
       | Some s \<Rightarrow> sk_Cid s = l_Cid l \<and> sk_IsFile s = l_IsFile l)"
    by fastforce
  then show "consistent t"
    by (simp add: consistent_def list_all_iff split: option.splits)
qed

lemma Links_Get_Remove:
  "Links_Get (Links_Remove ls name) n = (if n = name then None else Links_Get ls n)"
  by (simp add: Links_Get_def Links_Remove_def delete_conv')

lemma consistent_update:
  assumes "consistent t"
    and "t_userland t' = Links_Add (t_userland t) \<lparr>l_Name = name, l_Cid = c, l_IsFile = f\<rparr>"
    and "t_skeleton t' = AList.update name s (t_skeleton t)"
    and "sk_Cid s = c" "sk_IsFile s = f"
  shows "consistent t'"
  using assms by (auto simp: consistent_iff Links_Get_Add update_conv')

lemma keptBySteps_consistent: "keptBySteps consistent"
  unfolding keptBySteps_def
proof (intro conjI allI impI)
  fix w t name res assume c: "consistent t"
  obtain t' w' where u: "updateUserlandLink w t name res = (t', w')" by fastforce
  have "consistent t'"
    by (rule consistent_update[OF c, where name=name and s="ToSkeletonInfo res"
          and c="pr_Cid res" and f="isFileType (pr_Type res)"])
       (simp_all add: updateUserlandLink_fields(1,2)[OF u] ToLink_def ToSkeletonInfo_def)
  then show "consistent (fst (updateUserlandLink w t name res))" using u by simp
next
  fix w t name assume c: "consistent t"
  obtain t' w' where u: "removeUserlandLink w t name = (t', w')" by fastforce
  have "consistent t'"
    using c removeUserlandLink_fields(1,2)[OF u]
    by (auto simp: consistent_iff Links_Get_Remove delete_conv')
  then show "consistent (fst (removeUserlandLink w t name))" using u by simp
next
  fix w t res t' w' assume "consistent t" "Tree_Put w t = Inr (res, t', w')"
  then show "consistent t'" using Tree_Put_fields(1,2) by (simp add: consistent_iff)
qed

lemma LoadFile_Inr:
  "LoadFile w st name c = Inr f \<Longrightarrow> f_cid f = c \<and> f_name f = name \<and> f_store f = st"
  by (auto simp: LoadFile_def split: sum.splits dest: fileFromHeader_Inr)

lemma LoadTree_Inr:
  "LoadTree w st name c = Inr t \<Longrightarrow> t_cid t = c \<and> t_name t = name \<and> t_store t = st"
  by (auto simp: LoadTree_def split: sum.splits dest: treeFromHeader_Inr)

lemma loadNodeFromSkeletonInfo_Inr:
  "loadNodeFromSkeletonInfo w st name info = Inr n \<Longrightarrow>
     node_Cid n = sk_Cid info \<and> node_name n = name \<and> node_IsDir n = (\<not> sk_IsFile info) \<and>
     node_store n = st"
  by (auto simp: loadNodeFromSkeletonInfo_def split: if_splits sum.splits
           dest: LoadFile_Inr LoadTree_Inr)

lemma mergeEntries_consistent:
  "consistent a \<Longrightarrow> mergeEntries rec w destFS bfs a ents = Some (Inr (a', w')) \<Longrightarrow> consistent a'"
proof (induction ents arbitrary: a w)
  case Nil
  then show ?case by simp
next
  case (Cons ent ents)
  show ?case
  proof (cases "map_of (t_skeleton a) (fst ent)")
    case None
    with Cons.prems(2) obtain n w1 where
      n: "loadNodeFromSkeletonInfo w bfs (fst ent) (snd ent) = Inr n"
      and r: "mergeEntries rec w1 destFS bfs
                (a\<lparr>t_skeleton := AList.update (fst ent) (snd ent) (t_skeleton a),
                   t_userland := Links_Add (t_userland a) (AsLink n)\<rparr>) ents = Some (Inr (a', w'))"
      by (auto simp: Let_def split: sum.splits)
    note f = loadNodeFromSkeletonInfo_Inr[OF n]
    have "consistent (a\<lparr>t_skeleton := AList.update (fst ent) (snd ent) (t_skeleton a),
                   t_userland := Links_Add (t_userland a) (AsLink n)\<rparr>)"
      by (rule consistent_update[OF Cons.prems(1), where name="fst ent" and s="snd ent"
            and c="sk_Cid (snd ent)" and f="sk_IsFile (snd ent)"])
         (simp_all add: AsLink_def f)
    from Cons.IH[OF this r] show ?thesis .
  next
    case (Some localInfo)
    show ?thesis
    proof (cases "sk_Cid localInfo = sk_Cid (snd ent)")
      case True
      with Some Cons.prems(2) have "mergeEntries rec w destFS bfs a ents = Some (Inr (a', w'))"
        by (simp add: Let_def)
      from Cons.IH[OF Cons.prems(1) this] show ?thesis .
    next
      case False
      with Some Cons.prems(2) obtain res w1 where
        r: "mergeEntries rec w1 destFS bfs
              (a\<lparr>t_skeleton := AList.update (fst ent) (mergeResultToSkeletonInfo res) (t_skeleton a),
                 t_userland := Links_Add (t_userland a) (mergeResultToLink res (fst ent))\<rparr>) ents
            = Some (Inr (a', w'))"
        by (auto simp: Let_def split: sum.splits option.splits)
      have "consistent (a\<lparr>t_skeleton := AList.update (fst ent) (mergeResultToSkeletonInfo res) (t_skeleton a),
                 t_userland := Links_Add (t_userland a) (mergeResultToLink res (fst ent))\<rparr>)"
        by (rule consistent_update[OF Cons.prems(1), where name="fst ent"
              and s="mergeResultToSkeletonInfo res" and c="mr_Cid res" and f="mr_IsFile res"])
           (simp_all add: mergeResultToLink_def mergeResultToSkeletonInfo_def)
      from Cons.IH[OF this r] show ?thesis .
    qed
  qed
qed

lemma mergeTrees_consistent:
  assumes c: "consistent a" and m: "mergeTrees rec w destFS a b = Some (Inr (a', w'))"
  shows "consistent a'"
proof -
  from m obtain a1 w1 where e: "mergeEntries rec w destFS (t_store b) a (AList.clearjunk (t_skeleton b)) = Some (Inr (a1, w1))"
    by (auto simp: mergeTrees_def split: option.splits sum.splits)
  from mergeEntries_consistent[OF c e] have c1: "consistent a1" .
  from m e obtain a2 w3 res where p: "Tree_Put w3 a2 = Inr (res, a', w')"
    and u: "t_userland a2 = t_userland a1" "t_skeleton a2 = t_skeleton a1"
    by (auto simp: mergeTrees_def Let_def split: option.splits sum.splits prod.splits)
  from c1 u have "consistent a2" by (simp add: consistent_iff)
  with p show ?thesis using kept_Put[OF keptBySteps_consistent] by blast
qed

lemma LoadTree_of_Put:
  assumes p: "Tree_Put w t = Inr (res, t', w')" and l: "LoadTree w'' st name (t_cid t') = Inr t''"
  shows "t_userland t'' = t_userland t \<and> t_skeleton t'' = t_skeleton t \<and> t_h t'' = t_h t'"
proof -
  note f = Tree_Put_fields[OF p]
  from f(16) f(5) obtain i where i: "h_Info (t_h t') = Some i" by auto
  from l have "loadHeader w'' st (t_cid t') = Inr (t_h t')"
    by (auto simp: LoadTree_def loadHeader_def GetBlock_def f(7) decode_encode[OF i]
             split: sum.splits if_splits)
  with l have tf: "treeFromHeader w'' st (t_h t') name (t_cid t') = Inr t''"
    by (simp add: LoadTree_def)
  then have "t_skeleton t'' = t_skeleton t"
    by (auto simp: treeFromHeader_def i f(9,10) LoadSkeleton_def GetBlock_def
             split: if_splits sum.splits)
  moreover from tf have "t_userland t'' = t_userland t"
    by (auto simp: treeFromHeader_def i f(9,10) GetBlock_def DecodeLinksBlock_def
             split: if_splits sum.splits)
  moreover from tf have "t_h t'' = t_h t'" by (auto dest: treeFromHeader_Inr)
  ultimately show ?thesis by simp
qed

text \<open>
  C9. Link/skeleton consistency is kept by every operation on a tree: when it holds of
  the receiver, it holds of the tree after a successful \<^verbatim>\<open>Add\<close>, \<^verbatim>\<open>Rm\<close>,
  \<^verbatim>\<open>Mkdir\<close> and \<^verbatim>\<open>Copy\<close>, of the winner that \<^verbatim>\<open>mergeTrees\<close> returns (whatever
  the recursive merges return), and of the tree loaded back from the cid of a
  \<^verbatim>\<open>Put\<close>.
\<close>

theorem link_skeleton_consistency:
  assumes c: "consistent t"
  shows "(Tree_Add w t path f = Inr (res, t', w') \<longrightarrow> consistent t') \<and>
         (Tree_Rm w t path = Inr (res, t', w') \<longrightarrow> consistent t') \<and>
         (Tree_Mkdir w t path = Inr (res, t', w') \<longrightarrow> consistent t') \<and>
         (Tree_Copy w t path src = Inr (res, t', w') \<longrightarrow> consistent t') \<and>
         (mergeTrees rec w destFS t b = Some (Inr (t', w')) \<longrightarrow> consistent t') \<and>
         (Tree_Put w t = Inr (res, t', w') \<longrightarrow> LoadTree w'' st name (t_cid t') = Inr t'' \<longrightarrow>
            consistent t'')"
proof -
  note k = keptBySteps_consistent
  have "consistent t''" if "Tree_Put w t = Inr (res, t', w')" "LoadTree w'' st name (t_cid t') = Inr t''"
    using LoadTree_of_Put[OF that] c by (simp add: consistent_iff)
  moreover have "Tree_Add w t path f = Inr (res, t', w') \<longrightarrow> consistent t'"
    using Tree_Add_kept[OF k c] by blast
  moreover have "Tree_Rm w t path = Inr (res, t', w') \<longrightarrow> consistent t'"
    using Tree_Rm_kept[OF k c] by blast
  moreover have "Tree_Mkdir w t path = Inr (res, t', w') \<longrightarrow> consistent t'"
    using Tree_Mkdir_kept[OF k c] by blast
  moreover have "Tree_Copy w t path src = Inr (res, t', w') \<longrightarrow> consistent t'"
    using Tree_Copy_kept[OF k c] by blast
  moreover have "mergeTrees rec w destFS t b = Some (Inr (t', w')) \<longrightarrow> consistent t'"
    using mergeTrees_consistent[OF c] by blast
  ultimately show ?thesis by simp
qed


lemma mergeTrees_empty_Inr:
  assumes "t_skeleton b = []" "t_skeleton a = []" "h_Info (t_h a) = Some i"
  shows "\<exists>a' w'. mergeTrees rec w destFS a b = Some (Inr (a', w'))"
proof -
  obtain ts w3 where t: "Timestamp w = (ts, w3)" by fastforce
  have "h_Info (t_h (a\<lparr>t_h := (t_h a)\<lparr>h_Merge := Some (t_cid b), h_Info := Some (i\<lparr>i_Mtime := ts\<rparr>)\<rparr>,
                        t_store := destFS\<rparr>)) = Some (i\<lparr>i_Mtime := ts\<rparr>)" by simp
  from Tree_Put_Inr[OF this, of w3] show ?thesis
    using assms t by (auto simp: mergeTrees_def Let_def)
qed

text \<open>
  The fresh root of the example world is consistent, each of the operations succeeds on
  it, and the results are consistent.
\<close>

theorem link_skeleton_consistency_witness:
  "consistent ex_root \<and>
   (\<exists>res t' w'. Tree_Add ex_world1 ex_root [''a''] (OpaqueIn [104, 105] None) = Inr (res, t', w') \<and>
       consistent t') \<and>
   (\<exists>res t' w'. Tree_Rm ex_world1 ex_root [''a''] = Inr (res, t', w') \<and> consistent t') \<and>
   (\<exists>res t' w'. Tree_Mkdir ex_world1 ex_root [''a''] = Inr (res, t', w') \<and> consistent t') \<and>
   (\<exists>res t' w'. Tree_Copy ex_world1 ex_root [''a''] (Some (SrcFile (OpaqueIn [104, 105] None))) =
       Inr (res, t', w') \<and> consistent t') \<and>
   (\<exists>t' w'. mergeTrees (\<lambda>w destFS a b. None) ex_world1 0 ex_root ex_root = Some (Inr (t', w')) \<and>
       consistent t') \<and>
   (\<exists>res t' w' t''. Tree_Put ex_world1 ex_root = Inr (res, t', w') \<and>
       LoadTree w' 0 ''root'' (t_cid t') = Inr t'' \<and> consistent t'')"
proof -
  note i = ex_root_simps(6)
  have c: "consistent ex_root" by (simp add: consistent_def ex_root_simps)
  have l: "Links_Get (t_userland ex_root) ''a'' = None" by (simp add: ex_root_simps Links_Get_def)
  obtain r1 t1 w1 where m: "Tree_Mkdir ex_world1 ex_root [''a''] = Inr (r1, t1, w1)"
    using Tree_Mkdir_leaf_absent[OF i l] by blast
  obtain r2 t2 w2 where r: "Tree_Rm ex_world1 ex_root [''a''] = Inr (r2, t2, w2)"
    using Tree_Rm_leaf_Inr[OF _ i, of "''a''" ex_world1] by auto
  obtain r3 t3 w3 where a: "Tree_Add ex_world1 ex_root [''a''] (OpaqueIn [104, 105] None) = Inr (r3, t3, w3)"
    using Tree_Add_leaf_Inr[OF i l] by blast
  obtain r4 t4 w4 where cp: "Tree_Copy ex_world1 ex_root [''a''] (Some (SrcFile (OpaqueIn [104, 105] None))) = Inr (r4, t4, w4)"
    using Tree_Copy_leaf_Inr[OF i l] by blast
  obtain t5 w5 where mt: "mergeTrees (\<lambda>w destFS a b. None) ex_world1 0 ex_root ex_root = Some (Inr (t5, w5))"
    using mergeTrees_empty_Inr[OF ex_root_simps(2) ex_root_simps(2) i] by blast
  obtain r6 t6 w6 where p: "Tree_Put ex_world1 ex_root = Inr (r6, t6, w6)"
    using Tree_Put_Inr[OF i] by blast
  have ld: "LoadTree w6 0 ''root'' (t_cid t6) =
           Inr \<lparr>t_store = 0, t_name = ''root'', t_cid = t_cid t6, t_h = t_h t6,
                t_metadata = None, t_skeleton = [], t_userland = []\<rparr>"
    using LoadTree_after_Put[OF p i, of w6 "''root''"] by (simp add: ex_root_simps)
  have 1: "consistent t3"
    using link_skeleton_consistency[OF c, where path="[''a'']" and w=ex_world1 and res=r3 and t'=t3 and w'=w3] a
    by blast
  have 2: "consistent t2"
    using link_skeleton_consistency[OF c, where path="[''a'']" and w=ex_world1 and res=r2 and t'=t2 and w'=w2] r
    by blast
  have 3: "consistent t1"
    using link_skeleton_consistency[OF c, where path="[''a'']" and w=ex_world1 and res=r1 and t'=t1 and w'=w1] m
    by blast
  have 4: "consistent t4"
    using link_skeleton_consistency[OF c, where path="[''a'']" and w=ex_world1 and res=r4 and t'=t4 and w'=w4] cp
    by blast
  have 5: "consistent t5"
    using link_skeleton_consistency[OF c, where w=ex_world1 and t'=t5 and w'=w5] mt
    by blast
  have 6: "consistent \<lparr>t_store = 0, t_name = ''root'', t_cid = t_cid t6, t_h = t_h t6,
                t_metadata = None, t_skeleton = [], t_userland = []\<rparr>"
    using link_skeleton_consistency[OF c, where w=ex_world1 and res=r6 and t'=t6 and w'=w6] p ld
    by blast
  show ?thesis using c 1 2 3 4 5 6 m r a cp mt p ld by blast
qed

section \<open>Fast-forward recognition\<close>

lemma node_AsHistoryEntry_Cid: "node_AsHistoryEntry n = Inr h \<Longrightarrow> he_Cid h = node_Cid n"
  by (cases n)
     (auto simp: Tree_AsHistoryEntry_def File_AsHistoryEntry_def LDFile_AsHistoryEntry_def
           entryOf_def split: option.splits)

text \<open>
  The inner loop of \<^verbatim>\<open>merge\<close> stops at the first revision of the chain whose cid is
  the one it looks for.
\<close>

lemma scanB_ancestorAt_first:
  "ancestorAt w st name h k c \<Longrightarrow>
   \<exists>j. j \<le> k \<and> scanB w st name c h g = Inr (Match (g + j)) \<and> (c \<noteq> he_Cid h \<longrightarrow> 0 < j)"
proof (induction arbitrary: g rule: ancestorAt.induct)
  case (anc_here w st name h)
  have "scanB w st name (he_Cid h) h g = Inr (Match g)" by (subst scanB.simps) simp
  then show ?case by simp
next
  case (anc_back h p w st name n h' k c)
  show ?case
  proof (cases "c = he_Cid h")
    case True
    then have "scanB w st name c h g = Inr (Match g)" by (subst scanB.simps) simp
    with True show ?thesis by simp
  next
    case False
    from anc_back.IH[of "g + 1"] obtain j where j: "j \<le> k"
      "scanB w st name c h' (g + 1) = Inr (Match (g + 1 + j))" by blast
    have "scanB w st name c h g = Inr (Match (g + Suc j))"
      using False anc_back.hyps(1,2,3) j(2) by (subst scanB.simps) simp
    with j(1) show ?thesis by (intro exI[of _ "Suc j"]) simp
  qed
qed



lemma NTDir_not_file: "NTDir \<noteq> NTFile" "NTDir \<noteq> NTLDFile"
  by (simp_all add: NTDir_def NTFile_def NTLDFile_def)

lemma loadNode_of_LoadTree:
  assumes "LoadTree w st name c = Inr t"
  shows "loadNode w st name c = Inr (TreeNode t)"
proof -
  from assms obtain h where h: "loadHeader w st c = Inr h" and t: "treeFromHeader w st h name c = Inr t"
    by (auto simp: LoadTree_def split: sum.splits)
  from t obtain i where "h_Info h = Some i" "i_Type i = NTDir"
    by (auto simp: treeFromHeader_def split: option.splits if_splits)
  then show ?thesis using h t by (simp add: loadNode_def NTDir_not_file)
qed

lemma Tree_Mkdir_leaf_absent_Put:
  assumes i: "h_Info (t_h t) = Some i" and a: "Links_Get (t_userland t) name = None"
  shows "\<exists>tu wu res t' w' c.
           Tree_Mkdir w t [name] = Inr (res, t', w') \<and> Tree_Put wu tu = Inr (res, t', w') \<and>
           t_cid tu = t_cid t \<and> t_store tu = t_store t \<and> t_name tu = t_name t \<and>
           t_userland tu = Links_Add (t_userland t) \<lparr>l_Name = name, l_Cid = c, l_IsFile = False\<rparr> \<and>
           h_Info (t_h tu) = Some (i\<lparr>i_Mtime := i_Mtime (the (h_Info (t_h tu)))\<rparr>) \<and>
           (\<forall>st. stores w st \<subseteq> stores wu st)"
proof -
  obtain ch w1 where n: "NewEmptyTree w (t_store t) name = (ch, w1)" by fastforce
  then have hc: "h_Info (t_h ch) \<noteq> None" and s1: "stores w1 = stores w"
    by (auto simp: NewEmptyTree_def NewInfo_def Timestamp_def emptyHeader_def split: prod.splits)
  from hc obtain res ch' w2 where p: "Tree_Put w1 ch = Inr (res, ch', w2)"
    using Tree_Put_Inr by fastforce
  obtain tu wu where u: "updateUserlandLink w2 t name res = (tu, wu)" by fastforce
  note uf = updateUserlandLink_fields[OF u]
  have iu: "h_Info (t_h tu) = Some (i\<lparr>i_Mtime := i_Mtime (the (h_Info (t_h tu)))\<rparr>)"
    using uf(7) i by simp
  then obtain res' t' w' where p': "Tree_Put wu tu = Inr (res', t', w')"
    using Tree_Put_Inr by fastforce
  have "Tree_Mkdir w t [name] = Inr (res', t', w')"
    using a n p u p' by (simp add: Tree_Mkdir_leaf getOrCreateDirectChildTree_def)
  moreover have "t_userland tu = Links_Add (t_userland t) \<lparr>l_Name = name, l_Cid = pr_Cid res, l_IsFile = False\<rparr>"
    using uf(1) Tree_Put_fields(14)[OF p] by (simp add: ToLink_def isFileType_zero)
  moreover have "\<forall>st. stores w st \<subseteq> stores wu st"
    using Tree_Put_world(4)[OF p] s1 uf(12) by simp
  ultimately show ?thesis using p' uf(3,4,5) iu by blast
qed










section \<open>Nested Mkdir\<close>

text \<open>A block that loads from a store loads from every store that holds at least as much.\<close>

lemma GetBlock_mono:
  "stores w st \<subseteq> stores w' st \<Longrightarrow> GetBlock w st c = Inr b \<Longrightarrow> GetBlock w' st c = Inr b"
  by (auto simp: GetBlock_def split: cid.splits if_splits)

lemma loadHeader_mono:
  "stores w st \<subseteq> stores w' st \<Longrightarrow> loadHeader w st c = Inr h \<Longrightarrow> loadHeader w' st c = Inr h"
  by (auto simp: loadHeader_def split: sum.splits dest: GetBlock_mono)

lemma LoadLDFile_mono:
  "stores w st \<subseteq> stores w' st \<Longrightarrow> LoadLDFile w st name c = Inr df \<Longrightarrow>
   LoadLDFile w' st name c = Inr df"
  by (auto simp: LoadLDFile_def Let_def split: sum.splits dest: GetBlock_mono)

lemma fileFromHeader_mono:
  assumes "stores w st \<subseteq> stores w' st" "fileFromHeader w st h name c = Inr f"
  shows "fileFromHeader w' st h name c = Inr f"
proof (cases "h_Metadata h")
  case None
  with assms(2) show ?thesis by (simp add: fileFromHeader_def)
next
  case (Some m)
  with assms(2) obtain md where md: "LoadLDFile w st MetadataLinkName m = Inr md"
    by (auto simp: fileFromHeader_def split: sum.splits)
  from LoadLDFile_mono[OF assms(1) md] assms(2) Some md show ?thesis
    by (simp add: fileFromHeader_def)
qed

lemma LoadSkeleton_mono:
  "stores w st \<subseteq> stores w' st \<Longrightarrow> LoadSkeleton w st c = Inr sk \<Longrightarrow> LoadSkeleton w' st c = Inr sk"
  by (auto simp: LoadSkeleton_def split: sum.splits block.splits dest: GetBlock_mono)

lemma treeFromHeader_mono:
  assumes s: "stores w st \<subseteq> stores w' st" and t: "treeFromHeader w st h name c = Inr t"
  shows "treeFromHeader w' st h name c = Inr t"
proof -
  from t obtain i where i: "h_Info h = Some i" "i_Type i = NTDir"
    by (auto simp: treeFromHeader_def split: option.splits if_splits)
  from t i obtain skc where skc: "h_Skeleton h = Some skc"
    by (auto simp: treeFromHeader_def split: option.splits)
  from t i skc obtain sk where sk: "LoadSkeleton w st skc = Inr sk"
    by (auto simp: treeFromHeader_def split: sum.splits)
  from t i skc sk obtain uc where uc: "h_Userland h = Some uc"
    by (auto simp: treeFromHeader_def split: option.splits)
  from t i skc sk uc obtain blk where blk: "GetBlock w st uc = Inr blk"
    by (auto simp: treeFromHeader_def split: sum.splits)
  from t i skc sk uc blk LoadSkeleton_mono[OF s sk] GetBlock_mono[OF s blk]
  show ?thesis by (simp add: treeFromHeader_def)
qed

lemma loadNode_mono:
  assumes s: "stores w st \<subseteq> stores w' st" and l: "loadNode w st name c = Inr n"
  shows "loadNode w' st name c = Inr n"
proof -
  from l obtain h where h: "loadHeader w st c = Inr h"
    by (auto simp: loadNode_def split: sum.splits)
  note h' = loadHeader_mono[OF s h]
  from l h obtain i where i: "h_Info h = Some i"
    by (auto simp: loadNode_def split: option.splits)
  consider (f) "i_Type i = NTFile" | (l) "i_Type i \<noteq> NTFile" "i_Type i = NTLDFile"
    | (d) "i_Type i \<noteq> NTFile" "i_Type i \<noteq> NTLDFile" "i_Type i = NTDir"
    | (o) "i_Type i \<noteq> NTFile" "i_Type i \<noteq> NTLDFile" "i_Type i \<noteq> NTDir"
    by blast
  then show ?thesis
  proof cases
    case f
    with l h i obtain fl where ff: "fileFromHeader w st h name c = Inr fl" and n: "n = FileNode fl"
      by (auto simp: loadNode_def split: sum.splits)
    from fileFromHeader_mono[OF s ff] show ?thesis using h' i f n by (simp add: loadNode_def)
  next
    case l
    with \<open>loadNode w st name c = Inr n\<close> h i obtain blk where b: "GetBlock w st c = Inr blk"
      by (auto simp: loadNode_def split: sum.splits)
    from GetBlock_mono[OF s b] \<open>loadNode w st name c = Inr n\<close> show ?thesis
      using h h' i l b by (simp add: loadNode_def)
  next
    case d
    with l h i obtain t where tt: "treeFromHeader w st h name c = Inr t" and n: "n = TreeNode t"
      by (auto simp: loadNode_def split: sum.splits)
    from treeFromHeader_mono[OF s tt] show ?thesis using h' i d n by (simp add: loadNode_def)
  next
    case o
    with l h i show ?thesis by (simp add: loadNode_def)
  qed
qed

lemma Links_Add_names:
  "fst ` set (Links_Add ls l) = insert (l_Name l) (fst ` set ls)"
  by (simp add: Links_Add_def update_keys) (induction ls, auto)

lemma Links_Add_wellformed:
  assumes "distinct (map fst ls)" "[] \<notin> set (map fst ls)" "l_Name l \<noteq> []"
  shows "distinct (map fst (Links_Add ls l))" "[] \<notin> set (map fst (Links_Add ls l))"
proof -
  show "distinct (map fst (Links_Add ls l))"
    using assms(1) by (simp add: Links_Add_def distinct_update)
  show "[] \<notin> set (map fst (Links_Add ls l))"
    using assms(2,3) Links_Add_names[of ls l] by auto
qed

lemma Links_Get_name: "Links_Get ls name = Some l \<Longrightarrow> l_Name l = name \<and> name \<in> fst ` set ls"
  by (auto simp: Links_Get_def split: option.splits dest: map_of_SomeD intro: rev_image_eqI)

lemma Tree_Get_leaf:
  "name \<noteq> [] \<Longrightarrow> Links_Get (t_userland t) name = Some link \<Longrightarrow>
   Tree_Get w t [name] = loadNode w (t_store t) (l_Name link) (l_Cid link)"
  by (subst Tree_Get.simps) (simp add: Shift_def)

lemma Tree_Get_interior:
  "name \<noteq> [] \<Longrightarrow> Links_Get (t_userland t) name = Some link \<Longrightarrow>
   LoadTree w (t_store t) name (l_Cid link) = Inr ch \<Longrightarrow>
   Tree_Get w t (name # x # xs) = Tree_Get w ch (x # xs)"
  by (subst Tree_Get.simps) (simp add: Shift_def)

text \<open>
  C3 on a path of two segments. \<^verbatim>\<open>Mkdir\<close> recurses on the receiver
  (\<^verbatim>\<open>t.Mkdir(tail)\<close>) where \<^verbatim>\<open>Add\<close> and \<^verbatim>\<open>Copy\<close> recurse on the child tree. Let
  \<open>t\<close> be a directory that holds an entry \<open>x\<close>, and \<open>a\<close> and \<open>b\<close> names absent from
  \<open>t\<close>. Then \<open>Mkdir [a, b]\<close> returns, and the intermediate component \<open>a\<close> is not an
  empty tree that holds the leaf only: \<open>a\<close> is linked to the revision of \<open>t\<close> that the
  inner \<open>Mkdir [b]\<close> wrote, so \<open>Get [a]\<close> is a directory that holds \<open>x\<close> as \<open>t\<close>
  does, and \<open>Get [a, x]\<close> succeeds with the node that \<open>x\<close> names in \<open>t\<close>. (The
  skeleton entry made for \<open>a\<close> records the skeleton of \<open>t\<close> as the inner call returned
  it; the links, which \<^verbatim>\<open>Get\<close> follows, do not depend on it.)
\<close>

theorem Mkdir_nested_snapshot:
  assumes i: "h_Info (t_h t) = Some i" "i_Type i = NTDir"
    and u: "distinct (map fst (t_userland t))" "[] \<notin> set (map fst (t_userland t))"
    and ab: "a \<noteq> []" "b \<noteq> []"
      "Links_Get (t_userland t) a = None" "Links_Get (t_userland t) b = None"
    and x: "Links_Get (t_userland t) x = Some lx" "loadNode w (t_store t) x (l_Cid lx) = Inr n"
  shows "\<exists>res t' w' ta.
           Tree_Mkdir w t [a, b] = Inr (res, t', w') \<and>
           Tree_Get w' t' [a] = Inr (TreeNode ta) \<and>
           Links_Get (t_userland ta) x = Some lx \<and>
           Tree_Get w' t' [a, x] = Inr n"
proof -
  obtain ch w1 where n1: "NewEmptyTree w (t_store t) a = (ch, w1)" by fastforce
  then have s1: "stores w1 = stores w"
    by (auto simp: NewEmptyTree_def NewInfo_def Timestamp_def split: prod.splits)
  from Tree_Mkdir_leaf_absent_Put[OF i(1) ab(4), of w1] obtain tu wu res1 t1 w2 c where
    m1: "Tree_Mkdir w1 t [b] = Inr (res1, t1, w2)" and p1: "Tree_Put wu tu = Inr (res1, t1, w2)"
    and tu: "t_cid tu = t_cid t" "t_store tu = t_store t" "t_name tu = t_name t"
    and ul: "t_userland tu = Links_Add (t_userland t) \<lparr>l_Name = b, l_Cid = c, l_IsFile = False\<rparr>"
    and iu0: "h_Info (t_h tu) = Some (i\<lparr>i_Mtime := i_Mtime (the (h_Info (t_h tu)))\<rparr>)"
    and su: "\<forall>st. stores w1 st \<subseteq> stores wu st" by blast
  define i' where "i' = i\<lparr>i_Mtime := i_Mtime (the (h_Info (t_h tu)))\<rparr>"
  have iu: "h_Info (t_h tu) = Some i'" using iu0 by (simp only: i'_def)
  have ty: "i_Type i' = NTDir" by (simp add: i'_def i(2))
  note f1 = Tree_Put_fields[OF p1] and g1 = Tree_Put_world[OF p1]
  obtain t2 w3 where up: "updateUserlandLink w2 t1 a res1 = (t2, w3)" by fastforce
  note uf = updateUserlandLink_fields[OF up]
  have "h_Info (t_h t2) \<noteq> None" using uf(7) f1(5) iu by simp
  then obtain res t' w' where p2: "Tree_Put w3 t2 = Inr (res, t', w')"
    using Tree_Put_Inr by fastforce
  note f2 = Tree_Put_fields[OF p2] and g2 = Tree_Put_world[OF p2]
  have mk: "Tree_Mkdir w t [a, b] = Inr (res, t', w')"
    using ab(3) n1 m1 up p2 by (simp add: Tree_Mkdir_interior getOrCreateDirectChildTree_def)
  have st: "t_store t' = t_store t" using f2(3) uf(4) f1(3) tu(2) by simp
  have la: "Links_Get (t_userland t') a = Some \<lparr>l_Name = a, l_Cid = t_cid t1, l_IsFile = False\<rparr>"
    using f2(1) uf(1) f1(8,14) by (simp add: ToLink_def isFileType_zero Links_Get_Add)
  have s2: "stores w2 (t_store tu) \<subseteq> stores w' (t_store tu)"
    using g2(4)[of "t_store tu"] uf(12) by simp
  have wf: "distinct (map fst (t_userland tu))" "[] \<notin> set (map fst (t_userland tu))"
    using Links_Add_wellformed[OF u, of "\<lparr>l_Name = b, l_Cid = c, l_IsFile = False\<rparr>"] ab(2)
    by (simp_all add: ul)
  define ta where "ta = \<lparr>t_store = t_store tu, t_name = a, t_cid = t_cid t1, t_h = t_h t1,
                t_metadata = None, t_skeleton = t_skeleton tu, t_userland = t_userland tu\<rparr>"
  have lt: "LoadTree w' (t_store t) a (t_cid t1) = Inr ta"
    using LoadTree_after_Put[OF p1 iu ty wf s2, of a] tu(2) by (simp add: ta_def)
  have get_a: "Tree_Get w' t' [a] = Inr (TreeNode ta)"
    using Tree_Get_leaf[OF ab(1) la, of w'] loadNode_of_LoadTree[OF lt] st by simp
  have xb: "x \<noteq> b" using x(1) ab(4) by auto
  have lxn: "l_Name lx = x" and xin: "x \<in> fst ` set (t_userland t)"
    using Links_Get_name[OF x(1)] by simp_all
  have xne: "x \<noteq> []" using xin u(2) by (metis set_map)
  have gx: "Links_Get (t_userland ta) x = Some lx"
    using x(1) xb by (simp add: ta_def ul Links_Get_Add)
  have sw: "stores w (t_store t) \<subseteq> stores w' (t_store t)"
  proof -
    have "stores w (t_store t) \<subseteq> stores wu (t_store t)" using s1 su by simp
    also have "\<dots> \<subseteq> stores w2 (t_store t)" using g1(4)[of "t_store t"] .
    also have "\<dots> \<subseteq> stores w' (t_store t)" using s2 tu(2) by simp
    finally show ?thesis .
  qed
  have "Tree_Get w' t' [a, x] = Tree_Get w' ta [x]"
    using Tree_Get_interior[OF ab(1) la, of w' ta x "[]"] lt st by simp
  also have "\<dots> = loadNode w' (t_store ta) (l_Name lx) (l_Cid lx)"
    using Tree_Get_leaf[OF xne gx] .
  also have "\<dots> = Inr n"
    using loadNode_mono[OF sw x(2)] lxn tu(2) by (simp add: ta_def)
  finally have get_ax: "Tree_Get w' t' [a, x] = Inr n" .
  show ?thesis using mk get_a gx get_ax by blast
qed

lemma Tree_Mkdir_leaf_absent_child:
  assumes i: "h_Info (t_h t) = Some i" and a: "Links_Get (t_userland t) name = None"
  shows "\<exists>res t' w' c n i'.
           Tree_Mkdir w t [name] = Inr (res, t', w') \<and>
           t_userland t' = Links_Add (t_userland t) \<lparr>l_Name = name, l_Cid = c, l_IsFile = False\<rparr> \<and>
           loadNode w' (t_store t) name c = Inr n \<and>
           h_Info (t_h t') = Some i' \<and> i_Type i' = i_Type i \<and> t_store t' = t_store t"
proof -
  obtain ch w1 where n: "NewEmptyTree w (t_store t) name = (ch, w1)" by fastforce
  then obtain ic where hc: "h_Info (t_h ch) = Some ic" "i_Type ic = NTDir"
    and uc: "t_userland ch = []" "t_store ch = t_store t"
    by (auto simp: NewEmptyTree_def NewInfo_def Timestamp_def emptyHeader_def NewLinks_def
             split: prod.splits)
  from hc(1) obtain res ch' w2 where p: "Tree_Put w1 ch = Inr (res, ch', w2)"
    using Tree_Put_Inr by fastforce
  obtain tu wu where u: "updateUserlandLink w2 t name res = (tu, wu)" by fastforce
  note uf = updateUserlandLink_fields[OF u]
  define i' where "i' = i\<lparr>i_Mtime := word_of_int (clock w2 (ticks w2))\<rparr>"
  have iu: "h_Info (t_h tu) = Some i'" using uf(7) i by (simp add: i'_def)
  then obtain res' t' w' where p': "Tree_Put wu tu = Inr (res', t', w')"
    using Tree_Put_Inr by fastforce
  note f' = Tree_Put_fields[OF p'] and g' = Tree_Put_world[OF p']
  have mk: "Tree_Mkdir w t [name] = Inr (res', t', w')"
    using a n p u p' by (simp add: Tree_Mkdir_leaf getOrCreateDirectChildTree_def)
  have ul: "t_userland t' = Links_Add (t_userland t) \<lparr>l_Name = name, l_Cid = t_cid ch', l_IsFile = False\<rparr>"
    using f'(1) uf(1) Tree_Put_fields(8,14)[OF p] by (simp add: ToLink_def isFileType_zero)
  have s: "stores w2 (t_store ch) \<subseteq> stores w' (t_store ch)"
    using g'(4)[of "t_store ch"] uf(12) by simp
  have "LoadTree w' (t_store ch) name (t_cid ch') =
           Inr \<lparr>t_store = t_store ch, t_name = name, t_cid = t_cid ch', t_h = t_h ch',
                t_metadata = None, t_skeleton = t_skeleton ch, t_userland = t_userland ch\<rparr>"
    by (rule LoadTree_after_Put[OF p hc _ _ s]) (simp_all add: uc)
  from loadNode_of_LoadTree[OF this] have ln: "loadNode w' (t_store t) name (t_cid ch') =
        Inr (TreeNode \<lparr>t_store = t_store ch, t_name = name, t_cid = t_cid ch', t_h = t_h ch',
                t_metadata = None, t_skeleton = t_skeleton ch, t_userland = t_userland ch\<rparr>)"
    by (simp add: uc)
  have "h_Info (t_h t') = Some i'" "i_Type i' = i_Type i" "t_store t' = t_store t"
    using f'(5,3) iu uf(4) by (simp_all add: i'_def)
  with mk ul ln show ?thesis by blast
qed

text \<open>
  The fresh root of the example world after \<open>Mkdir [x]\<close>, then \<open>Mkdir [a, b]\<close>:
  \<open>a/x\<close> exists afterwards.
\<close>

theorem Mkdir_nested_snapshot_witness:
  "\<exists>r0 t0 w0 res t' w' ta n.
     Tree_Mkdir ex_world1 ex_root [''x''] = Inr (r0, t0, w0) \<and>
     Tree_Mkdir w0 t0 [''a'', ''b''] = Inr (res, t', w') \<and>
     Tree_Get w' t' [''a''] = Inr (TreeNode ta) \<and>
     Links_Get (t_userland ta) ''x'' \<noteq> None \<and>
     Tree_Get w' t' [''a'', ''x''] = Inr n"
proof -
  have l: "Links_Get (t_userland ex_root) ''x'' = None" by (simp add: ex_root_simps Links_Get_def)
  from Tree_Mkdir_leaf_absent_child[OF ex_root_simps(6) l, of ex_world1]
  obtain r0 t0 w0 c n i' where m: "Tree_Mkdir ex_world1 ex_root [''x''] = Inr (r0, t0, w0)"
    and ul: "t_userland t0 = Links_Add (t_userland ex_root) \<lparr>l_Name = ''x'', l_Cid = c, l_IsFile = False\<rparr>"
    and ln: "loadNode w0 (t_store ex_root) ''x'' c = Inr n"
    and i': "h_Info (t_h t0) = Some i'" "i_Type i' = NTDir" and st: "t_store t0 = t_store ex_root"
    by auto
  have u0: "t_userland t0 = [(''x'', c, False)]"
    by (simp add: ul ex_root_simps Links_Add_def)
  have lx: "Links_Get (t_userland t0) ''x'' = Some \<lparr>l_Name = ''x'', l_Cid = c, l_IsFile = False\<rparr>"
    by (simp add: u0 Links_Get_def)
  from Mkdir_nested_snapshot[OF i', where a="''a''" and b="''b''" and x="''x''"
        and lx="\<lparr>l_Name = ''x'', l_Cid = c, l_IsFile = False\<rparr>" and w=w0 and n=n]
  obtain res t' w' ta where
    "Tree_Mkdir w0 t0 [''a'', ''b''] = Inr (res, t', w')"
    "Tree_Get w' t' [''a''] = Inr (TreeNode ta)"
    "Links_Get (t_userland ta) ''x'' = Some \<lparr>l_Name = ''x'', l_Cid = c, l_IsFile = False\<rparr>"
    "Tree_Get w' t' [''a'', ''x''] = Inr n"
    using lx ln st by (auto simp: u0 Links_Get_def)
  with m show ?thesis by blast
qed

section \<open>Commutativity of merge\<close>

text \<open>
  What the two loops of \<^verbatim>\<open>merge\<close> return, when no load fails, in terms of the two
  chains.
\<close>

lemma loadHeader_Inr:
  "loadHeader w st p = Inr h \<Longrightarrow> \<exists>blk. p = Cid blk \<and> decodeHeaderBlock blk = Inr h"
  by (auto simp: loadHeader_def GetBlock_def split: cid.splits if_splits sum.splits)

lemma loadNode_type:
  assumes "loadNode w st name p = Inr n"
  shows "\<exists>h i. loadHeader w st p = Inr h \<and> h_Info h = Some i \<and>
           (case n of TreeNode t \<Rightarrow> i_Type i = NTDir
                    | FileNode f \<Rightarrow> i_Type i = NTFile
                    | LDFileNode df \<Rightarrow> i_Type i = NTLDFile)"
proof -
  from assms obtain h where h: "loadHeader w st p = Inr h"
    by (auto simp: loadNode_def split: sum.splits)
  from assms h obtain i where i: "h_Info h = Some i"
    by (auto simp: loadNode_def split: option.splits)
  have "case n of TreeNode t \<Rightarrow> i_Type i = NTDir
                    | FileNode f \<Rightarrow> i_Type i = NTFile
                    | LDFileNode df \<Rightarrow> i_Type i = NTLDFile"
    using assms h i
    by (cases "i_Type i = NTFile"; cases "i_Type i = NTLDFile"; cases "i_Type i = NTDir")
       (auto simp: loadNode_def split: sum.splits)
  with h i show ?thesis by blast
qed

lemma NT_distinct: "NTFile \<noteq> NTLDFile" "NTDir \<noteq> NTLDFile" "NTDir \<noteq> NTFile"
  by (simp_all add: NTDir_def NTFile_def NTLDFile_def)

lemma loadNode_prevOf:
  assumes l: "loadNode w st name p = Inr n" and e: "node_AsHistoryEntry n = Inr h"
  shows "he_Previous h = prevOf p" "he_Cid h = p"
proof -
  from loadNode_Inr[OF l] obtain hd where hd: "loadHeader w st p = Inr hd"
    and c: "node_Cid n = p"
    and k: "case n of TreeNode t \<Rightarrow> t_h t = hd \<and> t_metadata t = None
                    | FileNode f \<Rightarrow> f_h f = hd \<and> f_content f = None
                    | LDFileNode df \<Rightarrow> ld_previous df = None" by blast
  from loadNode_type[OF l] hd obtain i where i: "h_Info hd = Some i"
    and ty: "case n of TreeNode t \<Rightarrow> i_Type i = NTDir
                    | FileNode f \<Rightarrow> i_Type i = NTFile
                    | LDFileNode df \<Rightarrow> i_Type i = NTLDFile" by auto
  from loadHeader_Inr[OF hd] obtain blk where b: "p = Cid blk" "decodeHeaderBlock blk = Inr hd"
    by blast
  show "he_Cid h = p" using node_AsHistoryEntry_Cid[OF e] c by simp
  show "he_Previous h = prevOf p"
    using e k ty i b
    by (cases n)
       (auto simp: prevOf_def Tree_AsHistoryEntry_def File_AsHistoryEntry_def
             LDFile_AsHistoryEntry_def entryOf_def NT_distinct split: option.splits)
qed

lemma chainOf_loaded:
  assumes l: "loadNode w st name p = Inr n" and e: "node_AsHistoryEntry n = Inr h"
  shows "chainOf h = chainFrom p"
  using loadNode_prevOf[OF l e] by (simp add: chainOf_def chainFrom.simps[of p])

lemma chainOf_length: "0 < length (chainOf h)"
  by (simp add: chainOf_def)

lemma scanB_chain:
  "scanB w bfs name acid h g = Inr r \<Longrightarrow>
   r = (case indexOf acid (chainOf h) of
          Some j \<Rightarrow> Match (g + j)
        | None \<Rightarrow> NoMatch (g + length (chainOf h) - 1))"
proof (induction w bfs name acid h g arbitrary: r rule: scanB.induct)
  case (1 w bfs name acid bHist bGen)
  show ?case
  proof (cases "acid = he_Cid bHist")
    case True
    with "1.prems" show ?thesis by (subst (asm) scanB.simps) (simp add: chainOf_def)
  next
    case False
    show ?thesis
    proof (cases "he_Previous bHist")
      case None
      with False "1.prems" show ?thesis by (subst (asm) scanB.simps) (simp add: chainOf_def)
    next
      case (Some p)
      with False "1.prems" obtain bCur bHist' where
        l: "loadNode w bfs name p = Inr bCur" and e: "node_AsHistoryEntry bCur = Inr bHist'"
        and r: "scanB w bfs name acid bHist' (bGen + 1) = Inr r"
        by (subst (asm) scanB.simps) (auto split: sum.splits)
      from "1.IH"[OF False Some l e r]
      have ih: "r = (case indexOf acid (chainOf bHist') of
                       Some j \<Rightarrow> Match (bGen + 1 + j)
                     | None \<Rightarrow> NoMatch (bGen + 1 + length (chainOf bHist') - 1))" .
      have c: "chainOf bHist = he_Cid bHist # chainOf bHist'"
        using chainOf_loaded[OF l e] Some by (simp add: chainOf_def)
      show ?thesis
        using ih False chainOf_length[of bHist']
        by (cases "indexOf acid (chainOf bHist')") (simp_all add: c)
    qed
  qed
qed

lemma scanA_chain:
  "scanA w afs bfs aname bname bHist aHist g = Inr r \<Longrightarrow>
   r = (case firstCommon (chainOf aHist) (chainOf bHist) of
          Some (i, j) \<Rightarrow> Found (g + i) j
        | None \<Rightarrow> NoCommon (g + length (chainOf aHist) - 1) (length (chainOf bHist) - 1))"
proof (induction w afs bfs aname bname bHist aHist g arbitrary: r rule: scanA.induct)
  case (1 w afs bfs aname bname bHist aHist aGen)
  from "1.prems" obtain sb where sb: "scanB w bfs bname (he_Cid aHist) bHist 0 = Inr sb"
    by (subst (asm) scanA.simps) (auto split: sum.splits)
  note sc = scanB_chain[OF sb]
  show ?case
  proof (cases "indexOf (he_Cid aHist) (chainOf bHist)")
    case (Some j)
    with sc have "sb = Match j" by simp
    with "1.prems" sb Some show ?thesis
      by (subst (asm) scanA.simps) (simp add: chainOf_def[of aHist])
  next
    case None
    with sc have m: "sb = NoMatch (length (chainOf bHist) - 1)" by simp
    show ?thesis
    proof (cases "he_Previous aHist")
      case None': None
      with "1.prems" sb m None show ?thesis
        by (subst (asm) scanA.simps) (simp add: chainOf_def[of aHist])
    next
      case (Some p)
      with "1.prems" sb m obtain aCur aHist' where
        l: "loadNode w afs aname p = Inr aCur" and e: "node_AsHistoryEntry aCur = Inr aHist'"
        and r: "scanA w afs bfs aname bname bHist aHist' (aGen + 1) = Inr r"
        by (subst (asm) scanA.simps) (auto split: sum.splits)
      from "1.IH"[OF sb m Some l e r]
      have ih: "r = (case firstCommon (chainOf aHist') (chainOf bHist) of
          Some (i, j) \<Rightarrow> Found (aGen + 1 + i) j
        | None \<Rightarrow> NoCommon (aGen + 1 + length (chainOf aHist') - 1) (length (chainOf bHist) - 1))" .
      have c: "chainOf aHist = he_Cid aHist # chainOf aHist'"
        using chainOf_loaded[OF l e] Some by (simp add: chainOf_def)
      show ?thesis
        using ih None chainOf_length[of aHist']
        by (cases "firstCommon (chainOf aHist') (chainOf bHist)") (auto simp: c)
    qed
  qed
qed

text \<open>
  On descending chains the first common revision is the same from both sides.
\<close>

lemma indexOf_None: "indexOf x ys = None \<longleftrightarrow> x \<notin> set ys"
  by (induction ys) auto

lemma indexOf_Some:
  "indexOf x ys = Some j \<longleftrightarrow> j < length ys \<and> ys ! j = x \<and> (\<forall>j' < j. ys ! j' \<noteq> x)"
proof (induction ys arbitrary: j)
  case Nil
  then show ?case by simp
next
  case (Cons y ys)
  show ?case
  proof (cases "x = y")
    case True
    then show ?thesis by (cases j) auto
  next
    case False
    show ?thesis
    proof (cases j)
      case 0
      with False show ?thesis by auto
    next
      case (Suc k)
      have "(\<forall>j'<Suc k. (y # ys) ! j' \<noteq> x) \<longleftrightarrow> (\<forall>j'<k. ys ! j' \<noteq> x)"
        using False by (auto simp: less_Suc_eq_0_disj)
      with False Suc Cons.IH[of k] show ?thesis by auto
    qed
  qed
qed

lemma indexOf_Some_mem: "indexOf x ys = Some j \<Longrightarrow> x \<in> set ys"
  using indexOf_None[of x ys] by auto

lemma firstCommon_None: "firstCommon xs ys = None \<longleftrightarrow> set xs \<inter> set ys = {}"
proof (induction xs)
  case Nil
  then show ?case by simp
next
  case (Cons x xs)
  show ?case
  proof (cases "indexOf x ys")
    case None
    then have "x \<notin> set ys" by (simp add: indexOf_None)
    with None Cons.IH show ?thesis by simp
  next
    case (Some j)
    then have "x \<in> set ys" by (rule indexOf_Some_mem)
    with Some show ?thesis by auto
  qed
qed

lemma firstCommon_Some:
  "firstCommon xs ys = Some (i, j) \<longleftrightarrow>
     i < length xs \<and> indexOf (xs ! i) ys = Some j \<and> (\<forall>i' < i. xs ! i' \<notin> set ys)"
proof (induction xs arbitrary: i)
  case Nil
  then show ?case by simp
next
  case (Cons x xs)
  show ?case
  proof (cases "indexOf x ys")
    case None
    then have nx: "x \<notin> set ys" by (simp add: indexOf_None)
    show ?thesis
    proof (cases i)
      case 0
      with None show ?thesis by (auto split: option.splits)
    next
      case (Suc k)
      have "(\<forall>i'<Suc k. (x # xs) ! i' \<notin> set ys) \<longleftrightarrow> (\<forall>i'<k. xs ! i' \<notin> set ys)"
        using nx by (auto simp: less_Suc_eq_0_disj)
      with None Suc Cons.IH[of k] show ?thesis by (auto split: option.splits)
    qed
  next
    case (Some j0)
    then have "x \<in> set ys" using indexOf_None[of x ys] by auto
    with Some show ?thesis by (cases i) auto
  qed
qed

lemma descending_nth:
  "descending xs \<Longrightarrow> i < i' \<Longrightarrow> i' < length xs \<Longrightarrow>
   size (xs ! i') < size (xs ! i) \<or> xs ! i' = xs ! i"
proof (induction xs arbitrary: i i')
  case Nil
  then show ?case by simp
next
  case (Cons x xs)
  from Cons.prems(2) obtain k' where k': "i' = Suc k'" by (cases i') auto
  show ?case
  proof (cases i)
    case 0
    have "xs ! k' \<in> set xs" using Cons.prems(3) k' by simp
    with Cons.prems(1) have "size (xs ! k') < size x \<or> xs ! k' = x" by simp
    with 0 k' show ?thesis by simp
  next
    case (Suc k)
    with Cons.IH[of k k'] Cons.prems k' show ?thesis by simp
  qed
qed

lemma firstCommon_mirror:
  assumes dA: "descending A" and dB: "descending B"
    and f: "firstCommon A B = Some (i, j)"
  shows "firstCommon B A = Some (j, i)"
proof -
  from f have i: "i < length A" and ij: "indexOf (A ! i) B = Some j"
    and mi: "\<forall>i' < i. A ! i' \<notin> set B" by (simp_all add: firstCommon_Some)
  from ij have j: "j < length B" and e: "B ! j = A ! i" and mj: "\<forall>j' < j. B ! j' \<noteq> A ! i"
    by (simp_all add: indexOf_Some)
  have bj: "B ! j \<in> set B" using j by simp
  have 1: "indexOf (B ! j) A = Some i"
  proof -
    have "\<forall>i' < i. A ! i' \<noteq> B ! j"
    proof (intro allI impI)
      fix i' assume "i' < i"
      with mi have "A ! i' \<notin> set B" by simp
      with bj show "A ! i' \<noteq> B ! j" by auto
    qed
    then show ?thesis using i e by (simp add: indexOf_Some)
  qed
  have 2: "\<forall>j' < j. B ! j' \<notin> set A"
  proof (intro allI impI notI)
    fix j' assume j': "j' < j" and m: "B ! j' \<in> set A"
    then obtain i' where i': "i' < length A" "A ! i' = B ! j'" by (auto simp: in_set_conv_nth)
    have jl: "j' < length B" using j' j by simp
    then have "B ! j' \<in> set B" by simp
    with i'(2) have "A ! i' \<in> set B" by simp
    with mi have "\<not> i' < i" by blast
    moreover have ne: "B ! j' \<noteq> A ! i" using mj j' by simp
    then have "i' \<noteq> i" using i'(2) by auto
    ultimately have gt: "i < i'" by simp
    from descending_nth[OF dB j' j] ne e have s1: "size (B ! j) < size (B ! j')" by auto
    from descending_nth[OF dA gt i'(1)] ne i'(2) have s2: "size (A ! i') < size (A ! i)" by auto
    from s1 s2 e i'(2) show False by simp
  qed
  show ?thesis using j 1 2 by (simp add: firstCommon_Some)
qed

lemma firstCommon_mirror_None:
  "firstCommon A B = None \<Longrightarrow> firstCommon B A = None"
  by (auto simp: firstCommon_None)

lemma chainFrom_mem: "x \<in> set (chainFrom c) \<Longrightarrow> x = c \<or> size x < size c"
proof (induction c rule: chainFrom.induct)
  case (1 c)
  show ?case
  proof (cases "prevOf c")
    case None
    with "1.prems" show ?thesis by (subst (asm) chainFrom.simps) simp
  next
    case (Some p)
    with "1.prems" have "x = c \<or> x \<in> set (chainFrom p)"
      by (subst (asm) chainFrom.simps) simp
    then show ?thesis using "1.IH"[OF Some] prevOf_size[OF Some] by auto
  qed
qed

lemma descending_chainFrom: "descending (chainFrom c)"
proof (induction c rule: chainFrom.induct)
  case (1 c)
  show ?case
  proof (cases "prevOf c")
    case None
    then show ?thesis by (subst chainFrom.simps) simp
  next
    case (Some p)
    have "\<forall>y \<in> set (chainFrom p). size y < size c"
    proof
      fix y assume "y \<in> set (chainFrom p)"
      from chainFrom_mem[OF this] prevOf_size[OF Some] show "size y < size c" by auto
    qed
    then show ?thesis using "1.IH"[OF Some] Some by (subst chainFrom.simps) simp
  qed
qed

lemma descending_chainOf: "wfHead h \<Longrightarrow> descending (chainOf h)"
proof (cases "he_Previous h")
  case None
  then show ?thesis by (simp add: chainOf_def)
next
  case (Some p)
  assume "wfHead h"
  with Some have "size p < size (he_Cid h) \<or> p = he_Cid h" by (simp add: wfHead_def)
  then have "\<forall>y \<in> set (chainFrom p). size y < size (he_Cid h) \<or> y = he_Cid h"
  proof (intro ballI)
    fix y assume p: "size p < size (he_Cid h) \<or> p = he_Cid h" and "y \<in> set (chainFrom p)"
    from chainFrom_mem[OF this(2)] p show "size y < size (he_Cid h) \<or> y = he_Cid h" by auto
  qed
  then show ?thesis using Some descending_chainFrom[of p] by (simp add: chainOf_def)
qed

lemma mergeNodes_swap:
  assumes "lt (node_Cid b) (node_Cid a) = (\<not> lt (node_Cid a) (node_Cid b))"
  shows "mergeNodes rec lt w d a b i j = mergeNodes rec lt w d b a j i"
proof -
  have "(if i < j \<or> (i = j \<and> lt (node_Cid b) (node_Cid a)) then (b, a) else (a, b)) =
        (if j < i \<or> (j = i \<and> lt (node_Cid a) (node_Cid b)) then (a, b) else (b, a))"
    using assms by (cases "i < j"; cases "j < i") auto
  then show ?thesis by (simp only: mergeNodes_def)
qed

lemma mergeCommit_swap:
  assumes lt: "lt (node_Cid b) (node_Cid a) = (\<not> lt (node_Cid a) (node_Cid b))"
    and 1: "mergeCommit rec lt w d a b i j = Some (Inr (r1, w1))"
    and 2: "mergeCommit rec lt w d b a j i = Some (Inr (r2, w2))"
  shows "mr_Cid r1 = mr_Cid r2"
  using 1 2 mergeNodes_swap[where lt=lt and a=a and b=b, OF lt, of rec w d i j]
  by (auto simp: mergeCommit_def split: option.splits sum.splits)

text \<open>
  C1, when both merges return a result. Let \<open>a\<close> and \<open>b\<close> be nodes of any kind whose
  previous pointers are well formed, and \<open>lt\<close> an order that decides between their two
  cids. If \<open>merge\<close> of \<open>a\<close> and \<open>b\<close> and \<open>merge\<close> of \<open>b\<close> and \<open>a\<close>, from the
  same state of the stores and of the clock and with the same destination, both return a
  result, the two results carry the same cid: the two searches meet the same common
  revision with the generation counts exchanged, and \<^verbatim>\<open>mergeNodes\<close> then picks the same
  winner.
\<close>

theorem merge_commutes:
  assumes a: "node_AsHistoryEntry a = Inr ha" and b: "node_AsHistoryEntry b = Inr hb"
    and wa: "wfHead ha" and wb: "wfHead hb"
    and lt: "node_Cid a \<noteq> node_Cid b \<Longrightarrow>
               lt (node_Cid b) (node_Cid a) = (\<not> lt (node_Cid a) (node_Cid b))"
    and m1: "merge n lt w d a b = Some (Inr (r1, w1))"
    and m2: "merge n lt w d b a = Some (Inr (r2, w2))"
  shows "mr_Cid r1 = mr_Cid r2"
proof -
  define rec where "rec = (case n of 0 \<Rightarrow> (\<lambda>w d a b. None) | Suc k \<Rightarrow> merge k lt)"
  have 1: "mergeBody rec lt w d a b = Some (Inr (r1, w1))"
    using m1 by (cases n) (simp_all add: rec_def)
  have 2: "mergeBody rec lt w d b a = Some (Inr (r2, w2))"
    using m2 by (cases n) (simp_all add: rec_def)
  show ?thesis
  proof (cases "he_Cid ha = he_Cid hb")
    case True
    with 1 2 show ?thesis by (auto simp: mergeBody_def a b)
  next
    case False
    have ca: "he_Cid ha = node_Cid a" and cb: "he_Cid hb = node_Cid b"
      using node_AsHistoryEntry_Cid a b by auto
    note lt' = lt[OF False[unfolded ca cb]]
    from 1 False obtain s1 where s1: "scanA w (node_store a) (node_store b) (node_name a)
         (node_name b) hb ha 0 = Inr s1"
      by (auto simp: mergeBody_def a b split: sum.splits)
    from 2 False obtain s2 where s2: "scanA w (node_store b) (node_store a) (node_name b)
         (node_name a) ha hb 0 = Inr s2"
      by (auto simp: mergeBody_def a b split: sum.splits)
    note c1 = scanA_chain[OF s1] and c2 = scanA_chain[OF s2]
    show ?thesis
    proof (cases "firstCommon (chainOf ha) (chainOf hb)")
      case None
      with firstCommon_mirror_None[OF None] c1 c2
      have "s1 = NoCommon (length (chainOf ha) - 1) (length (chainOf hb) - 1)"
        "s2 = NoCommon (length (chainOf hb) - 1) (length (chainOf ha) - 1)" by simp_all
      with 1 2 False s1 s2 have
        "mergeCommit rec lt w d a b (length (chainOf ha) - 1) (length (chainOf hb) - 1) = Some (Inr (r1, w1))"
        "mergeCommit rec lt w d b a (length (chainOf hb) - 1) (length (chainOf ha) - 1) = Some (Inr (r2, w2))"
        by (simp_all add: mergeBody_def a b)
      then show ?thesis by (rule mergeCommit_swap[where lt=lt and a=a and b=b, OF lt'])
    next
      case (Some ij)
      obtain i j where ij: "ij = (i, j)" by fastforce
      with Some have f: "firstCommon (chainOf ha) (chainOf hb) = Some (i, j)" by simp
      note f' = firstCommon_mirror[OF descending_chainOf[OF wa] descending_chainOf[OF wb] f]
      from c1 c2 f f' have s: "s1 = Found i j" "s2 = Found j i" by simp_all
      consider (ff) "i = 0" "0 < j" | (la) "0 < i" "j = 0" | (mc) "\<not> (i = 0 \<and> 0 < j)" "\<not> (0 < i \<and> j = 0)"
        by blast
      then show ?thesis
      proof cases
        case ff
        with 1 2 False s1 s2 s show ?thesis by (auto simp: mergeBody_def a b)
      next
        case la
        with 1 2 False s1 s2 s show ?thesis by (auto simp: mergeBody_def a b)
      next
        case mc
        with 1 2 False s1 s2 s have
          "mergeCommit rec lt w d a b i j = Some (Inr (r1, w1))"
          "mergeCommit rec lt w d b a j i = Some (Inr (r2, w2))"
          by (auto simp: mergeBody_def a b)
        then show ?thesis by (rule mergeCommit_swap[where lt=lt and a=a and b=b, OF lt'])
      qed
    qed
  qed
qed

text \<open>
  The previous pointer is well formed in every node that \<^verbatim>\<open>loadNode\<close> returns and in
  every node after its \<^verbatim>\<open>Put\<close>.
\<close>

lemma wfHead_loaded:
  assumes "loadNode w st name p = Inr n" "node_AsHistoryEntry n = Inr h"
  shows "wfHead h"
proof -
  from loadNode_Inr[OF assms(1)] node_AsHistoryEntry_Cid[OF assms(2)] have "he_Cid h = p" by auto
  then show ?thesis
    using loadNode_Previous_size[OF assms] by (auto simp: wfHead_def split: option.splits)
qed

lemma wfHead_Tree_Put:
  assumes p: "Tree_Put w t = Inr (res, t', w')"
    and d: "Defined (t_cid t) \<or> h_Previous (t_h t) = None"
    and e: "node_AsHistoryEntry (TreeNode t') = Inr h"
  shows "wfHead h"
proof -
  note f = Tree_Put_fields[OF p]
  from e have h: "he_Cid h = t_cid t'" "he_Previous h = h_Previous (t_h t')"
    by (auto simp: Tree_AsHistoryEntry_def entryOf_def split: option.splits)
  show ?thesis
  proof (cases "h_Previous (t_h t')")
    case None
    then show ?thesis by (simp add: wfHead_def h)
  next
    case (Some c)
    from Header_Previous_size[OF Some] f(7) have "size c < size (t_cid t')" by simp
    then show ?thesis by (simp add: wfHead_def h Some)
  qed
qed

lemma wfHead_File_Put:
  assumes p: "File_Put w f = Inr (res, f', w')"
    and d: "Defined (f_cid f) \<or> h_Previous (f_h f) = None"
    and e: "node_AsHistoryEntry (FileNode f') = Inr h"
  shows "wfHead h"
proof -
  from e have h: "he_Cid h = f_cid f'" "he_Previous h = h_Previous (f_h f')"
    by (auto simp: File_AsHistoryEntry_def entryOf_def split: option.splits)
  have "h_Previous (f_h f') = None \<or> h_Previous (f_h f') = Some (f_cid f')"
    using p d
    by (auto simp: File_Put_def Let_def block_Cid_def
             split: option.splits prod.splits if_splits)
  then show ?thesis by (auto simp: wfHead_def h)
qed

lemma wfHead_LDFile_Put:
  assumes p: "LDFile_Put w df = (res, df', w')"
    and d: "(\<not> ld_bare df \<and> Defined (ld_cid df)) \<or> ld_previous df = None"
    and e: "node_AsHistoryEntry (LDFileNode df') = Inr h"
  shows "wfHead h"
proof -
  from e have h: "he_Cid h = ld_cid df'" "he_Previous h = ld_previous df'"
    by (auto simp: LDFile_AsHistoryEntry_def split: option.splits)
  have "ld_previous df' = None \<or> ld_previous df' = Some (ld_cid df')"
    using p d
    by (auto simp: LDFile_Put_def Let_def block_Cid_def split: if_splits)
  then show ?thesis by (auto simp: wfHead_def h)
qed

lemma mergeBody_FastForward:
  assumes a: "node_AsHistoryEntry a = Inr ha" and b: "node_AsHistoryEntry b = Inr hb"
    and ne: "node_Cid a \<noteq> node_Cid b"
    and anc: "ancestorAt w (node_store b) (node_name b) hb k (node_Cid a)"
  shows "mergeBody rec lt w destFS a b =
           Some (Inr (zeroMergeResult\<lparr>mr_Type := MTFastForward, mr_Cid := node_Cid b,
                                      mr_Size := he_Size hb,
                                      mr_IsFile := isFileType (he_Type hb)\<rparr>, w))"
proof -
  have ca: "he_Cid ha = node_Cid a" and cb: "he_Cid hb = node_Cid b"
    using node_AsHistoryEntry_Cid a b by auto
  from scanB_ancestorAt_first[OF anc, of 0] ne cb obtain j where
    sb: "scanB w (node_store b) (node_name b) (he_Cid ha) hb 0 = Inr (Match j)" and j: "0 < j"
    by (auto simp: ca)
  have sa: "scanA w (node_store a) (node_store b) (node_name a) (node_name b) hb ha 0 =
              Inr (Found 0 j)"
    by (subst scanA.simps) (simp add: sb)
  show ?thesis
    using ne j by (simp add: mergeBody_def a b sa ca cb)
qed

lemma mergeBody_LocalAhead_one:
  assumes a: "node_AsHistoryEntry a = Inr ha" and b: "node_AsHistoryEntry b = Inr hb"
    and ne: "node_Cid a \<noteq> node_Cid b"
    and pb: "he_Previous hb = None" and pa: "he_Previous ha = Some (node_Cid b)"
    and l: "loadNode w (node_store a) (node_name a) (node_Cid b) = Inr n'"
    and e: "node_AsHistoryEntry n' = Inr h'"
  shows "mergeBody rec lt w d a b =
           Some (Inr (zeroMergeResult\<lparr>mr_Type := MTLocalAhead, mr_Cid := node_Cid a,
                                      mr_Size := he_Size ha,
                                      mr_IsFile := isFileType (he_Type ha)\<rparr>, w))"
proof -
  have ca: "he_Cid ha = node_Cid a" and cb: "he_Cid hb = node_Cid b"
    using node_AsHistoryEntry_Cid a b by auto
  have c': "he_Cid h' = node_Cid b"
    using loadNode_Inr[OF l] node_AsHistoryEntry_Cid[OF e] by auto
  have s0: "scanB w (node_store b) (node_name b) (he_Cid ha) hb 0 = Inr (NoMatch 0)"
    using ne by (subst scanB.simps) (simp add: ca cb pb)
  have s1: "scanB w (node_store b) (node_name b) (he_Cid h') hb 0 = Inr (Match 0)"
    by (subst scanB.simps) (simp add: c' cb)
  have a1: "scanA w (node_store a) (node_store b) (node_name a) (node_name b) hb h' (Suc 0) =
              Inr (Found (Suc 0) 0)"
    by (subst scanA.simps) (simp add: s1)
  have a0: "scanA w (node_store a) (node_store b) (node_name a) (node_name b) hb ha 0 =
              Inr (Found 1 0)"
    by (subst scanA.simps) (simp add: s0 pa l e a1)
  show ?thesis
    using ne by (simp add: mergeBody_def a b a0 ca cb)
qed

lemma mergeBody_load_fails:
  assumes a: "node_AsHistoryEntry a = Inr ha" and b: "node_AsHistoryEntry b = Inr hb"
    and ne: "node_Cid a \<noteq> node_Cid b"
    and pb: "he_Previous hb = Some p"
    and l: "loadNode w (node_store b) (node_name b) p = Inl e"
  shows "mergeBody rec lt w d a b = Some (Inl e)"
proof -
  have ca: "he_Cid ha = node_Cid a" and cb: "he_Cid hb = node_Cid b"
    using node_AsHistoryEntry_Cid a b by auto
  have s0: "scanB w (node_store b) (node_name b) (he_Cid ha) hb 0 = Inl e"
    using ne by (subst scanB.simps) (simp add: ca cb pb l)
  have a0: "scanA w (node_store a) (node_store b) (node_name a) (node_name b) hb ha 0 = Inl e"
    by (subst scanA.simps) (simp add: s0)
  show ?thesis
    using ne by (simp add: mergeBody_def a b a0 ca cb)
qed

lemma Tree_Put_stores_exact:
  assumes p: "Tree_Put w t = Inr (res, t', w')" and m: "t_metadata t = None"
  shows "stores w' st =
           (if st = t_store t
            then insert (t_cid t') (insert (Cid (SkeletonBlock (t_skeleton t)))
                   (insert (Cid (LinksBlock (t_userland t))) (stores w st)))
            else stores w st)"
  using p m
  by (auto simp: Tree_Put_unfold putMeta_def Let_def PutBlock_stores split: option.splits if_splits)

lemma loadNode_absent:
  "c \<notin> stores w st \<Longrightarrow> loadNode w st name c = Inl ErrNotFound"
  by (cases c) (simp_all add: loadNode_def loadHeader_def GetBlock_def)

text \<open>Two Puts in a row of a directory.\<close>

lemma Put_Put_facts:
  assumes p1: "Tree_Put w t = Inr (r1, a, w1)" and p2: "Tree_Put w1 a = Inr (r2, b, w2)"
    and i: "h_Info (t_h t) = Some i" "i_Type i = NTDir"
    and u: "distinct (map fst (t_userland t))" "[] \<notin> set (map fst (t_userland t))"
  shows "node_AsHistoryEntry (TreeNode a) =
           Inr \<lparr>he_Cid = t_cid a, he_Previous = h_Previous (t_h a), he_Size = i_Size i,
                he_Type = NTDir, he_Mtime = i_Mtime i\<rparr>"
    "node_AsHistoryEntry (TreeNode b) =
           Inr \<lparr>he_Cid = t_cid b, he_Previous = Some (t_cid a), he_Size = i_Size i,
                he_Type = NTDir, he_Mtime = i_Mtime i\<rparr>"
    "size (t_cid a) < size (t_cid b)"
    "\<exists>n'. loadNode w2 (t_store t) (t_name t) (t_cid a) = Inr n' \<and>
          node_AsHistoryEntry n' =
            Inr \<lparr>he_Cid = t_cid a, he_Previous = h_Previous (t_h a), he_Size = i_Size i,
                 he_Type = NTDir, he_Mtime = i_Mtime i\<rparr>"
    "t_store a = t_store t" "t_store b = t_store t" "t_name a = t_name t" "t_name b = t_name t"
    "h_Previous (t_h a) = (if Defined (t_cid t) then Some (t_cid t) else h_Previous (t_h t))"
proof -
  note f1 = Tree_Put_fields[OF p1] and g1 = Tree_Put_world[OF p1]
  have ia: "h_Info (t_h a) = Some i" using f1(5) i(1) by simp
  note f2 = Tree_Put_fields[OF p2] and g2 = Tree_Put_world[OF p2]
  have ib: "h_Info (t_h b) = Some i" using f2(5) ia by simp
  have da: "Defined (t_cid a)" using f1(7) by simp
  have pb: "h_Previous (t_h b) = Some (t_cid a)" using f2(11) da by simp
  show ea: "node_AsHistoryEntry (TreeNode a) =
           Inr \<lparr>he_Cid = t_cid a, he_Previous = h_Previous (t_h a), he_Size = i_Size i,
                he_Type = NTDir, he_Mtime = i_Mtime i\<rparr>"
    by (simp add: Tree_AsHistoryEntry_def entryOf_def ia i(2))
  show "node_AsHistoryEntry (TreeNode b) =
           Inr \<lparr>he_Cid = t_cid b, he_Previous = Some (t_cid a), he_Size = i_Size i,
                he_Type = NTDir, he_Mtime = i_Mtime i\<rparr>"
    by (simp add: Tree_AsHistoryEntry_def entryOf_def ib pb i(2))
  show "size (t_cid a) < size (t_cid b)"
    using Header_Previous_size[OF pb] f2(7) by simp
  have s: "stores w1 (t_store t) \<subseteq> stores w2 (t_store t)" using g2(4) .
  have lt: "LoadTree w2 (t_store t) (t_name t) (t_cid a) =
           Inr \<lparr>t_store = t_store t, t_name = t_name t, t_cid = t_cid a, t_h = t_h a,
                t_metadata = None, t_skeleton = t_skeleton t, t_userland = t_userland t\<rparr>"
    by (rule LoadTree_after_Put[OF p1 i u s])
  have en: "node_AsHistoryEntry (TreeNode \<lparr>t_store = t_store t, t_name = t_name t,
                t_cid = t_cid a, t_h = t_h a,
                t_metadata = None, t_skeleton = t_skeleton t, t_userland = t_userland t\<rparr>) =
             Inr \<lparr>he_Cid = t_cid a, he_Previous = h_Previous (t_h a), he_Size = i_Size i,
                he_Type = NTDir, he_Mtime = i_Mtime i\<rparr>"
    by (simp add: Tree_AsHistoryEntry_def entryOf_def ia i(2))
  show "\<exists>n'. loadNode w2 (t_store t) (t_name t) (t_cid a) = Inr n' \<and>
          node_AsHistoryEntry n' =
            Inr \<lparr>he_Cid = t_cid a, he_Previous = h_Previous (t_h a), he_Size = i_Size i,
                 he_Type = NTDir, he_Mtime = i_Mtime i\<rparr>"
    using loadNode_of_LoadTree[OF lt] en by blast
  show "t_store a = t_store t" "t_store b = t_store t" "t_name a = t_name t" "t_name b = t_name t"
    using f1(3,4) f2(3,4) by simp_all
  show "h_Previous (t_h a) = (if Defined (t_cid t) then Some (t_cid t) else h_Previous (t_h t))"
    by (rule f1(11))
qed

text \<open>
  The fresh root of the example world, persisted, and the same tree persisted again:
  their merge is a fast-forward one way and local-ahead the other way, with one cid.
\<close>

theorem merge_commutes_witness:
  "\<exists>r0 t0 w0 r1 t1 w1 ra wa rb wb.
     Tree_Put ex_world1 ex_root = Inr (r0, t0, w0) \<and> Tree_Put w0 t0 = Inr (r1, t1, w1) \<and>
     merge 0 sizeOrder w1 0 (TreeNode t0) (TreeNode t1) = Some (Inr (ra, wa)) \<and>
     merge 0 sizeOrder w1 0 (TreeNode t1) (TreeNode t0) = Some (Inr (rb, wb)) \<and>
     mr_Cid ra = mr_Cid rb"
proof -
  let ?i = "\<lparr>i_WNFS = LatestVersion, i_Type = NTDir, i_Mode = ModeDefault,
          i_Ctime = 1000, i_Mtime = 1000, i_Size = 0\<rparr>"
  note i = ex_root_simps(6)
  obtain r0 t0 w0 where p0: "Tree_Put ex_world1 ex_root = Inr (r0, t0, w0)"
    using Tree_Put_Inr[OF i] by blast
  have i0: "h_Info (t_h t0) = Some ?i" using Tree_Put_fields(5)[OF p0] i by simp
  obtain r1 t1 w1 where p1: "Tree_Put w0 t0 = Inr (r1, t1, w1)"
    using Tree_Put_Inr[OF i0] by blast
  have ty: "i_Type ?i = NTDir" by simp
  note pp = Put_Put_facts[OF p0 p1 i ty, simplified ex_root_simps, simplified]
  define h0 where "h0 = \<lparr>he_Cid = t_cid t0, he_Previous = h_Previous (t_h t0), he_Size = i_Size ?i,
                he_Type = NTDir, he_Mtime = i_Mtime ?i\<rparr>"
  define h1 where "h1 = \<lparr>he_Cid = t_cid t1, he_Previous = Some (t_cid t0), he_Size = i_Size ?i,
                he_Type = NTDir, he_Mtime = i_Mtime ?i\<rparr>"
  have e0: "node_AsHistoryEntry (TreeNode t0) = Inr h0" using pp(1) by (simp add: h0_def)
  have e1: "node_AsHistoryEntry (TreeNode t1) = Inr h1" using pp(2) by (simp add: h1_def)
  have sz: "size (t_cid t0) < size (t_cid t1)" by (rule pp(3))
  then have ne: "t_cid t0 \<noteq> t_cid t1" by auto
  have pr0: "he_Previous h0 = None" using pp(9) by (simp add: h0_def)
  from pp(4) obtain n' where l: "loadNode w1 0 (t_name ex_root) (t_cid t0) = Inr n'"
    and en: "node_AsHistoryEntry n' = Inr h0" by (auto simp: h0_def)
  have st: "t_store t0 = 0" "t_store t1 = 0" "t_name t0 = t_name ex_root" "t_name t1 = t_name ex_root"
    using pp(5,6,7,8) by simp_all
  have anc: "ancestorAt w1 (node_store (TreeNode t1)) (node_name (TreeNode t1)) h1 (Suc 0)
               (node_Cid (TreeNode t0))"
  proof (rule ancestorAt.anc_back)
    show "he_Previous h1 = Some (t_cid t0)" by (simp add: h1_def)
    show "loadNode w1 (node_store (TreeNode t1)) (node_name (TreeNode t1)) (t_cid t0) = Inr n'"
      using l st by simp
    show "node_AsHistoryEntry n' = Inr h0" by (rule en)
    show "ancestorAt w1 (node_store (TreeNode t1)) (node_name (TreeNode t1)) h0 0
            (node_Cid (TreeNode t0))"
      using ancestorAt.anc_here[of w1 _ _ h0] by (simp add: h0_def)
  qed
  have m1: "merge 0 sizeOrder w1 0 (TreeNode t0) (TreeNode t1) =
           Some (Inr (zeroMergeResult\<lparr>mr_Type := MTFastForward, mr_Cid := node_Cid (TreeNode t1),
                                      mr_Size := he_Size h1,
                                      mr_IsFile := isFileType (he_Type h1)\<rparr>, w1))"
    using mergeBody_FastForward[OF e0 e1 _ anc] ne by simp
  have m2: "merge 0 sizeOrder w1 0 (TreeNode t1) (TreeNode t0) =
           Some (Inr (zeroMergeResult\<lparr>mr_Type := MTLocalAhead, mr_Cid := node_Cid (TreeNode t1),
                                      mr_Size := he_Size h1,
                                      mr_IsFile := isFileType (he_Type h1)\<rparr>, w1))"
    using mergeBody_LocalAhead_one[OF e1 e0 _ pr0 _ _ en, of w1] ne l st
    by (simp add: h1_def)
  have w0': "wfHead h0" by (simp add: wfHead_def pr0)
  have w1': "wfHead h1" using sz by (simp add: wfHead_def h1_def)
  have lt: "node_Cid (TreeNode t0) \<noteq> node_Cid (TreeNode t1) \<Longrightarrow>
            sizeOrder (node_Cid (TreeNode t1)) (node_Cid (TreeNode t0)) =
              (\<not> sizeOrder (node_Cid (TreeNode t0)) (node_Cid (TreeNode t1)))"
    using sz by (simp add: sizeOrder_def)
  from merge_commutes[where lt = sizeOrder and a = "TreeNode t0" and b = "TreeNode t1",
         OF e0 e1 w0' w1' lt m1 m2]
  show ?thesis using p0 p1 m1 m2 by blast
qed

lemma Header_encodeBlock_Node: "\<exists>v. Header_encodeBlock h = Node v"
  by (simp add: Header_encodeBlock_def WrapObject_def)

text \<open>
  C1, as the claim states it, fails: \<open>ex_ma\<close> and \<open>ex_mb\<close> are two revisions of one
  directory in a store that does not hold the revision before \<open>ex_ma\<close>. Their merge
  is a fast-forward to the cid of \<open>ex_mb\<close>; the merge with the arguments exchanged
  walks the chain of \<open>ex_ma\<close> first, fails to load the revision before it and returns
  the error instead of a cid.
\<close>

theorem merge_asymmetric_counterexample:
  "Merge 0 sizeOrder (snd ex_mb) (TreeNode (fst ex_ma)) (TreeNode (fst ex_mb)) =
     Some (Inr (zeroMergeResult\<lparr>mr_Type := MTFastForward, mr_Cid := t_cid (fst ex_mb),
                                mr_Size := 0, mr_IsFile := False\<rparr>, snd ex_mb)) \<and>
   Merge 0 sizeOrder (snd ex_mb) (TreeNode (fst ex_mb)) (TreeNode (fst ex_ma)) =
     Some (Inl ErrNotFound)"
proof -
  let ?i = "\<lparr>i_WNFS = LatestVersion, i_Type = NTDir, i_Mode = ModeDefault,
          i_Ctime = 1000, i_Mtime = 1000, i_Size = 0\<rparr>"
  note i = ex_root_simps(6)
  obtain r0 t0 w0 where p0: "Tree_Put ex_world1 ex_root = Inr (r0, t0, w0)"
    using Tree_Put_Inr[OF i] by blast
  note f0 = Tree_Put_fields[OF p0]
  have m0: "ex_m0 = (t0, w0)" by (simp add: ex_m0_def putTree_def p0)
  have i0: "h_Info (t_h t0) = Some ?i" using f0(5) i by simp
  have d0: "Defined (t_cid t0)" using f0(7) by simp
  obtain v0 where v0: "t_cid t0 = Cid (Node v0)"
    using f0(7) Header_encodeBlock_Node[of "t_h t0"] by auto
  have s0: "stores w0 (Suc 0) = {}"
    using Tree_Put_stores_exact[OF p0 ex_root_simps(5), of "Suc 0"]
    by (simp add: ex_root_simps ex_world1_def ex_world_def NewEmptyTree_def NewInfo_def
                  Timestamp_def split: prod.splits)
  define ta where "ta = t0\<lparr>t_store := 1\<rparr>"
  have ita: "h_Info (t_h ta) = Some ?i" by (simp add: ta_def i0)
  have uta: "t_userland ta = []" "t_skeleton ta = []" "t_metadata ta = None" "t_store ta = Suc 0"
    "t_cid ta = t_cid t0" "t_name ta = t_name t0"
    using f0(1,2) Tree_Put_unfold[of ex_world1 ex_root] p0
    by (auto simp: ta_def ex_root_simps putMeta_def Let_def split: option.splits)
  obtain r1 a w1 where p1: "Tree_Put w0 ta = Inr (r1, a, w1)"
    using Tree_Put_Inr[OF ita] by blast
  note f1 = Tree_Put_fields[OF p1]
  have "Tree_Put (snd ex_m0) ((fst ex_m0)\<lparr>t_store := 1\<rparr>) = Inr (r1, a, w1)"
    using p1 by (simp add: m0 ta_def)
  then have ma: "ex_ma = (a, w1)" by (simp add: ex_ma_def putTree_def)
  have ia: "h_Info (t_h a) = Some ?i" using f1(5) ita by simp
  obtain r2 b w2 where p2: "Tree_Put w1 a = Inr (r2, b, w2)"
    using Tree_Put_Inr[OF ia] by blast
  note f2 = Tree_Put_fields[OF p2]
  have mb: "ex_mb = (b, w2)" by (simp add: ex_mb_def putTree_def ma p2)
  have ty: "i_Type ?i = NTDir" by simp
  note pp = Put_Put_facts[OF p1 p2 ita ty, simplified uta, simplified]
  define ha where "ha = \<lparr>he_Cid = t_cid a, he_Previous = Some (t_cid t0), he_Size = i_Size ?i,
                he_Type = NTDir, he_Mtime = i_Mtime ?i\<rparr>"
  define hb where "hb = \<lparr>he_Cid = t_cid b, he_Previous = Some (t_cid a), he_Size = i_Size ?i,
                he_Type = NTDir, he_Mtime = i_Mtime ?i\<rparr>"
  have pa: "h_Previous (t_h a) = Some (t_cid t0)" using pp(9) d0 by simp
  have ea: "node_AsHistoryEntry (TreeNode a) = Inr ha" using pp(1) by (simp add: ha_def pa)
  have eb: "node_AsHistoryEntry (TreeNode b) = Inr hb" using pp(2) by (simp add: hb_def)
  have sz: "size (t_cid a) < size (t_cid b)" by (rule pp(3))
  then have ne: "t_cid a \<noteq> t_cid b" by auto
  have s0a: "size (t_cid t0) < size (t_cid a)"
    using Header_Previous_size[OF pa] f1(7) by simp
  from pp(4) obtain n' where l: "loadNode w2 (Suc 0) (t_name t0) (t_cid a) = Inr n'"
    and en: "node_AsHistoryEntry n' = Inr ha" by (auto simp: ha_def pa)
  have st: "t_store a = Suc 0" "t_store b = Suc 0" "t_name a = t_name t0" "t_name b = t_name t0"
    using pp(5,6,7,8) by simp_all
  have ma1: "t_metadata a = None"
    using p1 uta(3) by (auto simp: Tree_Put_unfold putMeta_def Let_def split: option.splits)
  have s1: "stores w1 (Suc 0) = {t_cid a, Cid (SkeletonBlock []), Cid (LinksBlock [])}"
    using Tree_Put_stores_exact[OF p1 uta(3), of "Suc 0"] by (simp add: uta s0)
  have s2: "stores w2 (Suc 0) = {t_cid b, t_cid a, Cid (SkeletonBlock []), Cid (LinksBlock [])}"
    using Tree_Put_stores_exact[OF p2 ma1, of "Suc 0"] f1(1,2) by (auto simp: st uta s1)
  have n1: "t_cid t0 \<noteq> t_cid a" using s0a by auto
  have n2: "t_cid t0 \<noteq> t_cid b" using s0a sz by auto
  have n3: "t_cid t0 \<noteq> Cid (SkeletonBlock [])" "t_cid t0 \<noteq> Cid (LinksBlock [])"
    by (simp_all add: v0)
  have out: "t_cid t0 \<notin> stores w2 (Suc 0)"
    using n1 n2 n3 by (simp add: s2)
  have anc: "ancestorAt w2 (node_store (TreeNode b)) (node_name (TreeNode b)) hb (Suc 0)
               (node_Cid (TreeNode a))"
  proof (rule ancestorAt.anc_back)
    show "he_Previous hb = Some (t_cid a)" by (simp add: hb_def)
    show "loadNode w2 (node_store (TreeNode b)) (node_name (TreeNode b)) (t_cid a) = Inr n'"
      using l st by simp
    show "node_AsHistoryEntry n' = Inr ha" by (rule en)
    show "ancestorAt w2 (node_store (TreeNode b)) (node_name (TreeNode b)) ha 0
            (node_Cid (TreeNode a))"
      using ancestorAt.anc_here[of w2 _ _ ha] by (simp add: ha_def)
  qed
  have m1: "merge 0 sizeOrder w2 (Suc 0) (TreeNode a) (TreeNode b) =
           Some (Inr (zeroMergeResult\<lparr>mr_Type := MTFastForward, mr_Cid := t_cid b,
                                      mr_Size := 0, mr_IsFile := False\<rparr>, w2))"
    using mergeBody_FastForward[OF ea eb _ anc] ne
    by (simp add: hb_def isFileType_def NTDir_def NTFile_def NTLDFile_def)
  have lf: "loadNode w2 (node_store (TreeNode a)) (node_name (TreeNode a)) (t_cid t0) =
              Inl ErrNotFound"
    using loadNode_absent[OF out] st by simp
  have pha: "he_Previous ha = Some (t_cid t0)" by (simp add: ha_def)
  have ne': "node_Cid (TreeNode b) \<noteq> node_Cid (TreeNode a)" using ne by simp
  have m2: "merge 0 sizeOrder w2 (Suc 0) (TreeNode b) (TreeNode a) = Some (Inl ErrNotFound)"
    using mergeBody_load_fails[OF eb ea ne' pha lf] by simp
  show ?thesis using m1 m2 by (simp add: Merge_def ma mb st)
qed

end
